(* ===== verification/Prelude.thy ===== *)
theory Prelude
  imports Main "HOL-Library.Word" "HOL-Library.AList" "HOL-Library.Multiset"
begin

text \<open>
  What every theory of the development shares: Go's integer types as words, Go's error and
  panic outcomes, Go maps as association lists whose order is the order of iteration, pointers
  into a typed store, and the few generic lemmas on them. Nothing here models a file of the
  program; it models the language the program is written in.
\<close>

section \<open>Collections of facts\<close>

named_theorems outcome_simps \<open>evaluation of the error and panic plumbing\<close>
named_theorems gomap_simps \<open>lookup after insert and delete on Go maps\<close>
named_theorems frame \<open>parts of a state an operation leaves alone\<close>

section \<open>Integers\<close>

text \<open>
  Go's fixed-width integers are words; \<open>int\<close> and \<open>uint\<close> have 64 bits on the platforms the
  service is built for. Signed values are read with \<^const>\<open>sint\<close>, unsigned ones with
  \<^const>\<open>uint\<close>; addition and multiplication wrap, as they do in Go.
\<close>

type_synonym int32 = "32 word"
type_synonym int64 = "64 word"
type_synonym goint = "64 word"
type_synonym uint64 = "64 word"
type_synonym gouint = "64 word"
type_synonym bytes = string

text \<open>The conversion \<open>int64(x)\<close> of a narrower signed integer keeps its value.\<close>

definition int64_of_int32 :: "int32 \<Rightarrow> int64" where
  "int64_of_int32 x = word_of_int (sint x)"

lemma sint64_range: "- (2 ^ 63) \<le> sint (x :: 64 word) \<and> sint x < 2 ^ 63"
  using sint_ge [of x] sint_lt [of x] by simp

lemma sint32_range: "- (2 ^ 31) \<le> sint (x :: 32 word) \<and> sint x < 2 ^ 31"
  using sint_ge [of x] sint_lt [of x] by simp

lemma sint_word_of_int_64:
  assumes "- (2 ^ 63) \<le> i" and "i < 2 ^ 63"
  shows "sint (word_of_int i :: 64 word) = i"
  using assms by (simp add: signed_take_bit_int_eq_self sint_sbintrunc')

lemma sint_int64_of_int32 [simp]: "sint (int64_of_int32 x) = sint x"
proof -
  have "- (2 ^ 63) \<le> sint x" and "sint x < 2 ^ 63" using sint32_range [of x] by simp_all
  then show ?thesis unfolding int64_of_int32_def by (rule sint_word_of_int_64)
qed

section \<open>Outcomes: results, errors and panics\<close>

text \<open>
  A Go call ends in one of three ways: it returns a value with a nil error (\<open>Ok\<close>), it
  returns a non-nil error (\<open>Err\<close>), or it panics (\<open>Panic\<close>, here with what caused it).
\<close>

datatype panic =
    NilDereference
  | UnsupportedStorage
  | ExplicitPanic string

datatype ('e, 'a) outcome = Ok 'a | Err 'e | Panic panic

fun and_then :: "('e, 'a) outcome \<Rightarrow> ('a \<Rightarrow> ('e, 'b) outcome) \<Rightarrow> ('e, 'b) outcome" where
  "and_then (Ok x) f = f x"
| "and_then (Err e) f = Err e"
| "and_then (Panic p) f = Panic p"

fun map_err :: "('e \<Rightarrow> 'f) \<Rightarrow> ('e, 'a) outcome \<Rightarrow> ('f, 'a) outcome" where
  "map_err w (Ok x) = Ok x"
| "map_err w (Err e) = Err (w e)"
| "map_err w (Panic p) = Panic p"

fun is_ok :: "('e, 'a) outcome \<Rightarrow> bool" where
  "is_ok (Ok x) = True"
| "is_ok _ = False"

lemma and_then_Ok_iff [outcome_simps]:
  "and_then r f = Ok y \<longleftrightarrow> (\<exists>x. r = Ok x \<and> f x = Ok y)"
  by (cases r) auto

lemma and_then_Panic_iff [outcome_simps]:
  "and_then r f = Panic p \<longleftrightarrow> r = Panic p \<or> (\<exists>x. r = Ok x \<and> f x = Panic p)"
  by (cases r) auto

lemma and_then_Err_iff [outcome_simps]:
  "and_then r f = Err e \<longleftrightarrow> r = Err e \<or> (\<exists>x. r = Ok x \<and> f x = Err e)"
  by (cases r) auto

lemma map_err_Ok_iff [outcome_simps]: "map_err w r = Ok y \<longleftrightarrow> r = Ok y"
  by (cases r) auto

lemma map_err_Panic_iff [outcome_simps]: "map_err w r = Panic p \<longleftrightarrow> r = Panic p"
  by (cases r) auto

lemma is_ok_iff: "is_ok r \<longleftrightarrow> (\<exists>x. r = Ok x)"
  by (cases r) auto

lemma and_then_cong [fundef_cong]:
  "r = r' \<Longrightarrow> (\<And>x. r' = Ok x \<Longrightarrow> f x = f' x) \<Longrightarrow> and_then r f = and_then r' f'"
  by (cases r') auto

section \<open>Pointers\<close>

text \<open>
  A pointer to a shared object is nil (\<open>None\<close>) or an address. A pointer to a scalar that no
  code mutates through (\<open>*int\<close>, \<open>*string\<close>, \<open>*bool\<close> fields) is just an \<open>option\<close>.
\<close>

type_synonym ptr = "nat option"

section \<open>Go maps\<close>

text \<open>
  A Go map is an association list with distinct keys. The order of the list stands for the
  order in which the runtime happens to iterate the map; statements about all maps therefore
  cover every order of iteration.
\<close>

type_synonym ('k, 'v) gomap = "('k \<times> 'v) list"

abbreviation lookup :: "('k, 'v) gomap \<Rightarrow> 'k \<Rightarrow> 'v option" where
  "lookup \<equiv> map_of"

abbreviation keys :: "('k, 'v) gomap \<Rightarrow> 'k list" where
  "keys m \<equiv> map fst m"

abbreviation insert_key :: "'k \<Rightarrow> 'v \<Rightarrow> ('k, 'v) gomap \<Rightarrow> ('k, 'v) gomap" where
  "insert_key \<equiv> AList.update"

abbreviation delete_key :: "'k \<Rightarrow> ('k, 'v) gomap \<Rightarrow> ('k, 'v) gomap" where
  "delete_key \<equiv> AList.delete"

definition wf_map :: "('k, 'v) gomap \<Rightarrow> bool" where
  "wf_map m \<longleftrightarrow> distinct (keys m)"

lemma wf_map_Nil [simp]: "wf_map []"
  by (simp add: wf_map_def)

lemma wf_map_Cons [simp]: "wf_map ((k, v) # m) \<longleftrightarrow> k \<notin> set (keys m) \<and> wf_map m"
  by (simp add: wf_map_def)

lemma wf_map_insert [simp]: "wf_map m \<Longrightarrow> wf_map (insert_key k v m)"
  by (simp add: wf_map_def distinct_update)

lemma wf_map_delete [simp]: "wf_map m \<Longrightarrow> wf_map (delete_key k m)"
  by (simp add: wf_map_def distinct_delete)

lemma lookup_insert [gomap_simps, simp]:
  "lookup (insert_key k v m) = (lookup m)(k \<mapsto> v)"
  by (simp add: update_conv')

lemma lookup_delete [gomap_simps, simp]:
  "lookup (delete_key k m) = (lookup m)(k := None)"
  by (simp add: delete_conv')

lemma lookup_in_set: "lookup m k = Some v \<Longrightarrow> (k, v) \<in> set m"
  by (rule map_of_SomeD)

lemma lookup_iff_set: "wf_map m \<Longrightarrow> lookup m k = Some v \<longleftrightarrow> (k, v) \<in> set m"
  by (simp add: wf_map_def)

lemma lookup_None_iff: "lookup m k = None \<longleftrightarrow> k \<notin> set (keys m)"
  by (induction m) auto

lemma keys_insert_new: "lookup m k = None \<Longrightarrow> insert_key k v m = m @ [(k, v)]"
  by (induction m) (auto split: if_splits)

section \<open>Choices of the runtime\<close>

text \<open>
  Two results of the standard library are fixed only up to order: the order a map is ranged
  over and, for equal keys, the order \<open>sort.Slice\<close> leaves. The choice is a parameter \<open>pick\<close>.
  \<open>permuted pick xs\<close> is what \<open>pick\<close> answers when that is a rearrangement of \<open>xs\<close>, and \<open>xs\<close>
  itself otherwise, so every rearrangement is the value for some \<open>pick\<close> and nothing else is.
\<close>

fun is_perm :: "'a list \<Rightarrow> 'a list \<Rightarrow> bool" where
  "is_perm [] ys \<longleftrightarrow> ys = []"
| "is_perm (x # xs) ys \<longleftrightarrow> x \<in> set ys \<and> is_perm xs (remove1 x ys)"

lemma is_perm_iff: "is_perm xs ys \<longleftrightarrow> mset xs = mset ys"
proof (induction xs arbitrary: ys)
  case Nil
  then show ?case by auto
next
  case (Cons x xs)
  show ?case
  proof (cases "x \<in> set ys")
    case True
    then have "add_mset x (mset (remove1 x ys)) = mset ys" by simp
    with True show ?thesis by (metis Cons.IH add_mset_add_mset_same_iff is_perm.simps(2) mset.simps(2))
  next
    case False
    then have "mset (x # xs) \<noteq> mset ys" by (metis list.set_intros(1) mset_eq_setD)
    with False show ?thesis by simp
  qed
qed

definition permuted :: "('a list \<Rightarrow> 'a list) \<Rightarrow> 'a list \<Rightarrow> 'a list" where
  "permuted pick xs = (if is_perm (pick xs) xs then pick xs else xs)"

lemma mset_permuted [simp]: "mset (permuted pick xs) = mset xs"
  by (simp add: permuted_def is_perm_iff)

lemma set_permuted [simp]: "set (permuted pick xs) = set xs"
  by (metis mset_permuted set_mset_mset)

lemma length_permuted [simp]: "length (permuted pick xs) = length xs"
  by (metis mset_permuted size_mset)

lemma permuted_Nil [simp]: "permuted pick [] = []"
  by (metis mset_permuted mset_zero_iff_right mset.simps(1))

lemma permuted_attainable: "mset ys = mset xs \<Longrightarrow> permuted (\<lambda>_. ys) xs = ys"
  by (simp add: permuted_def is_perm_iff)

lemma keys_permuted: "wf_map m \<Longrightarrow> distinct (keys (permuted pick m)) \<and> set (keys (permuted pick m)) = set (keys m)"
proof -
  assume "wf_map m"
  moreover have "mset (keys (permuted pick m)) = mset (keys m)" by simp
  ultimately show ?thesis by (metis mset_eq_imp_distinct_iff mset_eq_setD wf_map_def)
qed

lemma lookup_permuted:
  assumes "wf_map m"
  shows "lookup (permuted order m) k = lookup m k"
proof -
  have "wf_map (permuted order m)" using keys_permuted [OF assms] by (simp add: wf_map_def)
  then have "lookup (permuted order m) k = Some v \<longleftrightarrow> lookup m k = Some v" for v
    using assms by (simp add: lookup_iff_set)
  then show ?thesis by (metis not_None_eq)
qed

end
