(* ===== verification/GoStd.thy ===== *)
theory GoStd
  imports Prelude
begin

text \<open>
  The functions of Go's standard library the program's logic rests on: decimal printing and
  parsing of \<open>int64\<close> (\<open>strconv\<close>), prefixes and suffixes (\<open>strings\<close>), and lexical path
  processing on Unix (\<open>path/filepath\<close>). Strings are Go strings: sequences of bytes.
\<close>

section \<open>Decimal numbers: strconv.FormatInt and strconv.ParseInt\<close>

datatype num_error = ErrSyntax | ErrRange

definition is_digit :: "char \<Rightarrow> bool" where
  "is_digit c \<longleftrightarrow> 48 \<le> (of_char c :: nat) \<and> (of_char c :: nat) \<le> 57"

definition digit_val :: "char \<Rightarrow> nat" where
  "digit_val c = of_char c - 48"

definition digit_char :: "nat \<Rightarrow> char" where
  "digit_char d = char_of (48 + d)"

lemma of_char_digit_char: "d < 10 \<Longrightarrow> of_char (digit_char d) = 48 + d"
  by (simp add: digit_char_def)

lemma is_digit_digit_char [simp]: "d < 10 \<Longrightarrow> is_digit (digit_char d)"
  by (simp add: is_digit_def of_char_digit_char)

lemma digit_val_digit_char [simp]: "d < 10 \<Longrightarrow> digit_val (digit_char d) = d"
  by (simp add: digit_val_def of_char_digit_char)

fun nat_string :: "nat \<Rightarrow> string" where
  "nat_string n = (if n < 10 then [digit_char n] else nat_string (n div 10) @ [digit_char (n mod 10)])"

declare nat_string.simps [simp del]

definition FormatInt :: "int64 \<Rightarrow> string" where
  "FormatInt i = (if sint i < 0 then CHR ''-'' # nat_string (nat (- sint i)) else nat_string (nat (sint i)))"

text \<open>
  \<open>ParseInt(s, 10, 64)\<close>: the digits are read left to right by \<open>ParseUint\<close>, which stops at
  the first bad character or as soon as the value leaves \<open>uint64\<close>.
\<close>

fun parse_uint :: "nat \<Rightarrow> string \<Rightarrow> (num_error, nat) outcome" where
  "parse_uint n [] = Ok n"
| "parse_uint n (c # cs) =
     (if \<not> is_digit c then Err ErrSyntax
      else if 2 ^ 64 \<le> n * 10 + digit_val c then Err ErrRange
      else parse_uint (n * 10 + digit_val c) cs)"

definition ParseUint :: "string \<Rightarrow> (num_error, nat) outcome" where
  "ParseUint s = (if s = [] then Err ErrSyntax else parse_uint 0 s)"

definition ParseInt :: "string \<Rightarrow> (num_error, int64) outcome" where
  "ParseInt s =
     (case s of
        [] \<Rightarrow> Err ErrSyntax
      | c # cs \<Rightarrow>
          let neg = (c = CHR ''-'');
              body = (if c = CHR ''+'' \<or> c = CHR ''-'' then cs else s)
          in and_then (ParseUint body)
               (\<lambda>un. if \<not> neg \<and> 2 ^ 63 \<le> un then Err ErrRange
                     else if neg \<and> 2 ^ 63 < un then Err ErrRange
                     else Ok (word_of_int (if neg then - int un else int un))))"

lemma parse_uint_snoc:
  "parse_uint n (xs @ [c]) = and_then (parse_uint n xs) (\<lambda>m. parse_uint m [c])"
  by (induction n xs rule: parse_uint.induct) auto

lemma nat_string_not_Nil [simp]: "nat_string n \<noteq> []"
  by (subst nat_string.simps) simp

lemma nat_string_digits: "c \<in> set (nat_string n) \<Longrightarrow> is_digit c"
proof (induction n rule: nat_string.induct)
  case (1 n)
  from "1.prems" have "c \<in> set (if n < 10 then [digit_char n] else nat_string (n div 10) @ [digit_char (n mod 10)])"
    by (simp add: nat_string.simps [of n])
  then show ?case using "1.IH" by (auto split: if_splits)
qed

lemma parse_uint_nat_string: "n < 2 ^ 64 \<Longrightarrow> parse_uint 0 (nat_string n) = Ok n"
proof (induction n rule: nat_string.induct)
  case (1 n)
  show ?case
  proof (cases "n < 10")
    case True
    then show ?thesis using "1.prems" by (simp add: nat_string.simps [of n])
  next
    case False
    then have "nat_string n = nat_string (n div 10) @ [digit_char (n mod 10)]"
      by (simp add: nat_string.simps [of n])
    moreover have "parse_uint 0 (nat_string (n div 10)) = Ok (n div 10)"
      using False "1.prems" by (intro "1.IH") auto
    ultimately show ?thesis using "1.prems" by (simp add: parse_uint_snoc)
  qed
qed

lemma hd_nat_string: "is_digit (hd (nat_string n))"
  by (rule nat_string_digits [of _ n]) (simp add: hd_in_set)

lemma ParseInt_FormatInt: "ParseInt (FormatInt i) = Ok i"
proof (cases "sint i < 0")
  case True
  then have "nat (- sint i) < 2 ^ 64" and "nat (- sint i) \<le> 2 ^ 63"
    using sint64_range [of i] by simp_all
  then show ?thesis using True
    by (simp add: FormatInt_def ParseInt_def ParseUint_def parse_uint_nat_string)
next
  case False
  then have r: "nat (sint i) < 2 ^ 63" "nat (sint i) < 2 ^ 64"
    using sint64_range [of i] by simp_all
  obtain c cs where s: "nat_string (nat (sint i)) = c # cs"
    by (cases "nat_string (nat (sint i))") auto
  then have "is_digit c" using hd_nat_string [of "nat (sint i)"] by simp
  then have "c \<noteq> CHR ''+'' \<and> c \<noteq> CHR ''-''" by (auto simp: is_digit_def)
  then show ?thesis using False r s parse_uint_nat_string [OF r(2)]
    by (simp add: FormatInt_def ParseInt_def ParseUint_def)
qed

lemma FormatInt_inject: "FormatInt i = FormatInt j \<longleftrightarrow> i = j"
  by (metis ParseInt_FormatInt outcome.inject(1))

lemma parse_uint_bound: "parse_uint n s = Ok m \<Longrightarrow> n < 2 ^ 64 \<Longrightarrow> m < 2 ^ 64"
  by (induction n s rule: parse_uint.induct) (auto split: if_splits)

section \<open>Strings\<close>

definition HasPrefix :: "string \<Rightarrow> string \<Rightarrow> bool" where
  "HasPrefix s p \<longleftrightarrow> take (length p) s = p"

definition HasSuffix :: "string \<Rightarrow> string \<Rightarrow> bool" where
  "HasSuffix s p \<longleftrightarrow> length p \<le> length s \<and> drop (length s - length p) s = p"

lemma HasSuffix_append [simp]: "HasSuffix (s @ p) p"
  by (simp add: HasSuffix_def)

section \<open>Paths: filepath.Clean, filepath.Join and filepath.Dir\<close>

fun split_slash :: "string \<Rightarrow> string list" where
  "split_slash [] = [[]]"
| "split_slash (c # cs) =
     (if c = CHR ''/'' then [] # split_slash cs
      else case split_slash cs of [] \<Rightarrow> [[c]] | w # ws \<Rightarrow> (c # w) # ws)"

fun join_slash :: "string list \<Rightarrow> string" where
  "join_slash [] = []"
| "join_slash [w] = w"
| "join_slash (w # v # ws) = w @ CHR ''/'' # join_slash (v # ws)"

text \<open>
  \<open>Clean\<close> keeps the elements of the path it has seen on a stack (\<open>push\<close>): empty elements
  and \<open>.\<close> vanish, \<open>..\<close> removes the element before it, stays at the start of a relative path
  and vanishes at the root.
\<close>

fun push :: "bool \<Rightarrow> string list \<Rightarrow> string \<Rightarrow> string list" where
  "push rooted st w =
     (if w = [] \<or> w = ''.'' then st
      else if w = ''..'' then
        (case st of
           [] \<Rightarrow> (if rooted then [] else [''..''])
         | t # ts \<Rightarrow> (if t = ''..'' then ''..'' # st else ts))
      else w # st)"

definition Clean :: "string \<Rightarrow> string" where
  "Clean s =
     (if s = [] then ''.''
      else let rooted = (hd s = CHR ''/'');
               body = join_slash (rev (foldl (push rooted) [] (split_slash s)))
           in if rooted then CHR ''/'' # body else if body = [] then ''.'' else body)"

definition Join :: "string list \<Rightarrow> string" where
  "Join elems = (case dropWhile (\<lambda>e. e = []) elems of [] \<Rightarrow> [] | es \<Rightarrow> Clean (join_slash es))"

definition Dir :: "string \<Rightarrow> string" where
  "Dir s = Clean (rev (dropWhile (\<lambda>c. c \<noteq> CHR ''/'') (rev s)))"

text \<open>A plain element of a path: one name, with no slash in it and no special meaning.\<close>

definition plain :: "string \<Rightarrow> bool" where
  "plain w \<longleftrightarrow> CHR ''/'' \<notin> set w \<and> w \<noteq> [] \<and> w \<noteq> ''.'' \<and> w \<noteq> ''..''"

lemma split_slash_not_Nil [simp]: "split_slash s \<noteq> []"
  by (induction s) (auto split: list.splits)

lemma split_slash_word: "CHR ''/'' \<notin> set w \<Longrightarrow> split_slash w = [w]"
  by (induction w) auto

lemma split_slash_append:
  "CHR ''/'' \<notin> set w \<Longrightarrow> split_slash (w @ CHR ''/'' # s) = w # split_slash s"
  by (induction w) auto

lemma split_join_slash:
  "ws \<noteq> [] \<Longrightarrow> \<forall>w \<in> set ws. CHR ''/'' \<notin> set w \<Longrightarrow> split_slash (join_slash ws) = ws"
  by (induction ws rule: join_slash.induct) (auto simp: split_slash_word split_slash_append)

lemma push_plain: "plain w \<Longrightarrow> push r st w = w # st"
  by (auto simp: plain_def)

lemma foldl_push_plain: "\<forall>w \<in> set ws. plain w \<Longrightarrow> foldl (push r) st ws = rev ws @ st"
  by (induction ws arbitrary: st) (simp_all add: push_plain del: push.simps)

lemma join_slash_eq_Nil: "\<forall>w \<in> set ws. plain w \<Longrightarrow> join_slash ws = [] \<longleftrightarrow> ws = []"
  by (induction ws rule: join_slash.induct) (auto simp: plain_def)

lemma hd_join_slash: "ws \<noteq> [] \<Longrightarrow> \<forall>w \<in> set ws. plain w \<Longrightarrow> hd (join_slash ws) \<noteq> CHR ''/''"
proof (induction ws rule: join_slash.induct)
  case (2 w)
  then show ?case by (cases w) (auto simp: plain_def)
next
  case (3 w v ws)
  then show ?case by (cases w) (auto simp: plain_def)
qed simp

lemma Clean_join_plain:
  assumes "ws \<noteq> []" and "\<forall>w \<in> set ws. plain w"
  shows "Clean (join_slash ws) = join_slash ws"
proof -
  have "\<forall>w \<in> set ws. CHR ''/'' \<notin> set w" using assms(2) by (auto simp: plain_def)
  then have "split_slash (join_slash ws) = ws" using assms(1) by (intro split_join_slash)
  then show ?thesis
    using assms hd_join_slash [OF assms]
    by (simp add: Clean_def join_slash_eq_Nil foldl_push_plain del: push.simps)
qed

lemma Join_plain:
  assumes "ws \<noteq> []" and "\<forall>w \<in> set ws. plain w"
  shows "Join ws = join_slash ws"
proof -
  obtain v vs where v: "ws = v # vs" using assms(1) by (cases ws) auto
  then have "dropWhile (\<lambda>e. e = []) ws = ws" using assms(2) by (simp add: plain_def)
  then show ?thesis using v Clean_join_plain [OF assms] by (simp add: Join_def)
qed

end
