(* ===== verification/Times.thy ===== *)
theory Times
  imports GoStd
begin

text \<open>
  \<open>time.Time\<close> and the time bounds of \<open>pkg/model/time_bounds.go\<close> and
  \<open>pkg/dto/time_bounds.go\<close> (two copies of the same code, one per package): construction with
  validation, parsing of the query parameters \<open>from\<close> and \<open>to\<close>, and the membership test that
  every listing of backups filters with.
\<close>

section \<open>Points in time\<close>

text \<open>
  A \<open>time.Time\<close> is a count of nanoseconds since the Unix epoch; the location and the
  monotonic reading, which \<open>Before\<close>, \<open>After\<close> and \<open>Equal\<close> ignore here, are left out.
  The zero value of the type is midnight, 1 January of year 1.
\<close>

datatype time = Time (unixNanos: int)

instantiation time :: linorder
begin

definition less_eq_time :: "time \<Rightarrow> time \<Rightarrow> bool" where
  "less_eq_time a b \<longleftrightarrow> unixNanos a \<le> unixNanos b"

definition less_time :: "time \<Rightarrow> time \<Rightarrow> bool" where
  "less_time a b \<longleftrightarrow> unixNanos a < unixNanos b"

instance
  by standard (auto simp: less_eq_time_def less_time_def time.expand)

end

lemma Time_le [simp]: "Time a \<le> Time b \<longleftrightarrow> a \<le> b"
  by (simp add: less_eq_time_def)

lemma Time_less [simp]: "Time a < Time b \<longleftrightarrow> a < b"
  by (simp add: less_time_def)

definition zeroTime :: time where
  "zeroTime = Time (- 62135596800 * 1000000000)"

abbreviation Before :: "time \<Rightarrow> time \<Rightarrow> bool" where
  "Before a b \<equiv> a < b"

abbreviation After :: "time \<Rightarrow> time \<Rightarrow> bool" where
  "After a b \<equiv> b < a"

text \<open>\<open>time.UnixMilli(ms)\<close> and \<open>t.UnixMilli()\<close>; the latter computes in \<open>int64\<close> and wraps.\<close>

definition timeUnixMilli :: "int64 \<Rightarrow> time" where
  "timeUnixMilli ms = Time (sint ms * 1000000)"

definition UnixMilli :: "time \<Rightarrow> int64" where
  "UnixMilli t = word_of_int (unixNanos t div 1000000)"

lemma UnixMilli_timeUnixMilli [simp]: "UnixMilli (timeUnixMilli ms) = ms"
  by (simp add: UnixMilli_def timeUnixMilli_def)

section \<open>Time bounds\<close>

record TimeBounds =
  FromTime :: "time option"
  ToTime :: "time option"

datatype bounds_error =
    FromAfterTo
  | BadTimestamp num_error
  | NegativeTimestamp int64

definition NewTimeBounds :: "time option \<Rightarrow> time option \<Rightarrow> (bounds_error, TimeBounds) outcome" where
  "NewTimeBounds fromTime toTime =
     (case (fromTime, toTime) of
        (Some f, Some t) \<Rightarrow>
          (if After f t then Err FromAfterTo else Ok \<lparr>FromTime = fromTime, ToTime = toTime\<rparr>)
      | _ \<Rightarrow> Ok \<lparr>FromTime = fromTime, ToTime = toTime\<rparr>)"

text \<open>
  The two one-sided constructors drop the error of \<open>NewTimeBounds\<close>. A nil result, which a
  failed construction would leave, is a panic when it is used; \<open>ignore_error\<close> makes it \<open>None\<close>.
\<close>

fun ignore_error :: "('e, 'a) outcome \<Rightarrow> 'a option" where
  "ignore_error (Ok x) = Some x"
| "ignore_error _ = None"

definition NewTimeBoundsTo :: "time \<Rightarrow> TimeBounds option" where
  "NewTimeBoundsTo toTime = ignore_error (NewTimeBounds None (Some toTime))"

definition NewTimeBoundsFrom :: "time \<Rightarrow> TimeBounds option" where
  "NewTimeBoundsFrom fromTime = ignore_error (NewTimeBounds (Some fromTime) None)"

definition parseTimestamp :: "string \<Rightarrow> (bounds_error, time option) outcome" where
  "parseTimestamp value =
     (if value = [] then Ok None
      else case ParseInt value of
             Err e \<Rightarrow> Err (BadTimestamp e)
           | Panic p \<Rightarrow> Panic p
           | Ok intValue \<Rightarrow>
               (if sint intValue < 0 then Err (NegativeTimestamp intValue)
                else Ok (Some (timeUnixMilli intValue))))"

definition NewTimeBoundsFromString :: "string \<Rightarrow> string \<Rightarrow> (bounds_error, TimeBounds) outcome" where
  "NewTimeBoundsFromString from to =
     and_then (parseTimestamp from) (\<lambda>fromTime.
     and_then (parseTimestamp to) (\<lambda>toTime.
     NewTimeBounds fromTime toTime))"

definition Contains :: "TimeBounds \<Rightarrow> time \<Rightarrow> bool" where
  "Contains tb value =
     (if (case FromTime tb of Some f \<Rightarrow> Before value f | None \<Rightarrow> False) then False
      else if (case ToTime tb of Some t \<Rightarrow> After value t | None \<Rightarrow> False) then False
      else True)"

text \<open>The copy in package \<open>dto\<close>: the same record under its own name, and its conversion.\<close>

record DtoTimeBounds =
  dtbFromTime :: "time option"
  dtbToTime :: "time option"

definition dtoNewTimeBounds :: "time option \<Rightarrow> time option \<Rightarrow> (bounds_error, DtoTimeBounds) outcome" where
  "dtoNewTimeBounds fromTime toTime =
     (case (fromTime, toTime) of
        (Some f, Some t) \<Rightarrow>
          (if After f t then Err FromAfterTo else Ok \<lparr>dtbFromTime = fromTime, dtbToTime = toTime\<rparr>)
      | _ \<Rightarrow> Ok \<lparr>dtbFromTime = fromTime, dtbToTime = toTime\<rparr>)"

definition dtoTimeBoundsToModel :: "DtoTimeBounds \<Rightarrow> TimeBounds" where
  "dtoTimeBoundsToModel t = \<lparr>FromTime = dtbFromTime t, ToTime = dtbToTime t\<rparr>"

definition dtoParseTimestamp :: "string \<Rightarrow> (bounds_error, time option) outcome" where
  "dtoParseTimestamp value =
     (if value = [] then Ok None
      else case ParseInt value of
             Err e \<Rightarrow> Err (BadTimestamp e)
           | Panic p \<Rightarrow> Panic p
           | Ok intValue \<Rightarrow>
               (if sint intValue < 0 then Err (NegativeTimestamp intValue)
                else Ok (Some (timeUnixMilli intValue))))"

definition dtoNewTimeBoundsFromString :: "string \<Rightarrow> string \<Rightarrow> (bounds_error, DtoTimeBounds) outcome" where
  "dtoNewTimeBoundsFromString from to =
     and_then (dtoParseTimestamp from) (\<lambda>fromTime.
     and_then (dtoParseTimestamp to) (\<lambda>toTime.
     dtoNewTimeBounds fromTime toTime))"

section \<open>Lemmas\<close>

definition lower_ok :: "TimeBounds \<Rightarrow> time \<Rightarrow> bool" where
  "lower_ok tb t \<longleftrightarrow> (\<forall>f. FromTime tb = Some f \<longrightarrow> f \<le> t)"

definition upper_ok :: "TimeBounds \<Rightarrow> time \<Rightarrow> bool" where
  "upper_ok tb t \<longleftrightarrow> (\<forall>u. ToTime tb = Some u \<longrightarrow> t \<le> u)"

lemma Contains_iff: "Contains tb t \<longleftrightarrow> lower_ok tb t \<and> upper_ok tb t"
  by (auto simp: Contains_def lower_ok_def upper_ok_def split: option.splits)

lemma NewTimeBounds_Ok_iff:
  "NewTimeBounds f t = Ok tb \<longleftrightarrow>
     tb = \<lparr>FromTime = f, ToTime = t\<rparr> \<and> (\<forall>a b. f = Some a \<longrightarrow> t = Some b \<longrightarrow> a \<le> b)"
  by (auto simp: NewTimeBounds_def not_less split: option.splits)

lemma NewTimeBounds_no_Panic: "NewTimeBounds f t \<noteq> Panic p"
  by (auto simp: NewTimeBounds_def split: option.splits)

lemma NewTimeBoundsTo_Some [simp]: "NewTimeBoundsTo t = Some \<lparr>FromTime = None, ToTime = Some t\<rparr>"
  by (simp add: NewTimeBoundsTo_def NewTimeBounds_def)

lemma NewTimeBoundsFrom_Some [simp]: "NewTimeBoundsFrom t = Some \<lparr>FromTime = Some t, ToTime = None\<rparr>"
  by (simp add: NewTimeBoundsFrom_def NewTimeBounds_def)

lemma ParseInt_no_Panic: "ParseInt s \<noteq> Panic p"
proof -
  have u: "parse_uint n w \<noteq> Panic q" for n w q
    by (induction n w rule: parse_uint.induct) auto
  have "ParseUint w \<noteq> Panic q" for w q by (simp add: ParseUint_def u)
  then show ?thesis
    by (simp add: ParseInt_def Let_def outcome_simps split: list.splits)
qed

lemma parseTimestamp_FormatInt:
  "parseTimestamp (FormatInt ms) =
     (if sint ms < 0 then Err (NegativeTimestamp ms) else Ok (Some (timeUnixMilli ms)))"
proof -
  have "FormatInt ms \<noteq> []" by (simp add: FormatInt_def)
  then show ?thesis by (simp add: parseTimestamp_def ParseInt_FormatInt)
qed

lemma dtoParseTimestamp_eq: "dtoParseTimestamp = parseTimestamp"
  by (simp add: fun_eq_iff dtoParseTimestamp_def parseTimestamp_def)

lemma dtoNewTimeBounds_toModel:
  "dtoNewTimeBounds f t = Ok tb \<Longrightarrow> NewTimeBounds f t = Ok (dtoTimeBoundsToModel tb)"
  by (auto simp: dtoNewTimeBounds_def NewTimeBounds_def dtoTimeBoundsToModel_def
      split: option.splits if_splits)

lemma and_then_map_cong:
  "r = Ok x \<Longrightarrow> and_then r f = f x"
  by simp

section \<open>Properties\<close>

text \<open>
  C33: bounds built from two millisecond timestamps, printed in decimal as the HTTP API receives
  them, are accepted exactly when the first is not after the second, and then admit exactly the
  backups created between the two instants, both ends included. (The comments on \<open>Contains\<close>
  and on \<open>BackupListReader\<close> call the upper end exclusive; the code includes it.)
\<close>
theorem bounds_of_query:
  assumes "0 \<le> sint a" and "0 \<le> sint b"
  shows "case NewTimeBoundsFromString (FormatInt a) (FormatInt b) of
           Err e \<Rightarrow> e = FromAfterTo \<and> sint b < sint a
         | Panic p \<Rightarrow> False
         | Ok tb \<Rightarrow> sint a \<le> sint b \<and>
             (\<forall>t. Contains tb t \<longleftrightarrow> timeUnixMilli a \<le> t \<and> t \<le> timeUnixMilli b)"
  using assms
  by (auto simp: NewTimeBoundsFromString_def parseTimestamp_FormatInt NewTimeBounds_def
      timeUnixMilli_def Contains_iff lower_ok_def upper_ok_def)

theorem bounds_of_query_witness:
  "case NewTimeBoundsFromString (FormatInt 10) (FormatInt 25) of
     Ok tb \<Rightarrow> Contains tb (timeUnixMilli 25) \<and> \<not> Contains tb (timeUnixMilli 30) | _ \<Rightarrow> False"
  using bounds_of_query [of 10 25]
  by (auto simp: timeUnixMilli_def split: outcome.splits)

end
