(* ===== verification/Model.thy ===== *)
theory Model
  imports Complex_Main Times
begin

text \<open>
  The data model of package \<open>pkg/model\<close>: one record per struct with the fields of the source,
  in the source's order, and the accessors that fall back to default values. Pointers to scalars
  are options; pointers to the objects a configuration shares are \<^typ>\<open>ptr\<close>.
  \<^typ>\<open>rat\<close> stands for the finite \<open>float64\<close> values a document can hold.
\<close>

section \<open>Clusters\<close>

record SeedNode =
  snHostName :: string
  snPort :: int32
  snTLSName :: string

record Credentials =
  crUser :: "string option"
  crPassword :: "string option"
  crPasswordPath :: "string option"
  crAuthMode :: "string option"

record TLS =
  tlsCAFile :: "string option"
  tlsCAPath :: "string option"
  tlsName :: "string option"
  tlsProtocols :: "string option"
  tlsCipherSuite :: "string option"
  tlsKeyfile :: "string option"
  tlsKeyfilePassword :: "string option"
  tlsCertfile :: "string option"

record AerospikeCluster =
  acPwd :: "string option"
  acClusterLabel :: "string option"
  acSeedNodes :: "SeedNode list"
  acConnTimeout :: "int32 option"
  acUseServicesAlternate :: "bool option"
  acCredentials :: "Credentials option"
  acTLS :: "TLS option"
  acMaxParallelScans :: "goint option"

definition GetUser :: "AerospikeCluster \<Rightarrow> string option" where
  "GetUser c = (case acCredentials c of Some cr \<Rightarrow> crUser cr | None \<Rightarrow> None)"

definition GetAuthMode :: "AerospikeCluster \<Rightarrow> string option" where
  "GetAuthMode c = (case acCredentials c of Some cr \<Rightarrow> crAuthMode cr | None \<Rightarrow> None)"

text \<open>
  \<open>GetPassword\<close> caches the password in the cluster object. \<open>readFile\<close> stands for
  \<open>os.ReadFile\<close>: the content of the file, or \<open>None\<close> when reading fails.
\<close>

definition GetPassword ::
  "(string \<Rightarrow> bytes option) \<Rightarrow> AerospikeCluster \<Rightarrow> AerospikeCluster \<times> string option" where
  "GetPassword readFile c =
     (case acPwd c of
        Some password \<Rightarrow> (c, Some password)
      | None \<Rightarrow>
          (case acCredentials c of
             None \<Rightarrow> (c, None)
           | Some cr \<Rightarrow>
               (case crPassword cr of
                  Some password \<Rightarrow> (c\<lparr>acPwd := Some password\<rparr>, Some password)
                | None \<Rightarrow>
                    (case crPasswordPath cr of
                       None \<Rightarrow> (c, None)
                     | Some path \<Rightarrow>
                         (case readFile path of
                            None \<Rightarrow> (c, None)
                          | Some data \<Rightarrow> (c\<lparr>acPwd := Some data\<rparr>, Some data))))))"

record Host =
  hostName :: string
  hostPort :: goint
  hostTLSName :: string

definition ASClientHosts :: "AerospikeCluster \<Rightarrow> Host list" where
  "ASClientHosts c =
     map (\<lambda>node. \<lparr>hostName = snHostName node, hostPort = int64_of_int32 (snPort node),
                  hostTLSName = snTLSName node\<rparr>) (acSeedNodes c)"

section \<open>Policies\<close>

type_synonym RemoveFilesType = string

definition KeepAll :: RemoveFilesType where "KeepAll = ''KeepAll''"
definition RemoveAll :: RemoveFilesType where "RemoveAll = ''RemoveAll''"
definition RemoveIncremental :: RemoveFilesType where "RemoveIncremental = ''RemoveIncremental''"

lemmas remove_files_defs = KeepAll_def RemoveAll_def RemoveIncremental_def

record EncryptionPolicy =
  epMode :: string
  epKeyFile :: "string option"
  epKeyEnv :: "string option"
  epKeySecret :: "string option"

record CompressionPolicy =
  cpMode :: string
  cpLevel :: int32

record BackupPolicy =
  bpParallel :: "goint option"
  bpSocketTimeout :: "int32 option"
  bpTotalTimeout :: "int32 option"
  bpMaxRetries :: "int32 option"
  bpRetryDelay :: "int32 option"
  bpRemoveFiles :: "RemoveFilesType option"
  bpNoRecords :: "bool option"
  bpNoIndexes :: "bool option"
  bpNoUdfs :: "bool option"
  bpBandwidth :: "int64 option"
  bpRecordsPerSecond :: "int32 option"
  bpFileLimit :: "int64 option"
  bpEncryptionPolicy :: "EncryptionPolicy option"
  bpCompressionPolicy :: "CompressionPolicy option"
  bpSealed :: "bool option"

text \<open>\<open>defaultConfig.backupPolicy\<close>.\<close>

record backupPolicyDefaults =
  maxRetries :: int32
  retryDelay :: int32
  sealed :: bool

definition defaultBackupPolicy :: backupPolicyDefaults where
  "defaultBackupPolicy = \<lparr>maxRetries = 3, retryDelay = 60000, sealed = False\<rparr>"

definition GetMaxRetriesOrDefault :: "BackupPolicy \<Rightarrow> int32" where
  "GetMaxRetriesOrDefault p = (case bpMaxRetries p of Some n \<Rightarrow> n | None \<Rightarrow> maxRetries defaultBackupPolicy)"

definition GetRetryDelayOrDefault :: "BackupPolicy \<Rightarrow> int32" where
  "GetRetryDelayOrDefault p = (case bpRetryDelay p of Some n \<Rightarrow> n | None \<Rightarrow> retryDelay defaultBackupPolicy)"

definition IsSealed :: "BackupPolicy \<Rightarrow> bool" where
  "IsSealed p = (case bpSealed p of Some b \<Rightarrow> b | None \<Rightarrow> sealed defaultBackupPolicy)"

text \<open>Fields the composite literal of the source does not mention keep their zero value, nil.\<close>

definition CopySMDDisabled :: "BackupPolicy \<Rightarrow> BackupPolicy" where
  "CopySMDDisabled p =
     \<lparr>bpParallel = bpParallel p,
      bpSocketTimeout = bpSocketTimeout p,
      bpTotalTimeout = bpTotalTimeout p,
      bpMaxRetries = bpMaxRetries p,
      bpRetryDelay = bpRetryDelay p,
      bpRemoveFiles = bpRemoveFiles p,
      bpNoRecords = bpNoRecords p,
      bpNoIndexes = Some True,
      bpNoUdfs = Some True,
      bpBandwidth = bpBandwidth p,
      bpRecordsPerSecond = bpRecordsPerSecond p,
      bpFileLimit = bpFileLimit p,
      bpEncryptionPolicy = None,
      bpCompressionPolicy = None,
      bpSealed = bpSealed p\<rparr>"

definition RemoveFullBackup :: "RemoveFilesType option \<Rightarrow> bool" where
  "RemoveFullBackup r = (case r of None \<Rightarrow> False | Some v \<Rightarrow> v = RemoveAll)"

definition RemoveIncrementalBackup :: "RemoveFilesType option \<Rightarrow> bool" where
  "RemoveIncrementalBackup r = (case r of None \<Rightarrow> False | Some v \<Rightarrow> v = RemoveIncremental \<or> v = RemoveAll)"

record SecretAgent =
  saConnectionType :: "string option"
  saAddress :: "string option"
  saPort :: "goint option"
  saTimeout :: "goint option"
  saTLSCAString :: "string option"
  saIsBase64 :: "bool option"

section \<open>Storage\<close>

text \<open>
  The interface \<open>Storage\<close> with its four implementations, and \<open>AzureAuth\<close> with its two; a nil
  \<open>AzureAuth\<close> is \<open>None\<close>.
\<close>

record LocalStorage =
  lsPath :: string

record S3Storage =
  s3Path :: string
  s3Bucket :: string
  s3Region :: string
  s3Profile :: string
  s3EndpointOverride :: "string option"
  s3LogLevel :: "string option"
  s3MinPartSize :: goint
  s3MaxConnsPerHost :: goint

record GcpStorage =
  gcpKeyFile :: string
  gcpBucketName :: string
  gcpPath :: string
  gcpEndpoint :: string

datatype AzureAuth =
    AzureSharedKeyAuth (AccountName: string) (AccountKey: string)
  | AzureADAuth (TenantID: string) (ClientID: string) (ClientSecret: string)

record AzureStorage =
  azPath :: string
  azEndpoint :: string
  azContainerName :: string
  azAuth :: "AzureAuth option"

datatype Storage =
    Local LocalStorage
  | S3 S3Storage
  | Gcp GcpStorage
  | Azure AzureStorage

section \<open>Routines, backups and their state\<close>

record BackupRoutine =
  brBackupPolicy :: ptr
  brSourceCluster :: ptr
  brStorage :: ptr
  brSecretAgent :: ptr
  brIntervalCron :: string
  brIncrIntervalCron :: string
  brNamespaces :: "string list"
  brSetList :: "string list"
  brBinList :: "string list"
  brPreferRacks :: "goint list"
  brPartitionList :: "string option"

record BackupMetadata =
  Created :: time
  From :: time
  Namespace :: string
  RecordCount :: uint64
  ByteCount :: uint64
  FileCount :: uint64
  SecondaryIndexCount :: uint64
  UDFCount :: uint64

text \<open>\<open>BackupDetails\<close> embeds \<open>BackupMetadata\<close>, so it is a record that extends it.\<close>

record BackupDetails = BackupMetadata +
  Key :: string
  bdStorage :: ptr

record BackupState =
  LastFullRun :: time
  LastIncrRun :: time
  Performed :: goint

definition NewBackupState :: BackupState where
  "NewBackupState = \<lparr>LastFullRun = zeroTime, LastIncrRun = zeroTime, Performed = 0\<rparr>"

definition LastFullRunIsEmpty :: "BackupState \<Rightarrow> bool" where
  "LastFullRunIsEmpty state \<longleftrightarrow> LastFullRun state = zeroTime"

definition SetLastFullRun :: "time \<Rightarrow> BackupState \<Rightarrow> BackupState" where
  "SetLastFullRun t state = state\<lparr>LastFullRun := t, Performed := Performed state + 1\<rparr>"

definition SetLastIncrRun :: "time \<Rightarrow> BackupState \<Rightarrow> BackupState" where
  "SetLastIncrRun t state = state\<lparr>LastIncrRun := t\<rparr>"

definition LastRun :: "BackupState \<Rightarrow> time" where
  "LastRun state =
     (if After (LastIncrRun state) (LastFullRun state) then LastIncrRun state else LastFullRun state)"

record RunningJob =
  rjTotalRecords :: uint64
  rjDoneRecords :: uint64
  rjStartTime :: time
  rjPercentageDone :: gouint
  rjEstimatedEndTime :: "time option"

record CurrentBackups =
  cbFull :: "RunningJob option"
  cbIncremental :: "RunningJob option"

section \<open>Restores\<close>

text \<open>The retry policy of the backup library, with the fields the service fills in.\<close>

record LibRetryPolicy =
  lrBaseTimeout :: int64
  lrMultiplier :: rat
  lrMaxRetries :: gouint

definition defaultRetry :: LibRetryPolicy where
  "defaultRetry = \<lparr>lrBaseTimeout = 2 * 1000000000, lrMultiplier = 2, lrMaxRetries = 5\<rparr>"

record RestoreNamespace =
  rnSource :: "string option"
  rnDestination :: "string option"

record RestorePolicy =
  rpParallel :: "int32 option"
  rpNoRecords :: "bool option"
  rpNoIndexes :: "bool option"
  rpNoUdfs :: "bool option"
  rpTimeout :: "int32 option"
  rpDisableBatchWrites :: "bool option"
  rpMaxAsyncBatches :: "int32 option"
  rpBatchSize :: "int32 option"
  rpNamespace :: "RestoreNamespace option"
  rpSetList :: "string list"
  rpBinList :: "string list"
  rpReplace :: "bool option"
  rpUnique :: "bool option"
  rpNoGeneration :: "bool option"
  rpBandwidth :: "int64 option"
  rpTps :: "int32 option"
  rpEncryptionPolicy :: "EncryptionPolicy option"
  rpCompressionPolicy :: "CompressionPolicy option"
  rpRetryPolicy :: "LibRetryPolicy option"
  rpExtraTTL :: "int64 option"

definition GetRetryPolicyOrDefault :: "RestorePolicy \<Rightarrow> LibRetryPolicy" where
  "GetRetryPolicyOrDefault p = (case rpRetryPolicy p of Some r \<Rightarrow> r | None \<Rightarrow> defaultRetry)"

record RestoreRequest =
  rrDestinationCuster :: ptr
  rrPolicy :: "RestorePolicy option"
  rrSourceStorage :: ptr
  rrSecretAgent :: ptr
  rrBackupDataPath :: string

record RestoreTimestampRequest =
  rtDestinationCuster :: ptr
  rtPolicy :: "RestorePolicy option"
  rtSecretAgent :: ptr
  rtTime :: time
  rtRoutine :: string

definition NewRestoreRequest :: "ptr \<Rightarrow> RestorePolicy option \<Rightarrow> ptr \<Rightarrow> ptr \<Rightarrow> RestoreRequest" where
  "NewRestoreRequest destinationCluster policy sourceStorage secretAgent =
     \<lparr>rrDestinationCuster = destinationCluster, rrPolicy = policy, rrSourceStorage = sourceStorage,
      rrSecretAgent = secretAgent, rrBackupDataPath = []\<rparr>"

datatype JobStatus = JobStatusRunning | JobStatusDone | JobStatusFailed

record RestoreStats =
  ReadRecords :: uint64
  TotalBytes :: uint64
  ExpiredRecords :: uint64
  SkippedRecords :: uint64
  IgnoredRecords :: uint64
  InsertedRecords :: uint64
  ExistedRecords :: uint64
  FresherRecords :: uint64
  IndexCount :: uint64
  rsUDFCount :: uint64

record RestoreJobStatus = RestoreStats +
  CurrentRestore :: "RunningJob option"
  jsStatus :: JobStatus
  jsError :: string

section \<open>Service configuration\<close>

record FileLoggerConfig =
  flFilename :: string
  flMaxSize :: goint
  flMaxAge :: goint
  flMaxBackups :: goint
  flCompress :: bool

record LoggerConfig =
  lcLevel :: "string option"
  lcFormat :: "string option"
  lcStdoutWriter :: "bool option"
  lcFileWriter :: "FileLoggerConfig option"

text \<open>A nil slice and an empty slice differ for \<open>GetWhiteListOrDefault\<close>, so this slice is an option.\<close>

record RateLimiterConfig =
  rlTps :: "goint option"
  rlSize :: "goint option"
  rlWhiteList :: "string list option"

record HTTPServerConfig =
  hsAddress :: "string option"
  hsPort :: "goint option"
  hsRate :: "RateLimiterConfig option"
  hsContextPath :: "string option"
  hsTimeout :: "goint option"

record BackupServiceConfig =
  scHTTPServer :: "HTTPServerConfig option"
  scLogger :: "LoggerConfig option"

definition defaultRate :: RateLimiterConfig where
  "defaultRate = \<lparr>rlTps = Some 1024, rlSize = Some 1024, rlWhiteList = Some []\<rparr>"

definition defaultHttp :: HTTPServerConfig where
  "defaultHttp =
     \<lparr>hsAddress = Some ''0.0.0.0'', hsPort = Some 8080, hsRate = Some defaultRate,
      hsContextPath = Some ''/'', hsTimeout = Some 5000\<rparr>"

definition defaultLogger :: LoggerConfig where
  "defaultLogger =
     \<lparr>lcLevel = Some ''DEBUG'', lcFormat = Some ''PLAIN'', lcStdoutWriter = Some True, lcFileWriter = None\<rparr>"

text \<open>\<open>or_default f d x\<close> is the getter pattern: the field when it is set, else the default's.\<close>

definition or_default :: "('r \<Rightarrow> 'a option) \<Rightarrow> 'r \<Rightarrow> 'r \<Rightarrow> 'a" where
  "or_default f d x = (case f x of Some v \<Rightarrow> v | None \<Rightarrow> the (f d))"

definition GetAddressOrDefault :: "HTTPServerConfig \<Rightarrow> string" where
  "GetAddressOrDefault = or_default hsAddress defaultHttp"

definition GetPortOrDefault :: "HTTPServerConfig \<Rightarrow> goint" where
  "GetPortOrDefault = or_default hsPort defaultHttp"

definition GetTimeout :: "HTTPServerConfig \<Rightarrow> goint" where
  "GetTimeout = or_default hsTimeout defaultHttp"

definition GetRateOrDefault :: "HTTPServerConfig \<Rightarrow> RateLimiterConfig" where
  "GetRateOrDefault = or_default hsRate defaultHttp"

definition GetContextPathOrDefault :: "HTTPServerConfig \<Rightarrow> string" where
  "GetContextPathOrDefault = or_default hsContextPath defaultHttp"

definition GetTpsOrDefault :: "RateLimiterConfig \<Rightarrow> goint" where
  "GetTpsOrDefault = or_default rlTps defaultRate"

definition GetSizeOrDefault :: "RateLimiterConfig \<Rightarrow> goint" where
  "GetSizeOrDefault = or_default rlSize defaultRate"

definition GetWhiteListOrDefault :: "RateLimiterConfig \<Rightarrow> string list" where
  "GetWhiteListOrDefault = or_default rlWhiteList defaultRate"

definition GetLevelOrDefault :: "LoggerConfig \<Rightarrow> string" where
  "GetLevelOrDefault = or_default lcLevel defaultLogger"

definition GetFormatOrDefault :: "LoggerConfig \<Rightarrow> string" where
  "GetFormatOrDefault = or_default lcFormat defaultLogger"

definition GetStdoutWriterOrDefault :: "LoggerConfig \<Rightarrow> bool" where
  "GetStdoutWriterOrDefault = or_default lcStdoutWriter defaultLogger"

end
