(* ===== verification/Config.thy ===== *)
theory Config
  imports Model
begin

text \<open>
  \<open>pkg/model/config.go\<close>: the service configuration and its add, update and delete operations.
  Routines refer to policies, clusters and storage by pointer, and an update rewires the routines
  that hold the old pointer in place; so the objects live in a typed store and the configuration
  holds addresses. What the operations promise is in theory ConfigTables.
\<close>

section \<open>The store and the configuration\<close>

record store =
  stClusters :: "nat \<Rightarrow> AerospikeCluster option"
  stStorages :: "nat \<Rightarrow> Storage option"
  stPolicies :: "nat \<Rightarrow> BackupPolicy option"
  stRoutines :: "nat \<Rightarrow> BackupRoutine option"
  stAgents :: "nat \<Rightarrow> SecretAgent option"
  stNext :: nat

record Config =
  cfServiceConfig :: BackupServiceConfig
  cfAerospikeClusters :: "(string, ptr) gomap"
  cfStorage :: "(string, ptr) gomap"
  cfBackupPolicies :: "(string, ptr) gomap"
  cfBackupRoutines :: "(string, ptr) gomap"
  cfSecretAgents :: "(string, ptr) gomap"

type_synonym conf = "store \<times> Config"

definition emptyStore :: store where
  "emptyStore =
     \<lparr>stClusters = (\<lambda>_. None), stStorages = (\<lambda>_. None), stPolicies = (\<lambda>_. None),
      stRoutines = (\<lambda>_. None), stAgents = (\<lambda>_. None), stNext = 0\<rparr>"

definition NewConfig :: Config where
  "NewConfig =
     \<lparr>cfServiceConfig = \<lparr>scHTTPServer = None, scLogger = None\<rparr>,
      cfAerospikeClusters = [], cfStorage = [], cfBackupPolicies = [], cfBackupRoutines = [],
      cfSecretAgents = []\<rparr>"

datatype config_cause = ErrAlreadyExists | ErrNotFound | ErrInUse string

text \<open>\<open>ConfigError op name cause\<close> is \<open>fmt.Errorf("op %q: %w", name, cause)\<close>.\<close>

datatype config_error = ConfigError (ceOp: string) (ceName: string) (ceCause: config_cause)

type_synonym conf_result = "(config_error, conf) outcome"

definition deref_routine :: "store \<Rightarrow> ptr \<Rightarrow> BackupRoutine option" where
  "deref_routine st p = (case p of None \<Rightarrow> None | Some a \<Rightarrow> stRoutines st a)"

definition routine_at :: "conf \<Rightarrow> string \<Rightarrow> BackupRoutine option" where
  "routine_at s name =
     (case lookup (cfBackupRoutines (snd s)) name of None \<Rightarrow> None | Some p \<Rightarrow> deref_routine (fst s) p)"

text \<open>
  The loops over \<open>c.BackupRoutines\<close>: \<open>eachRoutine f\<close> applies \<open>f\<close> in place to every routine
  object, \<open>firstRoutine P\<close> returns the name of the first one that satisfies \<open>P\<close> and the empty
  string if there is none. Both dereference each pointer.
\<close>

fun eachRoutine ::
  "(BackupRoutine \<Rightarrow> BackupRoutine) \<Rightarrow> (string, ptr) gomap \<Rightarrow> store \<Rightarrow> (config_error, store) outcome" where
  "eachRoutine f [] st = Ok st"
| "eachRoutine f ((name, p) # rs) st =
     (case p of
        None \<Rightarrow> Panic NilDereference
      | Some a \<Rightarrow>
          (case stRoutines st a of
             None \<Rightarrow> Panic NilDereference
           | Some r \<Rightarrow> eachRoutine f rs (st\<lparr>stRoutines := (stRoutines st)(a \<mapsto> f r)\<rparr>)))"

fun firstRoutine ::
  "(BackupRoutine \<Rightarrow> bool) \<Rightarrow> (string, ptr) gomap \<Rightarrow> store \<Rightarrow> (config_error, string) outcome" where
  "firstRoutine P [] st = Ok []"
| "firstRoutine P ((name, p) # rs) st =
     (case deref_routine st p of
        None \<Rightarrow> Panic NilDereference
      | Some r \<Rightarrow> (if P r then Ok name else firstRoutine P rs st))"

section \<open>Storage\<close>

definition AddStorage :: "string \<Rightarrow> ptr \<Rightarrow> conf \<Rightarrow> conf_result" where
  "AddStorage name s c =
     (if lookup (cfStorage (snd c)) name \<noteq> None
      then Err (ConfigError ''add storage'' name ErrAlreadyExists)
      else Ok (fst c, (snd c)\<lparr>cfStorage := insert_key name s (cfStorage (snd c))\<rparr>))"

definition routineUsesStorage :: "ptr \<Rightarrow> conf \<Rightarrow> (config_error, string) outcome" where
  "routineUsesStorage s c = firstRoutine (\<lambda>r. brStorage r = s) (cfBackupRoutines (snd c)) (fst c)"

definition DeleteStorage :: "string \<Rightarrow> conf \<Rightarrow> conf_result" where
  "DeleteStorage name c =
     (case lookup (cfStorage (snd c)) name of
        None \<Rightarrow> Err (ConfigError ''delete storage'' name ErrNotFound)
      | Some s \<Rightarrow>
          and_then (routineUsesStorage s c)
            (\<lambda>routine. if routine \<noteq> [] then Err (ConfigError ''delete storage'' name (ErrInUse routine))
                       else Ok (fst c, (snd c)\<lparr>cfStorage := delete_key name (cfStorage (snd c))\<rparr>)))"

definition UpdateStorage :: "string \<Rightarrow> ptr \<Rightarrow> conf \<Rightarrow> conf_result" where
  "UpdateStorage name s c =
     (case lookup (cfStorage (snd c)) name of
        None \<Rightarrow> Err (ConfigError ''update storage'' name ErrNotFound)
      | Some oldStorage \<Rightarrow>
          and_then (eachRoutine (\<lambda>r. if brStorage r = oldStorage then r\<lparr>brStorage := s\<rparr> else r)
                      (cfBackupRoutines (snd c)) (fst c))
            (\<lambda>st. Ok (st, (snd c)\<lparr>cfStorage := insert_key name s (cfStorage (snd c))\<rparr>)))"

section \<open>Backup policies\<close>

definition AddPolicy :: "string \<Rightarrow> ptr \<Rightarrow> conf \<Rightarrow> conf_result" where
  "AddPolicy name p c =
     (if lookup (cfBackupPolicies (snd c)) name \<noteq> None
      then Err (ConfigError ''add backup policy'' name ErrAlreadyExists)
      else Ok (fst c, (snd c)\<lparr>cfBackupPolicies := insert_key name p (cfBackupPolicies (snd c))\<rparr>))"

definition routineUsesPolicy :: "ptr \<Rightarrow> conf \<Rightarrow> (config_error, string) outcome" where
  "routineUsesPolicy p c = firstRoutine (\<lambda>r. brBackupPolicy r = p) (cfBackupRoutines (snd c)) (fst c)"

definition DeletePolicy :: "string \<Rightarrow> conf \<Rightarrow> conf_result" where
  "DeletePolicy name c =
     (case lookup (cfBackupPolicies (snd c)) name of
        None \<Rightarrow> Err (ConfigError ''delete backup policy'' name ErrNotFound)
      | Some p \<Rightarrow>
          and_then (routineUsesPolicy p c)
            (\<lambda>routine. if routine \<noteq> [] then Err (ConfigError ''delete backup policy'' name (ErrInUse routine))
                       else Ok (fst c, (snd c)\<lparr>cfBackupPolicies := delete_key name (cfBackupPolicies (snd c))\<rparr>)))"

definition UpdatePolicy :: "string \<Rightarrow> ptr \<Rightarrow> conf \<Rightarrow> conf_result" where
  "UpdatePolicy name p c =
     (case lookup (cfBackupPolicies (snd c)) name of
        None \<Rightarrow> Err (ConfigError ''update backup policy'' name ErrNotFound)
      | Some oldPolicy \<Rightarrow>
          and_then (eachRoutine (\<lambda>r. if brBackupPolicy r = oldPolicy then r\<lparr>brBackupPolicy := p\<rparr> else r)
                      (cfBackupRoutines (snd c)) (fst c))
            (\<lambda>st. Ok (st, (snd c)\<lparr>cfBackupPolicies := insert_key name p (cfBackupPolicies (snd c))\<rparr>)))"

section \<open>Routines\<close>

definition AddRoutine :: "string \<Rightarrow> ptr \<Rightarrow> conf \<Rightarrow> conf_result" where
  "AddRoutine name r c =
     (if lookup (cfBackupRoutines (snd c)) name \<noteq> None
      then Err (ConfigError ''add backup routine'' name ErrAlreadyExists)
      else Ok (fst c, (snd c)\<lparr>cfBackupRoutines := insert_key name r (cfBackupRoutines (snd c))\<rparr>))"

definition DeleteRoutine :: "string \<Rightarrow> conf \<Rightarrow> conf_result" where
  "DeleteRoutine name c =
     (if lookup (cfBackupRoutines (snd c)) name = None
      then Err (ConfigError ''delete backup routine'' name ErrNotFound)
      else Ok (fst c, (snd c)\<lparr>cfBackupRoutines := delete_key name (cfBackupRoutines (snd c))\<rparr>))"

definition UpdateRoutine :: "string \<Rightarrow> ptr \<Rightarrow> conf \<Rightarrow> conf_result" where
  "UpdateRoutine name r c =
     (if lookup (cfBackupRoutines (snd c)) name = None
      then Err (ConfigError ''update backup routine'' name ErrNotFound)
      else Ok (fst c, (snd c)\<lparr>cfBackupRoutines := insert_key name r (cfBackupRoutines (snd c))\<rparr>))"

section \<open>Clusters and secret agents\<close>

definition AddCluster :: "string \<Rightarrow> ptr \<Rightarrow> conf \<Rightarrow> conf_result" where
  "AddCluster name cluster c =
     (if lookup (cfAerospikeClusters (snd c)) name \<noteq> None
      then Err (ConfigError ''add Aerospike cluster'' name ErrAlreadyExists)
      else Ok (fst c, (snd c)\<lparr>cfAerospikeClusters := insert_key name cluster (cfAerospikeClusters (snd c))\<rparr>))"

definition routineUsesCluster :: "ptr \<Rightarrow> conf \<Rightarrow> (config_error, string) outcome" where
  "routineUsesCluster cluster c =
     firstRoutine (\<lambda>r. brSourceCluster r = cluster) (cfBackupRoutines (snd c)) (fst c)"

definition DeleteCluster :: "string \<Rightarrow> conf \<Rightarrow> conf_result" where
  "DeleteCluster name c =
     (case lookup (cfAerospikeClusters (snd c)) name of
        None \<Rightarrow> Err (ConfigError ''delete Aerospike cluster'' name ErrNotFound)
      | Some cluster \<Rightarrow>
          and_then (routineUsesCluster cluster c)
            (\<lambda>routine. if routine \<noteq> [] then Err (ConfigError ''delete Aerospike cluster'' name (ErrInUse routine))
                       else Ok (fst c, (snd c)\<lparr>cfAerospikeClusters := delete_key name (cfAerospikeClusters (snd c))\<rparr>)))"

definition UpdateCluster :: "string \<Rightarrow> ptr \<Rightarrow> conf \<Rightarrow> conf_result" where
  "UpdateCluster name cluster c =
     (case lookup (cfAerospikeClusters (snd c)) name of
        None \<Rightarrow> Err (ConfigError ''update Aerospike cluster'' name ErrNotFound)
      | Some oldCluster \<Rightarrow>
          and_then (eachRoutine (\<lambda>r. if brSourceCluster r = oldCluster then r\<lparr>brSourceCluster := cluster\<rparr> else r)
                      (cfBackupRoutines (snd c)) (fst c))
            (\<lambda>st. Ok (st, (snd c)\<lparr>cfAerospikeClusters := insert_key name cluster (cfAerospikeClusters (snd c))\<rparr>)))"

definition AddSecretAgent :: "string \<Rightarrow> ptr \<Rightarrow> conf \<Rightarrow> conf_result" where
  "AddSecretAgent name agent c =
     (if lookup (cfSecretAgents (snd c)) name \<noteq> None
      then Err (ConfigError ''add Secret agent'' name ErrAlreadyExists)
      else Ok (fst c, (snd c)\<lparr>cfSecretAgents := insert_key name agent (cfSecretAgents (snd c))\<rparr>))"

section \<open>The loops over the routines\<close>

text \<open>
  A configuration is well formed when its tables are maps, no routine has the empty name (the
  configuration file and the HTTP handlers reject it) and every routine pointer is valid.
\<close>

definition routines_ok :: "store \<Rightarrow> (string, ptr) gomap \<Rightarrow> bool" where
  "routines_ok st rs \<longleftrightarrow> (\<forall>(n, p) \<in> set rs. n \<noteq> [] \<and> deref_routine st p \<noteq> None)"

definition wf_conf :: "conf \<Rightarrow> bool" where
  "wf_conf c \<longleftrightarrow>
     wf_map (cfAerospikeClusters (snd c)) \<and> wf_map (cfStorage (snd c)) \<and>
     wf_map (cfBackupPolicies (snd c)) \<and> wf_map (cfBackupRoutines (snd c)) \<and>
     wf_map (cfSecretAgents (snd c)) \<and> routines_ok (fst c) (cfBackupRoutines (snd c))"

text \<open>\<open>uses f c n\<close>: what routine \<open>n\<close> refers to in field \<open>f\<close>; \<open>holds f c v\<close>: some routine refers to \<open>v\<close>.\<close>

definition uses :: "(BackupRoutine \<Rightarrow> ptr) \<Rightarrow> conf \<Rightarrow> string \<Rightarrow> ptr option" where
  "uses f c n = map_option f (routine_at c n)"

definition holds :: "(BackupRoutine \<Rightarrow> ptr) \<Rightarrow> conf \<Rightarrow> ptr \<Rightarrow> bool" where
  "holds f c v \<longleftrightarrow> (\<exists>n. uses f c n = Some v)"

lemma routines_ok_simps [simp]:
  "routines_ok st []"
  "routines_ok st ((n, p) # rs) \<longleftrightarrow> n \<noteq> [] \<and> deref_routine st p \<noteq> None \<and> routines_ok st rs"
  by (auto simp: routines_ok_def)

lemma firstRoutine_Ok:
  assumes "routines_ok st rs"
  shows "\<exists>nm. firstRoutine P rs st = Ok nm \<and>
           (nm \<noteq> [] \<longleftrightarrow> (\<exists>n p r. (n, p) \<in> set rs \<and> deref_routine st p = Some r \<and> P r))"
  using assms
proof (induction rs)
  case Nil
  then show ?case by simp
next
  case (Cons np rs)
  obtain n p where np: "np = (n, p)" by (cases np)
  with Cons.prems obtain r where r: "n \<noteq> []" "deref_routine st p = Some r" "routines_ok st rs" by auto
  show ?case
  proof (cases "P r")
    case True
    with np r show ?thesis by auto
  next
    case False
    obtain nm where nm: "firstRoutine P rs st = Ok nm"
      "nm \<noteq> [] \<longleftrightarrow> (\<exists>n p r. (n, p) \<in> set rs \<and> deref_routine st p = Some r \<and> P r)"
      using Cons.IH [OF r(3)] by blast
    have "firstRoutine P (np # rs) st = Ok nm" using np r(2) False nm(1) by simp
    moreover have "nm \<noteq> [] \<longleftrightarrow> (\<exists>n p r. (n, p) \<in> set (np # rs) \<and> deref_routine st p = Some r \<and> P r)"
      unfolding nm(2) using np r(2) False by auto
    ultimately show ?thesis by blast
  qed
qed

lemma wf_conf_routine:
  assumes "wf_conf c"
  shows "routine_at c n = Some r \<longleftrightarrow>
           (\<exists>p. (n, p) \<in> set (cfBackupRoutines (snd c)) \<and> deref_routine (fst c) p = Some r)"
proof -
  have "wf_map (cfBackupRoutines (snd c))" using assms by (simp add: wf_conf_def)
  then show ?thesis
    by (auto simp: routine_at_def lookup_iff_set [symmetric] split: option.splits)
qed

lemma firstRoutine_holds:
  assumes "wf_conf c"
  obtains nm where "firstRoutine (\<lambda>r. f r = v) (cfBackupRoutines (snd c)) (fst c) = Ok nm"
    and "nm \<noteq> [] \<longleftrightarrow> holds f c v"
proof -
  have "routines_ok (fst c) (cfBackupRoutines (snd c))" using assms by (simp add: wf_conf_def)
  from firstRoutine_Ok [OF this, of "\<lambda>r. f r = v"] show ?thesis
    using that by (auto simp: holds_def uses_def wf_conf_routine [OF assms])
qed

definition addresses :: "(string, ptr) gomap \<Rightarrow> nat set" where
  "addresses rs = {a. \<exists>n. (n, Some a) \<in> set rs}"

lemma addresses_simps [simp]:
  "addresses [] = {}"
  "addresses ((n, p) # rs) = (case p of None \<Rightarrow> {} | Some a \<Rightarrow> {a}) \<union> addresses rs"
  by (auto simp: addresses_def split: option.splits)

lemma routines_ok_upd:
  "routines_ok st rs \<Longrightarrow> routines_ok (st\<lparr>stRoutines := (stRoutines st)(a \<mapsto> r)\<rparr>) rs"
  by (auto simp: routines_ok_def deref_routine_def split: option.splits)

lemma eachRoutine_Ok:
  assumes "\<And>r. f (f r) = f r" and "routines_ok st rs"
  shows "eachRoutine f rs st =
    Ok (st\<lparr>stRoutines := (\<lambda>a. if a \<in> addresses rs then map_option f (stRoutines st a) else stRoutines st a)\<rparr>)"
  using assms(2)
proof (induction rs arbitrary: st)
  case Nil
  then show ?case by simp
next
  case (Cons np rs)
  then obtain n a r where a: "np = (n, Some a)" "stRoutines st a = Some r" "routines_ok st rs"
    by (cases np) (auto simp: deref_routine_def split: option.splits)
  let ?st = "st\<lparr>stRoutines := (stRoutines st)(a \<mapsto> f r)\<rparr>"
  have "eachRoutine f (np # rs) st = eachRoutine f rs ?st" using a by simp
  also have "\<dots> = Ok (?st\<lparr>stRoutines := (\<lambda>b. if b \<in> addresses rs then map_option f (stRoutines ?st b)
                                             else stRoutines ?st b)\<rparr>)"
    by (rule Cons.IH [OF routines_ok_upd [OF a(3)]])
  also have "\<dots> = Ok (st\<lparr>stRoutines := (\<lambda>b. if b \<in> addresses (np # rs) then map_option f (stRoutines st b)
                                             else stRoutines st b)\<rparr>)"
    using a assms(1) by (auto simp: fun_eq_iff)
  finally show ?case .
qed

end
