(* ===== verification/DtoPolicy.thy ===== *)
theory DtoPolicy
  imports Config
begin

text \<open>
  The documents of package \<open>pkg/dto\<close>, first part: what every document shares (decoding, the errors
  of validation) and the policies of backups and restores. \<open>Validate\<close> of a document returns the
  document, because some of these methods fill in defaults in place.
\<close>

section \<open>Errors and decoding\<close>

text \<open>
  \<open>Message s\<close> is \<open>errors.New(s)\<close> or a formatted \<open>fmt.Errorf\<close>, \<open>FromConfig e\<close> an error of
  \<open>pkg/model/config.go\<close> returned unchanged.
\<close>

datatype dto_error = Message string | FromConfig config_error

type_synonym 'a checked = "(dto_error, 'a) outcome"

fun error_text :: "(config_error \<Rightarrow> string) \<Rightarrow> dto_error \<Rightarrow> string" where
  "error_text show_config (Message s) = s"
| "error_text show_config (FromConfig e) = show_config e"

definition emptyFieldValidationError :: "string \<Rightarrow> dto_error" where
  "emptyFieldValidationError field = Message (''empty '' @ field @ '' is not allowed'')"

definition notFoundValidationError :: "string \<Rightarrow> string \<Rightarrow> dto_error" where
  "notFoundValidationError field value = Message (field @ '' '' @ [CHR 0x27] @ value @ [CHR 0x27] @ '' not found'')"

text \<open>
  \<open>Deserialize\<close> hands the input to the JSON or the YAML library. Their results on the input are
  the parameters: a decoded document or the library's message.
\<close>

datatype SerializationFormat = JSON | YAML

record 'v decoders =
  decodeJSON :: "(string, 'v) outcome"
  decodeYAML :: "(string, 'v) outcome"

definition Deserialize :: "'v decoders \<Rightarrow> SerializationFormat \<Rightarrow> 'v checked" where
  "Deserialize r format =
     map_err (\<lambda>e. Message (''failed to unmarshal: '' @ e))
       (case format of JSON \<Rightarrow> decodeJSON r | YAML \<Rightarrow> decodeYAML r)"

text \<open>The test \<open>p != nil \<and> *p <= 0\<close> of the validations, and \<open>%d\<close> of the pointer's value.\<close>

definition nonpositive :: "'w::len word option \<Rightarrow> bool" where
  "nonpositive p = (case p of None \<Rightarrow> False | Some v \<Rightarrow> sint v \<le> 0)"

definition negative :: "'w::len word option \<Rightarrow> bool" where
  "negative p = (case p of None \<Rightarrow> False | Some v \<Rightarrow> sint v < 0)"

definition decimal :: "'w::len word \<Rightarrow> string" where
  "decimal v = FormatInt (word_of_int (sint v))"

definition not_positive :: "string \<Rightarrow> 'w::len word option \<Rightarrow> dto_error" where
  "not_positive field p = Message (field @ '' '' @ decimal (the p) @ '' invalid, should be positive number'')"

definition positive :: "'w::len word option \<Rightarrow> bool" where
  "positive p \<longleftrightarrow> (\<forall>v. p = Some v \<longrightarrow> 0 < sint v)"

lemma nonpositive_iff [simp]: "nonpositive p \<longleftrightarrow> \<not> positive p"
  by (auto simp: nonpositive_def positive_def split: option.splits)

section \<open>Encryption and compression\<close>

record DtoEncryptionPolicy =
  depMode :: string
  depKeyFile :: "string option"
  depKeyEnv :: "string option"
  depKeySecret :: "string option"

record DtoCompressionPolicy =
  dcpMode :: string
  dcpLevel :: int32

definition EncryptNone :: string where "EncryptNone = ''NONE''"
definition EncryptAES128 :: string where "EncryptAES128 = ''AES128''"
definition EncryptAES256 :: string where "EncryptAES256 = ''AES256''"
definition CompressNone :: string where "CompressNone = ''NONE''"
definition CompressZSTD :: string where "CompressZSTD = ''ZSTD''"

lemmas mode_defs = EncryptNone_def EncryptAES128_def EncryptAES256_def CompressNone_def CompressZSTD_def

definition validateEncryption :: "DtoEncryptionPolicy option \<Rightarrow> unit checked" where
  "validateEncryption p =
     (case p of
        None \<Rightarrow> Ok ()
      | Some e \<Rightarrow>
          if depMode e \<noteq> EncryptNone \<and> depMode e \<noteq> EncryptAES128 \<and> depMode e \<noteq> EncryptAES256
          then Err (Message (''invalid encryption mode: '' @ depMode e))
          else if depKeyFile e = None \<and> depKeyEnv e = None \<and> depKeySecret e = None
          then Err (Message ''encryption key location not specified'')
          else Ok ())"

definition encryptionToModel :: "DtoEncryptionPolicy option \<Rightarrow> EncryptionPolicy option" where
  "encryptionToModel p =
     (case p of
        None \<Rightarrow> None
      | Some e \<Rightarrow> Some \<lparr>epMode = depMode e, epKeyFile = depKeyFile e, epKeyEnv = depKeyEnv e,
                        epKeySecret = depKeySecret e\<rparr>)"

definition encryptionFromModel :: "EncryptionPolicy \<Rightarrow> DtoEncryptionPolicy \<Rightarrow> DtoEncryptionPolicy" where
  "encryptionFromModel m p =
     p\<lparr>depMode := epMode m, depKeyFile := epKeyFile m, depKeyEnv := epKeyEnv m, depKeySecret := epKeySecret m\<rparr>"

definition newEncryption :: DtoEncryptionPolicy where
  "newEncryption = \<lparr>depMode = [], depKeyFile = None, depKeyEnv = None, depKeySecret = None\<rparr>"

definition validateCompression :: "DtoCompressionPolicy option \<Rightarrow> DtoCompressionPolicy option checked" where
  "validateCompression p =
     (case p of
        None \<Rightarrow> Ok None
      | Some c \<Rightarrow>
          if dcpMode c \<noteq> CompressNone \<and> dcpMode c \<noteq> CompressZSTD
          then Err (Message (''invalid compression mode: '' @ dcpMode c))
          else let c = (if dcpLevel c = 0 then c\<lparr>dcpLevel := - 1\<rparr> else c) in
            if sint (dcpLevel c) < - 1
            then Err (Message (''invalid compression level: '' @ decimal (dcpLevel c)))
            else Ok (Some c))"

definition compressionToModel :: "DtoCompressionPolicy option \<Rightarrow> CompressionPolicy option" where
  "compressionToModel p =
     (case p of None \<Rightarrow> None | Some c \<Rightarrow> Some \<lparr>cpMode = dcpMode c, cpLevel = dcpLevel c\<rparr>)"

definition compressionFromModel :: "CompressionPolicy option \<Rightarrow> DtoCompressionPolicy \<Rightarrow> DtoCompressionPolicy checked" where
  "compressionFromModel m p =
     (case m of
        None \<Rightarrow> Panic NilDereference
      | Some c \<Rightarrow> Ok (p\<lparr>dcpMode := cpMode c, dcpLevel := cpLevel c\<rparr>))"

definition newCompression :: DtoCompressionPolicy where
  "newCompression = \<lparr>dcpMode = [], dcpLevel = 0\<rparr>"

section \<open>Backup policies\<close>

record DtoBackupPolicy =
  dbpParallel :: "goint option"
  dbpSocketTimeout :: "int32 option"
  dbpTotalTimeout :: "int32 option"
  dbpMaxRetries :: "int32 option"
  dbpRetryDelay :: "int32 option"
  dbpRemoveFiles :: "RemoveFilesType option"
  dbpNoRecords :: "bool option"
  dbpNoIndexes :: "bool option"
  dbpNoUdfs :: "bool option"
  dbpBandwidth :: "int64 option"
  dbpRecordsPerSecond :: "int32 option"
  dbpFileLimit :: "int64 option"
  dbpEncryptionPolicy :: "DtoEncryptionPolicy option"
  dbpCompressionPolicy :: "DtoCompressionPolicy option"
  dbpSealed :: "bool option"

definition validateBackupPolicy :: "DtoBackupPolicy option \<Rightarrow> DtoBackupPolicy checked" where
  "validateBackupPolicy q =
     (case q of
        None \<Rightarrow> Err (Message ''backup policy is not specified'')
      | Some p \<Rightarrow>
          if nonpositive (dbpParallel p) then Err (not_positive ''parallel'' (dbpParallel p))
          else if nonpositive (dbpSocketTimeout p) then Err (not_positive ''socketTimeout'' (dbpSocketTimeout p))
          else if nonpositive (dbpTotalTimeout p) then Err (not_positive ''totalTimeout'' (dbpTotalTimeout p))
          else if negative (dbpMaxRetries p) then Err (not_positive ''maxRetries'' (dbpMaxRetries p))
          else if negative (dbpRetryDelay p) then Err (not_positive ''retryDelay'' (dbpRetryDelay p))
          else if nonpositive (dbpBandwidth p) then Err (not_positive ''bandwidth'' (dbpBandwidth p))
          else if nonpositive (dbpRecordsPerSecond p)
          then Err (not_positive ''recordsPerSecond'' (dbpRecordsPerSecond p))
          else if nonpositive (dbpFileLimit p) then Err (not_positive ''fileLimit'' (dbpFileLimit p))
          else if dbpRemoveFiles p \<noteq> None \<and> the (dbpRemoveFiles p) \<noteq> KeepAll \<and>
                  the (dbpRemoveFiles p) \<noteq> RemoveAll \<and> the (dbpRemoveFiles p) \<noteq> RemoveIncremental
          then Err (Message (''invalid RemoveFiles: '' @ the (dbpRemoveFiles p) @
                             ''. Possible values: KeepAll, RemoveAll, RemoveIncremental''))
          else and_then (validateEncryption (dbpEncryptionPolicy p)) (\<lambda>_.
               and_then (validateCompression (dbpCompressionPolicy p)) (\<lambda>c.
               Ok (p\<lparr>dbpCompressionPolicy := c\<rparr>))))"

definition NewBackupPolicyFromReader ::
  "DtoBackupPolicy decoders \<Rightarrow> SerializationFormat \<Rightarrow> DtoBackupPolicy checked" where
  "NewBackupPolicyFromReader r format =
     and_then (Deserialize r format) (\<lambda>b. validateBackupPolicy (Some b))"

definition backupPolicyToModel :: "DtoBackupPolicy \<Rightarrow> BackupPolicy" where
  "backupPolicyToModel p =
     \<lparr>bpParallel = dbpParallel p,
      bpSocketTimeout = dbpSocketTimeout p,
      bpTotalTimeout = dbpTotalTimeout p,
      bpMaxRetries = dbpMaxRetries p,
      bpRetryDelay = dbpRetryDelay p,
      bpRemoveFiles = dbpRemoveFiles p,
      bpNoRecords = dbpNoRecords p,
      bpNoIndexes = dbpNoIndexes p,
      bpNoUdfs = dbpNoUdfs p,
      bpBandwidth = dbpBandwidth p,
      bpRecordsPerSecond = dbpRecordsPerSecond p,
      bpFileLimit = dbpFileLimit p,
      bpEncryptionPolicy = encryptionToModel (dbpEncryptionPolicy p),
      bpCompressionPolicy = compressionToModel (dbpCompressionPolicy p),
      bpSealed = dbpSealed p\<rparr>"

definition newBackupPolicy :: DtoBackupPolicy where
  "newBackupPolicy =
     \<lparr>dbpParallel = None, dbpSocketTimeout = None, dbpTotalTimeout = None, dbpMaxRetries = None,
      dbpRetryDelay = None, dbpRemoveFiles = None, dbpNoRecords = None, dbpNoIndexes = None,
      dbpNoUdfs = None, dbpBandwidth = None, dbpRecordsPerSecond = None, dbpFileLimit = None,
      dbpEncryptionPolicy = None, dbpCompressionPolicy = None, dbpSealed = None\<rparr>"

text \<open>
  The last step of \<open>fromModel\<close> tests the receiver's compression policy, not the model's: the
  receiver is a fresh document when it is called from \<open>NewBackupPolicyFromModel\<close>.
\<close>

definition backupPolicyFromModel :: "BackupPolicy \<Rightarrow> DtoBackupPolicy \<Rightarrow> DtoBackupPolicy checked" where
  "backupPolicyFromModel m p =
     (let p1 = p\<lparr>dbpParallel := bpParallel m,
                 dbpSocketTimeout := bpSocketTimeout m,
                 dbpTotalTimeout := bpTotalTimeout m,
                 dbpMaxRetries := bpMaxRetries m,
                 dbpRetryDelay := bpRetryDelay m,
                 dbpRemoveFiles := bpRemoveFiles m,
                 dbpNoRecords := bpNoRecords m,
                 dbpNoIndexes := bpNoIndexes m,
                 dbpNoUdfs := bpNoUdfs m,
                 dbpBandwidth := bpBandwidth m,
                 dbpRecordsPerSecond := bpRecordsPerSecond m,
                 dbpFileLimit := bpFileLimit m\<rparr>;
          p2 = (case bpEncryptionPolicy m of
                  None \<Rightarrow> p1
                | Some e \<Rightarrow> p1\<lparr>dbpEncryptionPolicy := Some (encryptionFromModel e newEncryption)\<rparr>)
      in and_then
           (if dbpCompressionPolicy p2 \<noteq> None
            then and_then (compressionFromModel (bpCompressionPolicy m) newCompression)
                   (\<lambda>c. Ok (p2\<lparr>dbpCompressionPolicy := Some c\<rparr>))
            else Ok p2)
           (\<lambda>p3. Ok (p3\<lparr>dbpSealed := bpSealed m\<rparr>)))"

definition NewBackupPolicyFromModel :: "BackupPolicy option \<Rightarrow> DtoBackupPolicy option checked" where
  "NewBackupPolicyFromModel m =
     (case m of
        None \<Rightarrow> Ok None
      | Some m \<Rightarrow> and_then (backupPolicyFromModel m newBackupPolicy) (\<lambda>b. Ok (Some b)))"

section \<open>Restore policies\<close>

text \<open>\<open>Multiplier\<close> is a decoded JSON number: a finite float, kept as the rational it denotes.\<close>

record DtoRetryPolicy =
  dryBaseTimeout :: int64
  dryMultiplier :: rat
  dryMaxRetries :: goint

definition validateRetry :: "DtoRetryPolicy option \<Rightarrow> unit checked" where
  "validateRetry p =
     (case p of
        None \<Rightarrow> Ok ()
      | Some r \<Rightarrow>
          if sint (dryBaseTimeout r) \<le> 0 then Err (Message ''BaseTimeout must be greater than 0'')
          else if dryMultiplier r < 1 then Err (Message ''multiplier must be greater or equal than 1'')
          else if sint (dryMaxRetries r) < 0 then Err (Message ''MaxRetries must be 0 or greater'')
          else Ok ())"

text \<open>\<open>time.Millisecond\<close> is 10 to the 6 nanoseconds; the product of the two durations wraps.\<close>

definition GetBaseTimeout :: "DtoRetryPolicy \<Rightarrow> int64" where
  "GetBaseTimeout r = dryBaseTimeout r * 1000000"

definition retryToModel :: "DtoRetryPolicy option \<Rightarrow> LibRetryPolicy option" where
  "retryToModel p =
     (case p of
        None \<Rightarrow> None
      | Some r \<Rightarrow> Some \<lparr>lrBaseTimeout = GetBaseTimeout r, lrMultiplier = dryMultiplier r,
                        lrMaxRetries = dryMaxRetries r\<rparr>)"

record DtoRestoreNamespace =
  drnSource :: "string option"
  drnDestination :: "string option"

definition validateRestoreNamespace :: "DtoRestoreNamespace \<Rightarrow> unit checked" where
  "validateRestoreNamespace n =
     (if drnSource n = None then Err (Message ''source namespace is not specified'')
      else if drnDestination n = None then Err (Message ''destination namespace is not specified'')
      else Ok ())"

definition restoreNamespaceToModel :: "DtoRestoreNamespace option \<Rightarrow> RestoreNamespace option" where
  "restoreNamespaceToModel p =
     (case p of
        None \<Rightarrow> None
      | Some n \<Rightarrow> Some \<lparr>rnSource = drnSource n, rnDestination = drnDestination n\<rparr>)"

record DtoRestorePolicy =
  drpParallel :: "int32 option"
  drpNoRecords :: "bool option"
  drpNoIndexes :: "bool option"
  drpNoUdfs :: "bool option"
  drpTimeout :: "int32 option"
  drpDisableBatchWrites :: "bool option"
  drpMaxAsyncBatches :: "int32 option"
  drpBatchSize :: "int32 option"
  drpNamespace :: "DtoRestoreNamespace option"
  drpSetList :: "string list"
  drpBinList :: "string list"
  drpReplace :: "bool option"
  drpUnique :: "bool option"
  drpNoGeneration :: "bool option"
  drpBandwidth :: "int64 option"
  drpTps :: "int32 option"
  drpEncryptionPolicy :: "DtoEncryptionPolicy option"
  drpCompressionPolicy :: "DtoCompressionPolicy option"
  drpRetryPolicy :: "DtoRetryPolicy option"
  drpExtraTTL :: "int64 option"

definition validateRestorePolicy :: "DtoRestorePolicy option \<Rightarrow> DtoRestorePolicy checked" where
  "validateRestorePolicy q =
     (case q of
        None \<Rightarrow> Err (Message ''restore policy is not specified'')
      | Some p \<Rightarrow>
          if nonpositive (drpParallel p) then Err (not_positive ''parallel'' (drpParallel p))
          else if nonpositive (drpTimeout p) then Err (not_positive ''timeout'' (drpTimeout p))
          else if nonpositive (drpMaxAsyncBatches p)
          then Err (not_positive ''maxAsyncBatches'' (drpMaxAsyncBatches p))
          else if nonpositive (drpBatchSize p) then Err (not_positive ''batchSize'' (drpBatchSize p))
          else if nonpositive (drpBandwidth p) then Err (not_positive ''bandwidth'' (drpBandwidth p))
          else if nonpositive (drpTps p) then Err (not_positive ''tps'' (drpTps p))
          else if drpReplace p = Some True \<and> drpUnique p = Some True
          then Err (Message ''replace and unique options are contradictory'')
          else and_then (case drpNamespace p of None \<Rightarrow> Ok () | Some n \<Rightarrow> validateRestoreNamespace n) (\<lambda>_.
               and_then (validateEncryption (drpEncryptionPolicy p)) (\<lambda>_.
               and_then (validateCompression (drpCompressionPolicy p)) (\<lambda>c.
               and_then (case validateRetry (drpRetryPolicy p) of
                           Ok u \<Rightarrow> Ok ()
                         | Err e \<Rightarrow> Err (Message (''retry policy invalid: '' @ error_text (\<lambda>_. []) e))
                         | Panic x \<Rightarrow> Panic x) (\<lambda>_.
               if nonpositive (drpExtraTTL p) then Err (not_positive ''extraTTL'' (drpExtraTTL p))
               else Ok (p\<lparr>drpCompressionPolicy := c\<rparr>))))))"

definition restorePolicyToModel :: "DtoRestorePolicy option \<Rightarrow> RestorePolicy option" where
  "restorePolicyToModel q =
     (case q of
        None \<Rightarrow> None
      | Some p \<Rightarrow> Some
          \<lparr>rpParallel = drpParallel p,
           rpNoRecords = drpNoRecords p,
           rpNoIndexes = drpNoIndexes p,
           rpNoUdfs = drpNoUdfs p,
           rpTimeout = drpTimeout p,
           rpDisableBatchWrites = drpDisableBatchWrites p,
           rpMaxAsyncBatches = drpMaxAsyncBatches p,
           rpBatchSize = drpBatchSize p,
           rpNamespace = restoreNamespaceToModel (drpNamespace p),
           rpSetList = drpSetList p,
           rpBinList = drpBinList p,
           rpReplace = drpReplace p,
           rpUnique = drpUnique p,
           rpNoGeneration = drpNoGeneration p,
           rpBandwidth = drpBandwidth p,
           rpTps = drpTps p,
           rpEncryptionPolicy = encryptionToModel (drpEncryptionPolicy p),
           rpCompressionPolicy = compressionToModel (drpCompressionPolicy p),
           rpRetryPolicy = retryToModel (drpRetryPolicy p),
           rpExtraTTL = drpExtraTTL p\<rparr>)"

section \<open>What validation establishes\<close>

lemma negative_iff: "\<not> negative p \<longleftrightarrow> (\<forall>v. p = Some v \<longrightarrow> 0 \<le> sint v)"
  by (auto simp: negative_def not_less split: option.splits)

definition encryption_ok :: "DtoEncryptionPolicy option \<Rightarrow> bool" where
  "encryption_ok p \<longleftrightarrow>
     (\<forall>e. p = Some e \<longrightarrow> depMode e \<in> {EncryptNone, EncryptAES128, EncryptAES256} \<and>
            (depKeyFile e \<noteq> None \<or> depKeyEnv e \<noteq> None \<or> depKeySecret e \<noteq> None))"

definition compression_ok :: "DtoCompressionPolicy option \<Rightarrow> bool" where
  "compression_ok p \<longleftrightarrow>
     (\<forall>c. p = Some c \<longrightarrow> dcpMode c \<in> {CompressNone, CompressZSTD} \<and>
            (dcpLevel c = - 1 \<or> 0 < sint (dcpLevel c)))"

lemma validateEncryption_Ok [outcome_simps]: "validateEncryption p = Ok u \<longleftrightarrow> encryption_ok p"
  by (auto simp: validateEncryption_def encryption_ok_def split: option.splits)

lemma validateEncryption_no_Panic [simp]: "validateEncryption p \<noteq> Panic x"
  by (auto simp: validateEncryption_def split: option.splits)

lemma sint_minus1_32: "sint (x :: int32) = - 1 \<longleftrightarrow> x = - 1"
  by (metis signed_word_eqI sint_n1)

lemma level_cases: "\<not> sint (x :: int32) < - 1 \<Longrightarrow> x \<noteq> 0 \<Longrightarrow> \<not> 0 < sint x \<Longrightarrow> x = - 1"
proof -
  assume a: "\<not> sint x < - 1" "x \<noteq> 0" "\<not> 0 < sint x"
  have "sint x \<noteq> 0" using a(2) by (metis signed_0 signed_word_eqI)
  then have "sint x = - 1" using a by linarith
  then show ?thesis by (simp add: sint_minus1_32)
qed

lemma validateCompression_Ok_iff:
  "validateCompression p = Ok q \<longleftrightarrow>
     (case p of
        None \<Rightarrow> q = None
      | Some c \<Rightarrow> dcpMode c \<in> {CompressNone, CompressZSTD} \<and> \<not> sint (dcpLevel c) < - 1 \<and>
                  q = Some (if dcpLevel c = 0 then c\<lparr>dcpLevel := - 1\<rparr> else c))"
  by (auto simp: validateCompression_def Let_def split: option.splits if_splits)

lemma validateCompression_Ok:
  assumes "validateCompression p = Ok q"
  shows "compression_ok q" and "validateCompression q = Ok q"
proof -
  show "compression_ok q" using assms level_cases [of "dcpLevel (the p)"]
    by (cases p) (auto simp: validateCompression_Ok_iff compression_ok_def)
  show "validateCompression q = Ok q" using assms
    by (cases p) (auto simp: validateCompression_Ok_iff)
qed

text \<open>The checks of a backup policy before its encryption and compression are looked at.\<close>

definition limits_ok :: "DtoBackupPolicy \<Rightarrow> bool" where
  "limits_ok q \<longleftrightarrow>
     positive (dbpParallel q) \<and> positive (dbpSocketTimeout q) \<and> positive (dbpTotalTimeout q) \<and>
     positive (dbpBandwidth q) \<and> positive (dbpRecordsPerSecond q) \<and> positive (dbpFileLimit q) \<and>
     \<not> negative (dbpMaxRetries q) \<and> \<not> negative (dbpRetryDelay q) \<and>
     dbpRemoveFiles q \<in> {None, Some KeepAll, Some RemoveAll, Some RemoveIncremental}"

lemma validateBackupPolicy_Ok_iff:
  "validateBackupPolicy (Some p) = Ok q \<longleftrightarrow>
     limits_ok p \<and> encryption_ok (dbpEncryptionPolicy p) \<and>
     (\<exists>c. validateCompression (dbpCompressionPolicy p) = Ok c \<and> q = p\<lparr>dbpCompressionPolicy := c\<rparr>)"
  by (cases "dbpRemoveFiles p")
    (simp_all add: validateBackupPolicy_def limits_ok_def outcome_simps conj_ac, blast+)

text \<open>
  A backup policy that passes validation has only positive limits, a known file removal mode,
  a usable encryption policy and a compression level that is positive or \<open>-1\<close>; the only thing
  validation changes is a compression level 0, which becomes \<open>-1\<close>, and a validated policy is
  accepted again unchanged.
\<close>

theorem validated_backup_policy:
  "validateBackupPolicy (Some p) = Ok q \<Longrightarrow>
     limits_ok q \<and> encryption_ok (dbpEncryptionPolicy q) \<and> compression_ok (dbpCompressionPolicy q) \<and>
     q = p\<lparr>dbpCompressionPolicy := dbpCompressionPolicy q\<rparr> \<and>
     validateBackupPolicy (Some q) = Ok q"
  using validateCompression_Ok [of "dbpCompressionPolicy p"]
  by (auto simp: validateBackupPolicy_Ok_iff limits_ok_def)

definition demo_policy :: DtoBackupPolicy where
  "demo_policy =
     newBackupPolicy\<lparr>dbpParallel := Some 8, dbpMaxRetries := Some 0, dbpRemoveFiles := Some KeepAll,
       dbpCompressionPolicy := Some \<lparr>dcpMode = ''ZSTD'', dcpLevel = 0\<rparr>\<rparr>"

theorem validated_backup_policy_witness:
  "case validateBackupPolicy (Some demo_policy) of
     Ok q \<Rightarrow> compression_ok (dbpCompressionPolicy q) \<and> validateBackupPolicy (Some q) = Ok q
   | _ \<Rightarrow> False"
proof -
  let ?q = "demo_policy\<lparr>dbpCompressionPolicy := Some \<lparr>dcpMode = ''ZSTD'', dcpLevel = - 1\<rparr>\<rparr>"
  have "validateBackupPolicy (Some demo_policy) = Ok ?q"
    by (simp add: validateBackupPolicy_def demo_policy_def newBackupPolicy_def positive_def negative_def
        remove_files_defs validateEncryption_def validateCompression_def mode_defs Let_def)
  then show ?thesis using validated_backup_policy [of demo_policy ?q] by simp
qed

section \<open>Conversions there and back\<close>

lemma encryption_roundtrip:
  "map_option (\<lambda>e. encryptionFromModel e newEncryption) (encryptionToModel p) = p"
  by (auto simp: encryptionToModel_def encryptionFromModel_def newEncryption_def split: option.splits)

text \<open>
  Converting a backup policy to the model and back returns every field except the compression
  policy, which is always lost: \<open>fromModel\<close> tests the receiver's field where it means the model's.
\<close>

lemma backup_policy_loses_compression:
  "NewBackupPolicyFromModel (Some (backupPolicyToModel p)) = Ok (Some (p\<lparr>dbpCompressionPolicy := None\<rparr>))"
  using encryption_roundtrip [of "dbpEncryptionPolicy p"]
  by (cases p) (auto simp: NewBackupPolicyFromModel_def backupPolicyFromModel_def backupPolicyToModel_def
      newBackupPolicy_def Let_def split: option.splits)

section \<open>The delay of the first retry\<close>

text \<open>
  The base timeout of a valid retry policy reaches the backup library as that many
  milliseconds, and stays positive, exactly when it is at most 9223372036854 (about 292 years);
  a larger one wraps around.
\<close>

theorem retry_timeout_exact:
  assumes "validateRetry (Some r) = Ok ()"
  shows "sint (GetBaseTimeout r) = sint (dryBaseTimeout r) * 1000000 \<longleftrightarrow>
           sint (dryBaseTimeout r) \<le> 9223372036854"
proof -
  let ?b = "sint (dryBaseTimeout r)"
  have pos: "0 < ?b" using assms by (auto simp: validateRetry_def split: if_splits)
  have eq: "GetBaseTimeout r = word_of_int (?b * 1000000)"
    by (simp add: GetBaseTimeout_def wi_hom_mult [symmetric])
  show ?thesis
  proof (cases "?b \<le> 9223372036854")
    case True
    then show ?thesis using pos unfolding eq by (subst sint_word_of_int_64) auto
  next
    case False
    then show ?thesis using sint64_range [of "GetBaseTimeout r"] by auto
  qed
qed

theorem retry_timeout_exact_witness:
  "sint (GetBaseTimeout \<lparr>dryBaseTimeout = 2000, dryMultiplier = 2, dryMaxRetries = 5\<rparr>) = 2000000000"
  using retry_timeout_exact [of "\<lparr>dryBaseTimeout = 2000, dryMultiplier = 2, dryMaxRetries = 5\<rparr>"]
  by (simp add: validateRetry_def)

end
