(* ===== verification/DtoEntities.thy ===== *)
theory DtoEntities
  imports DtoPolicy
begin

text \<open>
  The documents of clusters, secret agents and storage (\<open>pkg/dto/aerospike_cluster.go\<close>,
  \<open>secret_agent.go\<close>, \<open>storage.go\<close>): validation and the conversions to and from the model.
\<close>

section \<open>Clusters\<close>

record DtoSeedNode =
  dsnHostName :: string
  dsnPort :: int32
  dsnTLSName :: string

record DtoCredentials =
  dcrUser :: "string option"
  dcrPassword :: "string option"
  dcrPasswordPath :: "string option"
  dcrAuthMode :: "string option"

record DtoTLS =
  dtlsCAFile :: "string option"
  dtlsCAPath :: "string option"
  dtlsName :: "string option"
  dtlsProtocols :: "string option"
  dtlsCipherSuite :: "string option"
  dtlsKeyfile :: "string option"
  dtlsKeyfilePassword :: "string option"
  dtlsCertfile :: "string option"

record DtoAerospikeCluster =
  dacClusterLabel :: "string option"
  dacSeedNodes :: "DtoSeedNode list"
  dacConnTimeout :: "int32 option"
  dacUseServicesAlternate :: "bool option"
  dacCredentials :: "DtoCredentials option"
  dacTLS :: "DtoTLS option"
  dacMaxParallelScans :: "goint option"

definition validateSeedNode :: "DtoSeedNode \<Rightarrow> unit checked" where
  "validateSeedNode node =
     (if dsnHostName node = [] then Err (Message ''empty hostname is not allowed'')
      else if sint (dsnPort node) < 1 \<or> 65535 < sint (dsnPort node)
      then Err (Message ''invalid port number'')
      else Ok ())"

fun validateSeedNodes :: "DtoSeedNode list \<Rightarrow> unit checked" where
  "validateSeedNodes [] = Ok ()"
| "validateSeedNodes (node # nodes) = and_then (validateSeedNode node) (\<lambda>_. validateSeedNodes nodes)"

definition validateCluster :: "DtoAerospikeCluster option \<Rightarrow> unit checked" where
  "validateCluster c =
     (case c of
        None \<Rightarrow> Err (Message ''cluster is not specified'')
      | Some a \<Rightarrow>
          if dacSeedNodes a = [] then Err (Message ''seed nodes are not specified'')
          else validateSeedNodes (dacSeedNodes a))"

definition NewClusterFromReader ::
  "DtoAerospikeCluster decoders \<Rightarrow> SerializationFormat \<Rightarrow> DtoAerospikeCluster checked" where
  "NewClusterFromReader r format =
     and_then (Deserialize r format) (\<lambda>a.
     and_then (validateCluster (Some a)) (\<lambda>_. Ok a))"

definition seedNodeToModel :: "DtoSeedNode \<Rightarrow> SeedNode" where
  "seedNodeToModel node =
     \<lparr>snHostName = dsnHostName node, snPort = dsnPort node, snTLSName = dsnTLSName node\<rparr>"

definition credentialsToModel :: "DtoCredentials option \<Rightarrow> Credentials option" where
  "credentialsToModel p =
     (case p of
        None \<Rightarrow> None
      | Some c \<Rightarrow> Some \<lparr>crUser = dcrUser c, crPassword = dcrPassword c, crPasswordPath = dcrPasswordPath c,
                        crAuthMode = dcrAuthMode c\<rparr>)"

definition tlsToModel :: "DtoTLS option \<Rightarrow> TLS option" where
  "tlsToModel p =
     (case p of
        None \<Rightarrow> None
      | Some t \<Rightarrow> Some \<lparr>tlsCAFile = dtlsCAFile t, tlsCAPath = dtlsCAPath t, tlsName = dtlsName t,
                        tlsProtocols = dtlsProtocols t, tlsCipherSuite = dtlsCipherSuite t,
                        tlsKeyfile = dtlsKeyfile t, tlsKeyfilePassword = dtlsKeyfilePassword t,
                        tlsCertfile = dtlsCertfile t\<rparr>)"

text \<open>The unexported \<open>pwd\<close> of the model is not in the composite literal, so it is nil.\<close>

definition clusterToModel :: "DtoAerospikeCluster \<Rightarrow> AerospikeCluster" where
  "clusterToModel a =
     \<lparr>acPwd = None,
      acClusterLabel = dacClusterLabel a,
      acSeedNodes = map seedNodeToModel (dacSeedNodes a),
      acConnTimeout = dacConnTimeout a,
      acUseServicesAlternate = dacUseServicesAlternate a,
      acCredentials = credentialsToModel (dacCredentials a),
      acTLS = tlsToModel (dacTLS a),
      acMaxParallelScans = dacMaxParallelScans a\<rparr>"

definition seedNodeFromModel :: "SeedNode \<Rightarrow> DtoSeedNode" where
  "seedNodeFromModel m = \<lparr>dsnHostName = snHostName m, dsnPort = snPort m, dsnTLSName = snTLSName m\<rparr>"

definition credentialsFromModel :: "Credentials option \<Rightarrow> DtoCredentials checked" where
  "credentialsFromModel p =
     (case p of
        None \<Rightarrow> Panic NilDereference
      | Some m \<Rightarrow> Ok \<lparr>dcrUser = crUser m, dcrPassword = crPassword m, dcrPasswordPath = crPasswordPath m,
                      dcrAuthMode = crAuthMode m\<rparr>)"

definition tlsFromModel :: "TLS \<Rightarrow> DtoTLS" where
  "tlsFromModel m =
     \<lparr>dtlsCAFile = tlsCAFile m, dtlsCAPath = tlsCAPath m, dtlsName = tlsName m,
      dtlsProtocols = tlsProtocols m, dtlsCipherSuite = tlsCipherSuite m, dtlsKeyfile = tlsKeyfile m,
      dtlsKeyfilePassword = tlsKeyfilePassword m, dtlsCertfile = tlsCertfile m\<rparr>"

text \<open>
  \<open>fromModel\<close> converts the credentials without testing them for nil, unlike the TLS settings.
  The receiver is the fresh document of \<open>NewClusterFromModel\<close>.
\<close>

definition clusterFromModel :: "AerospikeCluster \<Rightarrow> DtoAerospikeCluster checked" where
  "clusterFromModel m =
     and_then (credentialsFromModel (acCredentials m)) (\<lambda>credentials.
     Ok \<lparr>dacClusterLabel = acClusterLabel m,
         dacSeedNodes = map seedNodeFromModel (acSeedNodes m),
         dacConnTimeout = acConnTimeout m,
         dacUseServicesAlternate = acUseServicesAlternate m,
         dacCredentials = Some credentials,
         dacTLS = (case acTLS m of None \<Rightarrow> None | Some t \<Rightarrow> Some (tlsFromModel t)),
         dacMaxParallelScans = acMaxParallelScans m\<rparr>)"

definition NewClusterFromModel :: "AerospikeCluster option \<Rightarrow> DtoAerospikeCluster option checked" where
  "NewClusterFromModel p =
     (case p of None \<Rightarrow> Ok None | Some m \<Rightarrow> and_then (clusterFromModel m) (\<lambda>a. Ok (Some a)))"

section \<open>Secret agents\<close>

record DtoSecretAgent =
  dsaConnectionType :: "string option"
  dsaAddress :: "string option"
  dsaPort :: "goint option"
  dsaTimeout :: "goint option"
  dsaTLSCAString :: "string option"
  dsaIsBase64 :: "bool option"

definition secretAgentToModel :: "DtoSecretAgent option \<Rightarrow> SecretAgent option" where
  "secretAgentToModel p =
     (case p of
        None \<Rightarrow> None
      | Some s \<Rightarrow> Some \<lparr>saConnectionType = dsaConnectionType s, saAddress = dsaAddress s, saPort = dsaPort s,
                        saTimeout = dsaTimeout s, saTLSCAString = dsaTLSCAString s,
                        saIsBase64 = dsaIsBase64 s\<rparr>)"

definition NewSecretAgentFromModel :: "SecretAgent option \<Rightarrow> DtoSecretAgent option" where
  "NewSecretAgentFromModel p =
     (case p of
        None \<Rightarrow> None
      | Some m \<Rightarrow> Some \<lparr>dsaConnectionType = saConnectionType m, dsaAddress = saAddress m, dsaPort = saPort m,
                        dsaTimeout = saTimeout m, dsaTLSCAString = saTLSCAString m,
                        dsaIsBase64 = saIsBase64 m\<rparr>)"

section \<open>Storage\<close>

record DtoLocalStorage =
  dlsPath :: string

record DtoS3Storage =
  ds3Bucket :: string
  ds3Path :: string
  ds3Region :: string
  ds3Profile :: string
  ds3EndpointOverride :: "string option"
  ds3LogLevel :: "string option"
  ds3MinPartSize :: goint
  ds3MaxConnsPerHost :: goint

record DtoGcpStorage =
  dgcpKeyFile :: string
  dgcpBucketName :: string
  dgcpPath :: string
  dgcpEndpoint :: string

record DtoAzureStorage =
  dazEndpoint :: string
  dazContainerName :: string
  dazPath :: string
  dazAccountName :: string
  dazAccountKey :: string
  dazTenantID :: string
  dazClientID :: string
  dazClientSecret :: string

record DtoStorage =
  dstLocalStorage :: "DtoLocalStorage option"
  dstS3Storage :: "DtoS3Storage option"
  dstGcpStorage :: "DtoGcpStorage option"
  dstAzureStorage :: "DtoAzureStorage option"

definition newStorage :: DtoStorage where
  "newStorage = \<lparr>dstLocalStorage = None, dstS3Storage = None, dstGcpStorage = None, dstAzureStorage = None\<rparr>"

definition validateLocalStorage :: "DtoLocalStorage \<Rightarrow> unit checked" where
  "validateLocalStorage l =
     (if dlsPath l = [] then Err (Message ''local storage path is not specified'') else Ok ())"

definition validateS3Storage :: "DtoS3Storage \<Rightarrow> unit checked" where
  "validateS3Storage s =
     (if ds3Bucket s = [] then Err (Message ''S3 bucket is not specified'')
      else if ds3Region s = [] then Err (Message ''S3 region is not specified'')
      else Ok ())"

definition validateGcpStorage :: "DtoGcpStorage \<Rightarrow> unit checked" where
  "validateGcpStorage g =
     (if dgcpKeyFile g = [] then Err (Message ''GCP key file is not specified'')
      else if dgcpBucketName g = [] then Err (Message ''GCP bucket name is not specified'')
      else Ok ())"

definition hasSharedKey :: "DtoAzureStorage \<Rightarrow> bool" where
  "hasSharedKey a \<longleftrightarrow> dazAccountName a \<noteq> [] \<and> dazAccountKey a \<noteq> []"

definition hasAAD :: "DtoAzureStorage \<Rightarrow> bool" where
  "hasAAD a \<longleftrightarrow> dazTenantID a \<noteq> [] \<and> dazClientID a \<noteq> [] \<and> dazClientSecret a \<noteq> []"

definition validateAzureStorage :: "DtoAzureStorage \<Rightarrow> unit checked" where
  "validateAzureStorage a =
     (if dazEndpoint a = [] then Err (Message ''azure storage endpoint is not specified'')
      else if dazContainerName a = [] then Err (Message ''azure storage container name is not specified'')
      else if hasSharedKey a \<and> hasAAD a
      then Err (Message (''azure storage authentication method is ambiguous:'' @ [CHR 0x0A] @
             ''use either AccountName/AccountKey or TenantID/ClientID/ClientSecret, not both''))
      else Ok ())"

text \<open>
  The counting pass of \<open>Storage.Validate\<close>: each storage type that is set replaces the validator
  and increments the count, so the list of the validators seen is enough: the last one runs.
\<close>

definition storageValidators :: "DtoStorage \<Rightarrow> unit checked list" where
  "storageValidators s =
     (case dstLocalStorage s of None \<Rightarrow> [] | Some l \<Rightarrow> [validateLocalStorage l]) @
     (case dstS3Storage s of None \<Rightarrow> [] | Some l \<Rightarrow> [validateS3Storage l]) @
     (case dstGcpStorage s of None \<Rightarrow> [] | Some l \<Rightarrow> [validateGcpStorage l]) @
     (case dstAzureStorage s of None \<Rightarrow> [] | Some l \<Rightarrow> [validateAzureStorage l])"

definition validateStorage :: "DtoStorage option \<Rightarrow> unit checked" where
  "validateStorage p =
     (case p of
        None \<Rightarrow> Err (Message ''storage is not specified'')
      | Some s \<Rightarrow>
          let count = length (storageValidators s) in
          if count = 0 then Err (Message ''no storage type specified'')
          else if 1 < count
          then Err (Message (''multiple storage types specified ('' @ nat_string count @
                 ''). Exactly one storage type should be specified''))
          else last (storageValidators s))"

text \<open>\<open>ToModel\<close>: the first type that is set wins; with none set the result is the nil interface.\<close>

definition azureAuthToModel :: "DtoAzureStorage \<Rightarrow> AzureAuth option" where
  "azureAuthToModel a =
     (if dazAccountName a \<noteq> [] \<and> dazAccountKey a \<noteq> []
      then Some (AzureSharedKeyAuth (dazAccountName a) (dazAccountKey a))
      else if dazTenantID a \<noteq> [] \<and> dazClientID a \<noteq> [] \<and> dazClientSecret a \<noteq> []
      then Some (AzureADAuth (dazTenantID a) (dazClientID a) (dazClientSecret a))
      else None)"

definition storageToModel :: "DtoStorage \<Rightarrow> Storage option" where
  "storageToModel s =
     (case dstLocalStorage s of
        Some l \<Rightarrow> Some (Local \<lparr>lsPath = dlsPath l\<rparr>)
      | None \<Rightarrow>
     (case dstS3Storage s of
        Some l \<Rightarrow> Some (S3
          \<lparr>s3Path = ds3Path l, s3Bucket = ds3Bucket l, s3Region = ds3Region l, s3Profile = ds3Profile l,
           s3EndpointOverride = ds3EndpointOverride l, s3LogLevel = ds3LogLevel l,
           s3MinPartSize = ds3MinPartSize l, s3MaxConnsPerHost = ds3MaxConnsPerHost l\<rparr>)
      | None \<Rightarrow>
     (case dstGcpStorage s of
        Some l \<Rightarrow> Some (Gcp
          \<lparr>gcpKeyFile = dgcpKeyFile l, gcpBucketName = dgcpBucketName l, gcpPath = dgcpPath l,
           gcpEndpoint = dgcpEndpoint l\<rparr>)
      | None \<Rightarrow>
     (case dstAzureStorage s of
        Some l \<Rightarrow> Some (Azure
          \<lparr>azPath = dazPath l, azEndpoint = dazEndpoint l, azContainerName = dazContainerName l,
           azAuth = azureAuthToModel l\<rparr>)
      | None \<Rightarrow> None))))"

definition NewStorageFromModel :: "Storage option \<Rightarrow> DtoStorage option" where
  "NewStorageFromModel p =
     (case p of
        None \<Rightarrow> None
      | Some (Local s) \<Rightarrow> Some (newStorage\<lparr>dstLocalStorage := Some \<lparr>dlsPath = lsPath s\<rparr>\<rparr>)
      | Some (S3 s) \<Rightarrow> Some (newStorage\<lparr>dstS3Storage := Some
          \<lparr>ds3Bucket = s3Bucket s, ds3Path = s3Path s, ds3Region = s3Region s, ds3Profile = s3Profile s,
           ds3EndpointOverride = s3EndpointOverride s, ds3LogLevel = s3LogLevel s,
           ds3MinPartSize = s3MinPartSize s, ds3MaxConnsPerHost = s3MaxConnsPerHost s\<rparr>\<rparr>)
      | Some (Gcp s) \<Rightarrow> Some (newStorage\<lparr>dstGcpStorage := Some
          \<lparr>dgcpKeyFile = gcpKeyFile s, dgcpBucketName = gcpBucketName s, dgcpPath = gcpPath s,
           dgcpEndpoint = gcpEndpoint s\<rparr>\<rparr>)
      | Some (Azure s) \<Rightarrow>
          let azureStorage =
            \<lparr>dazEndpoint = azEndpoint s, dazContainerName = azContainerName s, dazPath = azPath s,
             dazAccountName = [], dazAccountKey = [], dazTenantID = [], dazClientID = [], dazClientSecret = []\<rparr>
          in Some (newStorage\<lparr>dstAzureStorage := Some
            (case azAuth s of
               None \<Rightarrow> azureStorage
             | Some (AzureSharedKeyAuth name key) \<Rightarrow> azureStorage\<lparr>dazAccountName := name, dazAccountKey := key\<rparr>
             | Some (AzureADAuth tenant client secret) \<Rightarrow>
                 azureStorage\<lparr>dazTenantID := tenant, dazClientID := client, dazClientSecret := secret\<rparr>)\<rparr>))"

definition NewStorageFromReader ::
  "DtoStorage decoders \<Rightarrow> SerializationFormat \<Rightarrow> DtoStorage checked" where
  "NewStorageFromReader r format =
     and_then (Deserialize r format) (\<lambda>s.
     and_then (validateStorage (Some s)) (\<lambda>_. Ok s))"

section \<open>What validation establishes\<close>

definition seed_node_ok :: "DtoSeedNode \<Rightarrow> bool" where
  "seed_node_ok node \<longleftrightarrow> dsnHostName node \<noteq> [] \<and> 1 \<le> sint (dsnPort node) \<and> sint (dsnPort node) \<le> 65535"

lemma validateSeedNodes_Ok: "validateSeedNodes nodes = Ok () \<longleftrightarrow> (\<forall>node \<in> set nodes. seed_node_ok node)"
  by (induction nodes) (auto simp: validateSeedNode_def seed_node_ok_def outcome_simps)

lemma validateSeedNodes_no_Panic [simp]: "validateSeedNodes nodes \<noteq> Panic x"
  by (induction nodes) (auto simp: validateSeedNode_def outcome_simps)

lemma validateCluster_Ok:
  "validateCluster c = Ok () \<longleftrightarrow>
     (\<exists>a. c = Some a \<and> dacSeedNodes a \<noteq> [] \<and> (\<forall>node \<in> set (dacSeedNodes a). seed_node_ok node))"
  by (auto simp: validateCluster_def validateSeedNodes_Ok split: option.splits)

lemma validateCluster_no_Panic [simp]: "validateCluster c \<noteq> Panic x"
  by (auto simp: validateCluster_def split: option.splits)

lemma validateStorage_no_Panic [simp]: "validateStorage s \<noteq> Panic x"
proof -
  have v: "v \<noteq> Panic x" if "v \<in> set (storageValidators t)" for v t
    using that by (auto simp: storageValidators_def validateLocalStorage_def validateS3Storage_def
        validateGcpStorage_def validateAzureStorage_def split: option.splits if_splits)
  show ?thesis
    by (cases s) (auto simp: validateStorage_def Let_def dest: v [OF last_in_set])
qed

text \<open>
  Storage passes validation exactly when one storage type is set and has its required fields.
\<close>

lemma storage_cases:
  "validateStorage (Some s) = Ok () \<longleftrightarrow>
     (\<exists>l. s = newStorage\<lparr>dstLocalStorage := Some l\<rparr> \<and> dlsPath l \<noteq> []) \<or>
     (\<exists>l. s = newStorage\<lparr>dstS3Storage := Some l\<rparr> \<and> ds3Bucket l \<noteq> [] \<and> ds3Region l \<noteq> []) \<or>
     (\<exists>l. s = newStorage\<lparr>dstGcpStorage := Some l\<rparr> \<and> dgcpKeyFile l \<noteq> [] \<and> dgcpBucketName l \<noteq> []) \<or>
     (\<exists>l. s = newStorage\<lparr>dstAzureStorage := Some l\<rparr> \<and> dazEndpoint l \<noteq> [] \<and> dazContainerName l \<noteq> [] \<and>
          \<not> (hasSharedKey l \<and> hasAAD l))"
  by (cases s) (auto simp: validateStorage_def storageValidators_def newStorage_def Let_def
      validateLocalStorage_def validateS3Storage_def validateGcpStorage_def validateAzureStorage_def
      split: option.splits)

section \<open>Conversions there and back\<close>

lemma credentials_roundtrip:
  "credentialsFromModel (credentialsToModel (Some c)) = Ok c"
  by (simp add: credentialsFromModel_def credentialsToModel_def)

lemma seed_nodes_roundtrip: "map (seedNodeFromModel \<circ> seedNodeToModel) ns = ns"
  by (rule map_idI) (simp add: seedNodeFromModel_def seedNodeToModel_def)

text \<open>
  Reading a cluster back from the model returns the document it was made from, with one
  exception: a cluster without credentials, which validation accepts, makes the conversion
  dereference a nil pointer.
\<close>

lemma cluster_roundtrip:
  "NewClusterFromModel (Some (clusterToModel a)) =
     (if dacCredentials a = None then Panic NilDereference else Ok (Some a))"
proof (cases "dacCredentials a")
  case None
  then show ?thesis
    by (simp add: NewClusterFromModel_def clusterFromModel_def clusterToModel_def credentialsToModel_def
        credentialsFromModel_def)
next
  case (Some c)
  have "(case tlsToModel (dacTLS a) of None \<Rightarrow> None | Some t \<Rightarrow> Some (tlsFromModel t)) = dacTLS a"
    by (cases "dacTLS a") (simp_all add: tlsToModel_def tlsFromModel_def)
  with Some show ?thesis
    by (cases a) (simp add: NewClusterFromModel_def clusterFromModel_def clusterToModel_def
        credentials_roundtrip seed_nodes_roundtrip)
qed

lemma secret_agent_roundtrip: "NewSecretAgentFromModel (secretAgentToModel s) = s"
  by (auto simp: NewSecretAgentFromModel_def secretAgentToModel_def split: option.splits)

text \<open>What survives of an Azure document: only a complete set of credentials.\<close>

definition keep_complete_auth :: "DtoAzureStorage \<Rightarrow> DtoAzureStorage" where
  "keep_complete_auth a =
     (if hasSharedKey a then a\<lparr>dazTenantID := [], dazClientID := [], dazClientSecret := []\<rparr>
      else if hasAAD a then a\<lparr>dazAccountName := [], dazAccountKey := []\<rparr>
      else a\<lparr>dazAccountName := [], dazAccountKey := [], dazTenantID := [], dazClientID := [],
             dazClientSecret := []\<rparr>)"

text \<open>
  Storage that passes validation is returned by the model as it was sent, except that an
  incomplete or unused set of Azure credentials is dropped.
\<close>

lemma storage_roundtrip:
  assumes "validateStorage (Some s) = Ok ()"
  shows "NewStorageFromModel (storageToModel s) =
           Some (s\<lparr>dstAzureStorage := map_option keep_complete_auth (dstAzureStorage s)\<rparr>)"
  using assms unfolding storage_cases
  by (auto simp: NewStorageFromModel_def storageToModel_def newStorage_def azureAuthToModel_def
      keep_complete_auth_def hasSharedKey_def hasAAD_def Let_def)

end
