(* ===== verification/ConfigTables.thy ===== *)
theory ConfigTables
  imports Config
begin

text \<open>
  What the configuration promises to its callers, the HTTP handlers: each kind of entity is a
  table of names, and the entities routines refer to stay valid. The locales state the two
  contracts, \<open>named_table\<close> (each kind of entity refines an abstract map) and \<open>reference_table\<close> (the
  table also keeps the references of the routines valid); the interpretations discharge them for
  the operations of \<open>pkg/model/config.go\<close>.
\<close>

section \<open>The abstract table\<close>

datatype 'v command = AddCmd string 'v | UpdateCmd string 'v | DeleteCmd string

datatype refusal = Exists | Missing | Busy

fun refusal_of :: "config_cause \<Rightarrow> refusal" where
  "refusal_of ErrAlreadyExists = Exists"
| "refusal_of ErrNotFound = Missing"
| "refusal_of (ErrInUse routine) = Busy"

text \<open>One command on an abstract map; \<open>busy v\<close> says that a routine refers to \<open>v\<close>.\<close>

fun abs_step :: "('v \<Rightarrow> bool) \<Rightarrow> 'v command \<Rightarrow> (string \<Rightarrow> 'v option) \<Rightarrow>
    (refusal, string \<Rightarrow> 'v option) outcome" where
  "abs_step busy (AddCmd n v) m = (if m n \<noteq> None then Err Exists else Ok (m(n \<mapsto> v)))"
| "abs_step busy (UpdateCmd n v) m = (if m n = None then Err Missing else Ok (m(n \<mapsto> v)))"
| "abs_step busy (DeleteCmd n) m =
     (case m n of None \<Rightarrow> Err Missing | Some v \<Rightarrow> if busy v then Err Busy else Ok (m(n := None)))"

fun abs_outcome :: "('s \<Rightarrow> 'm) \<Rightarrow> (config_error, 's) outcome \<Rightarrow> (refusal, 'm) outcome" where
  "abs_outcome get (Ok s) = Ok (get s)"
| "abs_outcome get (Err e) = Err (refusal_of (ceCause e))"
| "abs_outcome get (Panic p) = Panic p"

type_synonym ('v, 's) entry_op = "string \<Rightarrow> 'v \<Rightarrow> 's \<Rightarrow> (config_error, 's) outcome"
type_synonym 's name_op = "string \<Rightarrow> 's \<Rightarrow> (config_error, 's) outcome"

fun exec :: "('v, 's) entry_op \<Rightarrow> ('v, 's) entry_op \<Rightarrow> 's name_op \<Rightarrow>
    'v command \<Rightarrow> 's \<Rightarrow> (config_error, 's) outcome" where
  "exec add upd del (AddCmd n v) s = add n v s"
| "exec add upd del (UpdateCmd n v) s = upd n v s"
| "exec add upd del (DeleteCmd n) s = del n s"

text \<open>A sequence of requests: a refused one leaves the state as it was.\<close>

fun run :: "('v, 's) entry_op \<Rightarrow> ('v, 's) entry_op \<Rightarrow> 's name_op \<Rightarrow>
    'v command list \<Rightarrow> 's \<Rightarrow> 's" where
  "run add upd del [] s = s"
| "run add upd del (c # cs) s =
     run add upd del cs (case exec add upd del c s of Ok s' \<Rightarrow> s' | Err e \<Rightarrow> s | Panic p \<Rightarrow> s)"

fun entry_of :: "'v command \<Rightarrow> (string \<times> 'v) option" where
  "entry_of (AddCmd n v) = Some (n, v)"
| "entry_of (UpdateCmd n v) = Some (n, v)"
| "entry_of (DeleteCmd n) = None"

section \<open>The contracts\<close>

locale named_table =
  fixes get :: "'s \<Rightarrow> string \<Rightarrow> 'v option"
    and add :: "('v, 's) entry_op"
    and upd :: "('v, 's) entry_op"
    and del :: "'s name_op"
    and busy :: "'s \<Rightarrow> 'v \<Rightarrow> bool"
    and inv :: "'s \<Rightarrow> bool"
    and fits :: "'s \<Rightarrow> string \<Rightarrow> 'v \<Rightarrow> bool"
  assumes refines: "inv s \<Longrightarrow> abs_outcome get (exec add upd del c s) = abs_step (busy s) c (get s)"
    and keeps_inv: "inv s \<Longrightarrow> (\<And>n v. entry_of c = Some (n, v) \<Longrightarrow> fits s n v) \<Longrightarrow>
                    exec add upd del c s = Ok s' \<Longrightarrow> inv s'"
    and keeps_fits: "inv s \<Longrightarrow> exec add upd del c s = Ok s' \<Longrightarrow> fits s n v \<Longrightarrow> fits s' n v"
begin

lemma add_get: "inv s \<Longrightarrow> add n v s = Ok s' \<Longrightarrow> get s' = (get s)(n \<mapsto> v)"
  using refines [of s "AddCmd n v"] by (auto split: if_splits)

lemma upd_get: "inv s \<Longrightarrow> upd n v s = Ok s' \<Longrightarrow> get s' = (get s)(n \<mapsto> v) \<and> get s n \<noteq> None"
  using refines [of s "UpdateCmd n v"] by (auto split: if_splits)

lemma del_get: "inv s \<Longrightarrow> del n s = Ok s' \<Longrightarrow>
    get s' = (get s)(n := None) \<and> (\<exists>v. get s n = Some v \<and> \<not> busy s v)"
  using refines [of s "DeleteCmd n"] by (auto split: if_splits option.splits)

lemma no_panic: "inv s \<Longrightarrow> exec add upd del c s \<noteq> Panic p"
  using refines [of s c] by (cases c) (auto split: if_splits option.splits)

lemma run_inv:
  assumes "inv s" and "\<And>c n v. c \<in> set cs \<Longrightarrow> entry_of c = Some (n, v) \<Longrightarrow> fits s n v"
  shows "inv (run add upd del cs s)"
  using assms
proof (induction cs arbitrary: s)
  case Nil
  then show ?case by simp
next
  case (Cons c cs)
  show ?case
  proof (cases "exec add upd del c s")
    case (Ok s')
    then have "inv s'" using Cons.prems by (intro keeps_inv [of s c s']) auto
    moreover have "fits s' n v" if "d \<in> set cs" "entry_of d = Some (n, v)" for d n v
      using Cons.prems(2) [of d n v] that by (intro keeps_fits [OF Cons.prems(1) Ok]) simp
    ultimately show ?thesis using Cons.IH Ok by auto
  next
    case (Err e)
    then show ?thesis using Cons by auto
  next
    case (Panic p)
    then show ?thesis using no_panic [OF Cons.prems(1)] by blast
  qed
qed

text \<open>Deleting what was just added, when nothing refers to it, gives the table back.\<close>

lemma add_del_roundtrip:
  assumes "inv s" and "fits s n v" and "add n v s = Ok s'" and "\<not> busy s' v"
  shows "\<exists>t. del n s' = Ok t \<and> get t = get s"
proof -
  have inv': "inv s'" using assms(1-3) keeps_inv [of s "AddCmd n v" s'] by auto
  have g: "get s' = (get s)(n \<mapsto> v)" using add_get assms(1,3) by blast
  have "get s n = None" using refines [OF assms(1), of "AddCmd n v"] assms(3) by (auto split: if_splits)
  then have restored: "(get s')(n := None) = get s" using g by auto
  have "abs_outcome get (del n s') = Ok ((get s')(n := None))"
    using refines [OF inv', of "DeleteCmd n"] g assms(4) by simp
  then show ?thesis using restored by (cases "del n s'") auto
qed

end

text \<open>The references are sound: whatever a routine refers to is in the table.\<close>

definition refs_sound :: "('s \<Rightarrow> string \<Rightarrow> 'v option) \<Rightarrow> ('s \<Rightarrow> string \<Rightarrow> 'v option) \<Rightarrow> 's \<Rightarrow> bool" where
  "refs_sound get refers s \<longleftrightarrow> (\<forall>r v. refers s r = Some v \<longrightarrow> (\<exists>n. get s n = Some v))"

text \<open>
  \<open>refers s r\<close> is what routine \<open>r\<close> refers to in this table. The extra laws: an entity is busy
  exactly when a routine refers to it, adding and deleting leave the references alone, and an
  update moves the references from the old entity to the new one.
\<close>

locale reference_table = named_table +
  fixes refers :: "'s \<Rightarrow> string \<Rightarrow> 'v option"
  assumes busy_iff: "inv s \<Longrightarrow> busy s v \<longleftrightarrow> (\<exists>r. refers s r = Some v)"
    and add_refers: "inv s \<Longrightarrow> add n v s = Ok s' \<Longrightarrow> refers s' = refers s"
    and del_refers: "inv s \<Longrightarrow> del n s = Ok s' \<Longrightarrow> refers s' = refers s"
    and upd_refers: "inv s \<Longrightarrow> get s n = Some old \<Longrightarrow> upd n v s = Ok s' \<Longrightarrow>
                     refers s' r = (if refers s r = Some old then Some v else refers s r)"
begin

lemma exec_sound:
  assumes "inv s" and sound: "refs_sound get refers s" and ok: "exec add upd del c s = Ok s'"
  shows "refs_sound get refers s'"
  unfolding refs_sound_def
proof (intro allI impI)
  fix r v
  assume asm: "refers s' r = Some v"
  note soundD = sound [unfolded refs_sound_def, rule_format]
  show "\<exists>n. get s' n = Some v"
  proof (cases c)
    case (AddCmd n w)
    then have a: "add n w s = Ok s'" using ok by simp
    then obtain m where "get s m = Some v" using asm soundD add_refers [OF assms(1) a] by auto
    moreover have "get s n = None" using refines [OF assms(1), of "AddCmd n w"] a by (auto split: if_splits)
    ultimately have "get s' m = Some v" using add_get [OF assms(1) a] by auto
    then show ?thesis ..
  next
    case (UpdateCmd n w)
    then have u: "upd n w s = Ok s'" using ok by simp
    then obtain old where old: "get s n = Some old" using upd_get [OF assms(1) u] by auto
    have g: "get s' = (get s)(n \<mapsto> w)" using upd_get [OF assms(1) u] by simp
    show ?thesis
    proof (cases "refers s r = Some old")
      case True
      then have "v = w" using upd_refers [OF assms(1) old u] asm by simp
      then have "get s' n = Some v" using g by simp
      then show ?thesis ..
    next
      case False
      then have r: "refers s r = Some v" using upd_refers [OF assms(1) old u] asm by simp
      then obtain m where "get s m = Some v" using soundD by blast
      moreover then have "m \<noteq> n" using old False r by auto
      ultimately show ?thesis using g by auto
    qed
  next
    case (DeleteCmd n)
    then have d: "del n s = Ok s'" using ok by simp
    then have r: "refers s r = Some v" using del_refers [OF assms(1) d] asm by simp
    then obtain m where "get s m = Some v" using soundD by blast
    moreover have "busy s v" using r busy_iff [OF assms(1)] by blast
    ultimately show ?thesis using del_get [OF assms(1) d] by (auto intro!: exI [of _ m])
  qed
qed

lemma run_sound:
  assumes "inv s" and "refs_sound get refers s"
    and "\<And>c n v. c \<in> set cs \<Longrightarrow> entry_of c = Some (n, v) \<Longrightarrow> fits s n v"
  shows "refs_sound get refers (run add upd del cs s)"
  using assms
proof (induction cs arbitrary: s)
  case Nil
  then show ?case by simp
next
  case (Cons c cs)
  show ?case
  proof (cases "exec add upd del c s")
    case (Ok s')
    have inv': "inv s'" using Cons.prems(1,3) Ok by (intro keeps_inv [of s c s']) auto
    have fits': "fits s' n v" if "d \<in> set cs" "entry_of d = Some (n, v)" for d n v
      using Cons.prems(3) [of d n v] that by (intro keeps_fits [OF Cons.prems(1) Ok]) simp
    show ?thesis using Cons.IH [OF inv' exec_sound [OF Cons.prems(1,2) Ok] fits'] Ok by simp
  next
    case (Err e)
    then show ?thesis using Cons by auto
  next
    case (Panic p)
    then show ?thesis using no_panic [OF Cons.prems(1)] by blast
  qed
qed

end

section \<open>The operations of the configuration meet the contracts\<close>

abbreviation storages :: "conf \<Rightarrow> string \<Rightarrow> ptr option" where
  "storages c \<equiv> lookup (cfStorage (snd c))"

abbreviation policies :: "conf \<Rightarrow> string \<Rightarrow> ptr option" where
  "policies c \<equiv> lookup (cfBackupPolicies (snd c))"

abbreviation clusters :: "conf \<Rightarrow> string \<Rightarrow> ptr option" where
  "clusters c \<equiv> lookup (cfAerospikeClusters (snd c))"

abbreviation routines :: "conf \<Rightarrow> string \<Rightarrow> ptr option" where
  "routines c \<equiv> lookup (cfBackupRoutines (snd c))"

text \<open>A routine can be put under a name when the name is not empty and the pointer is valid.\<close>

definition routine_fits :: "conf \<Rightarrow> string \<Rightarrow> ptr \<Rightarrow> bool" where
  "routine_fits c n p \<longleftrightarrow> n \<noteq> [] \<and> deref_routine (fst c) p \<noteq> None"

abbreviation any_fits :: "conf \<Rightarrow> string \<Rightarrow> ptr \<Rightarrow> bool" where
  "any_fits c n p \<equiv> True"

lemma deref_mapped:
  "deref_routine (st\<lparr>stRoutines := (\<lambda>a. if a \<in> A then map_option f (stRoutines st a) else stRoutines st a)\<rparr>) p =
     (if p \<in> Some ` A then map_option f (deref_routine st p) else deref_routine st p)"
  by (auto simp: deref_routine_def split: option.splits)

lemma rewire:
  assumes "wf_conf c" and "\<And>r. f (f r) = f r"
  obtains st where "eachRoutine f (cfBackupRoutines (snd c)) (fst c) = Ok st"
    and "routines_ok st (cfBackupRoutines (snd c))"
    and "\<And>cfg n. cfBackupRoutines cfg = cfBackupRoutines (snd c) \<Longrightarrow>
           routine_at (st, cfg) n = map_option f (routine_at c n)"
proof -
  let ?rs = "cfBackupRoutines (snd c)"
  have rs: "routines_ok (fst c) ?rs" using assms(1) by (simp add: wf_conf_def)
  note eq = eachRoutine_Ok [where f = f, OF assms(2) rs]
  let ?st = "(fst c)\<lparr>stRoutines := (\<lambda>a. if a \<in> addresses ?rs then map_option f (stRoutines (fst c) a)
                                      else stRoutines (fst c) a)\<rparr>"
  have in_rs: "p \<in> Some ` addresses ?rs" if "lookup ?rs n = Some p" for n p
  proof -
    have "(n, p) \<in> set ?rs" using that by (rule lookup_in_set)
    moreover then obtain a where "p = Some a" using rs
      by (fastforce simp: routines_ok_def deref_routine_def split: option.splits)
    ultimately show ?thesis by (auto simp: addresses_def)
  qed
  have "routine_at (?st, cfg) n = map_option f (routine_at c n)" if "cfBackupRoutines cfg = ?rs" for cfg n
    using that in_rs by (auto simp: routine_at_def deref_mapped split: option.splits)
  moreover have "routines_ok ?st ?rs" using rs by (auto simp: routines_ok_def deref_mapped)
  ultimately show ?thesis using that [OF eq] by blast
qed

lemma routines_ok_insert:
  "n \<noteq> [] \<Longrightarrow> deref_routine st p \<noteq> None \<Longrightarrow> routines_ok st rs \<Longrightarrow> routines_ok st (insert_key n p rs)"
  by (induction rs) auto

lemma routines_ok_delete: "routines_ok st rs \<Longrightarrow> routines_ok st (delete_key n rs)"
  by (auto simp: routines_ok_def AList.delete_eq)

text \<open>
  Storage, policies and clusters are kept the same way: a table \<open>tab\<close> of the configuration with
  its setter, a field \<open>fld\<close> of the routines with its setter, and the three operations over them.
  \<open>entity_kind\<close> is that shape; each of its instances meets the contract of a reference table.
\<close>

locale entity_kind =
  fixes tab :: "Config \<Rightarrow> (string, ptr) gomap"
    and set_tab :: "(string, ptr) gomap \<Rightarrow> Config \<Rightarrow> Config"
    and fld :: "BackupRoutine \<Rightarrow> ptr"
    and set_fld :: "ptr \<Rightarrow> BackupRoutine \<Rightarrow> BackupRoutine"
    and add :: "(ptr, conf) entry_op"
    and upd :: "(ptr, conf) entry_op"
    and del :: "conf name_op"
    and la :: string and lu :: string and ld :: string
  assumes tab_set: "tab (set_tab m cfg) = m"
    and routines_set: "cfBackupRoutines (set_tab m cfg) = cfBackupRoutines cfg"
    and wf_tab: "wf_conf c \<Longrightarrow> wf_map (tab (snd c))"
    and wf_set: "wf_conf (st, cfg) \<Longrightarrow> wf_map m \<Longrightarrow> wf_conf (st, set_tab m cfg)"
    and fld_set: "fld (set_fld p r) = p"
    and set_set: "set_fld p (set_fld p r) = set_fld p r"
    and add_eq: "add n v c =
          (if lookup (tab (snd c)) n \<noteq> None then Err (ConfigError la n ErrAlreadyExists)
           else Ok (fst c, set_tab (insert_key n v (tab (snd c))) (snd c)))"
    and del_eq: "del n c =
          (case lookup (tab (snd c)) n of
             None \<Rightarrow> Err (ConfigError ld n ErrNotFound)
           | Some v \<Rightarrow>
               and_then (firstRoutine (\<lambda>r. fld r = v) (cfBackupRoutines (snd c)) (fst c))
                 (\<lambda>routine. if routine \<noteq> [] then Err (ConfigError ld n (ErrInUse routine))
                            else Ok (fst c, set_tab (delete_key n (tab (snd c))) (snd c))))"
    and upd_eq: "upd n v c =
          (case lookup (tab (snd c)) n of
             None \<Rightarrow> Err (ConfigError lu n ErrNotFound)
           | Some old \<Rightarrow>
               and_then (eachRoutine (\<lambda>r. if fld r = old then set_fld v r else r) (cfBackupRoutines (snd c)) (fst c))
                 (\<lambda>st. Ok (st, set_tab (insert_key n v (tab (snd c))) (snd c))))"
begin

abbreviation entries :: "conf \<Rightarrow> string \<Rightarrow> ptr option" where
  "entries c \<equiv> lookup (tab (snd c))"

lemma uses_set: "uses f (st, set_tab m cfg) = uses f (st, cfg)"
  by (simp add: uses_def routine_at_def routines_set fun_eq_iff split: option.split)

lemma upd_run:
  assumes "wf_conf s" and "entries s n = Some old"
  obtains st where "upd n v s = Ok (st, set_tab (insert_key n v (tab (snd s))) (snd s))"
    and "routines_ok st (cfBackupRoutines (snd s))"
    and "\<And>cfg n. cfBackupRoutines cfg = cfBackupRoutines (snd s) \<Longrightarrow>
           routine_at (st, cfg) n = map_option (\<lambda>r. if fld r = old then set_fld v r else r) (routine_at s n)"
proof -
  obtain st where
    "eachRoutine (\<lambda>r. if fld r = old then set_fld v r else r) (cfBackupRoutines (snd s)) (fst s) = Ok st"
    "routines_ok st (cfBackupRoutines (snd s))"
    "\<And>cfg n. cfBackupRoutines cfg = cfBackupRoutines (snd s) \<Longrightarrow>
           routine_at (st, cfg) n = map_option (\<lambda>r. if fld r = old then set_fld v r else r) (routine_at s n)"
    by (rule rewire [OF assms(1), where f = "\<lambda>r. if fld r = old then set_fld v r else r"])
      (auto simp: fld_set set_set)
  then show ?thesis using that assms(2) by (simp add: upd_eq)
qed

lemma refines_kind:
  assumes wf: "wf_conf s"
  shows "abs_outcome entries (exec add upd del c s) = abs_step (holds fld s) c (entries s)"
proof (cases c)
  case (AddCmd n v)
  then show ?thesis by (simp add: add_eq tab_set)
next
  case (UpdateCmd n v)
  show ?thesis
  proof (cases "entries s n")
    case (Some old)
    obtain st where "upd n v s = Ok (st, set_tab (insert_key n v (tab (snd s))) (snd s))"
      by (rule upd_run [OF wf Some])
    then show ?thesis using UpdateCmd Some by (simp add: tab_set)
  qed (use UpdateCmd in \<open>simp add: upd_eq\<close>)
next
  case (DeleteCmd n)
  obtain nm where "firstRoutine (\<lambda>r. fld r = the (entries s n)) (cfBackupRoutines (snd s)) (fst s) = Ok nm"
    "nm \<noteq> [] \<longleftrightarrow> holds fld s (the (entries s n))"
    by (rule firstRoutine_holds [OF wf, where f = fld])
  then show ?thesis using DeleteCmd by (cases "entries s n") (simp_all add: del_eq tab_set)
qed

lemma wf_kind:
  assumes wf: "wf_conf s" and ok: "exec add upd del c s = Ok s'"
  shows "wf_conf s'"
proof (cases c)
  case (UpdateCmd n v)
  then obtain old where old: "entries s n = Some old" using ok by (auto simp: upd_eq split: option.splits)
  obtain st where st: "upd n v s = Ok (st, set_tab (insert_key n v (tab (snd s))) (snd s))"
    and ro: "routines_ok st (cfBackupRoutines (snd s))" by (rule upd_run [OF wf old])
  have "wf_conf (st, snd s)" using wf ro by (simp add: wf_conf_def)
  then have "wf_conf (st, set_tab (insert_key n v (tab (snd s))) (snd s))"
    by (rule wf_set) (simp add: wf_tab [OF wf])
  then show ?thesis using st ok UpdateCmd by simp
qed (use wf_set [of "fst s" "snd s"] wf wf_tab [OF wf] ok in
     \<open>auto simp: add_eq del_eq outcome_simps split: if_splits option.splits\<close>)

text \<open>What a request on this kind leaves alone: the other tables, and the other fields of routines.\<close>

lemma other_uses:
  assumes wf: "wf_conf s" and ok: "exec add upd del c s = Ok s'" and g: "\<And>p r. g (set_fld p r) = g r"
  shows "uses g s' = uses g s"
proof (cases c)
  case (UpdateCmd n v)
  then obtain old where old: "entries s n = Some old" using ok by (auto simp: upd_eq split: option.splits)
  from upd_run [OF wf old, of v] obtain st where
    "s' = (st, set_tab (insert_key n v (tab (snd s))) (snd s))"
    "\<And>cfg n. cfBackupRoutines cfg = cfBackupRoutines (snd s) \<Longrightarrow>
       routine_at (st, cfg) n = map_option (\<lambda>r. if fld r = old then set_fld v r else r) (routine_at s n)"
    using ok UpdateCmd by auto
  then have "uses g s' n = uses g s n" for n
    by (cases "routine_at s n") (simp_all add: uses_def routines_set g)
  then show ?thesis by (rule ext)
qed (use ok in \<open>auto simp: add_eq del_eq uses_set outcome_simps split: if_splits option.splits\<close>)

lemma other_table:
  assumes ok: "exec add upd del c s = Ok s'" and h: "\<And>m cfg. h (set_tab m cfg) = h cfg"
  shows "h (snd s') = h (snd s)"
  using ok by (cases c) (auto simp: add_eq upd_eq del_eq h outcome_simps split: if_splits option.splits)

lemma table: "reference_table entries add upd del (holds fld) wf_conf any_fits (uses fld)"
proof
  fix s n old v s' r
  assume wf: "wf_conf s" and old: "entries s n = Some old" and ok: "upd n v s = Ok s'"
  from upd_run [OF wf old, of v] obtain st where
    "s' = (st, set_tab (insert_key n v (tab (snd s))) (snd s))"
    "\<And>cfg n. cfBackupRoutines cfg = cfBackupRoutines (snd s) \<Longrightarrow>
       routine_at (st, cfg) n = map_option (\<lambda>r. if fld r = old then set_fld v r else r) (routine_at s n)"
    using ok by auto
  then show "uses fld s' r = (if uses fld s r = Some old then Some v else uses fld s r)"
    by (cases "routine_at s r") (auto simp: uses_def routines_set fld_set)
qed (auto simp: refines_kind holds_def add_eq del_eq uses_set outcome_simps intro: wf_kind
     split: if_splits option.splits)

end

text \<open>The three kinds, and the contract each one gets.\<close>

interpretation storage_kind: entity_kind cfStorage "\<lambda>m cfg. cfg\<lparr>cfStorage := m\<rparr>"
  brStorage "\<lambda>p r. r\<lparr>brStorage := p\<rparr>" AddStorage UpdateStorage DeleteStorage
  "''add storage''" "''update storage''" "''delete storage''"
  by unfold_locales
    (simp_all cong: option.case_cong add: wf_conf_def AddStorage_def UpdateStorage_def DeleteStorage_def routineUsesStorage_def)

interpretation policy_kind: entity_kind cfBackupPolicies "\<lambda>m cfg. cfg\<lparr>cfBackupPolicies := m\<rparr>"
  brBackupPolicy "\<lambda>p r. r\<lparr>brBackupPolicy := p\<rparr>" AddPolicy UpdatePolicy DeletePolicy
  "''add backup policy''" "''update backup policy''" "''delete backup policy''"
  by unfold_locales
    (simp_all cong: option.case_cong add: wf_conf_def AddPolicy_def UpdatePolicy_def DeletePolicy_def routineUsesPolicy_def)

interpretation cluster_kind: entity_kind cfAerospikeClusters "\<lambda>m cfg. cfg\<lparr>cfAerospikeClusters := m\<rparr>"
  brSourceCluster "\<lambda>p r. r\<lparr>brSourceCluster := p\<rparr>" AddCluster UpdateCluster DeleteCluster
  "''add Aerospike cluster''" "''update Aerospike cluster''" "''delete Aerospike cluster''"
  by unfold_locales
    (simp_all cong: option.case_cong add: wf_conf_def AddCluster_def UpdateCluster_def DeleteCluster_def routineUsesCluster_def)

interpretation storage_table: reference_table storages AddStorage UpdateStorage DeleteStorage
  "holds brStorage" wf_conf any_fits "uses brStorage"
  by (rule storage_kind.table)

interpretation policy_table: reference_table policies AddPolicy UpdatePolicy DeletePolicy
  "holds brBackupPolicy" wf_conf any_fits "uses brBackupPolicy"
  by (rule policy_kind.table)

interpretation cluster_table: reference_table clusters AddCluster UpdateCluster DeleteCluster
  "holds brSourceCluster" wf_conf any_fits "uses brSourceCluster"
  by (rule cluster_kind.table)

text \<open>The routines refer to the other tables and nothing refers to them, so none is ever busy.\<close>

interpretation routine_table: named_table routines AddRoutine UpdateRoutine DeleteRoutine
  "\<lambda>s v. False" wf_conf routine_fits
proof
  fix s c assume "wf_conf s"
  show "abs_outcome routines (exec AddRoutine UpdateRoutine DeleteRoutine c s) =
          abs_step (\<lambda>v. False) c (routines s)"
    by (cases c) (auto simp: AddRoutine_def UpdateRoutine_def DeleteRoutine_def split: option.splits)
next
  fix s c s'
  assume wf: "wf_conf s" and fit: "\<And>n v. entry_of c = Some (n, v) \<Longrightarrow> routine_fits s n v"
    and ok: "exec AddRoutine UpdateRoutine DeleteRoutine c s = Ok s'"
  have "routines_ok (fst s) (insert_key n v (cfBackupRoutines (snd s)))" if "routine_fits s n v" for n v
    using that wf by (auto intro!: routines_ok_insert simp: wf_conf_def routine_fits_def)
  moreover have "routines_ok (fst s) (delete_key n (cfBackupRoutines (snd s)))" for n
    using wf by (auto simp: wf_conf_def intro: routines_ok_delete)
  ultimately show "wf_conf s'" using wf fit ok
    by (cases c) (auto simp: AddRoutine_def UpdateRoutine_def DeleteRoutine_def wf_conf_def split: if_splits)
next
  fix s c s' n v
  assume "exec AddRoutine UpdateRoutine DeleteRoutine c s = Ok s'" and "routine_fits s n v"
  then show "routine_fits s' n v"
    by (cases c) (auto simp: AddRoutine_def UpdateRoutine_def DeleteRoutine_def routine_fits_def split: if_splits)
qed

end
