(* ===== verification/ConfigRefs.thy ===== *)
theory ConfigRefs
  imports ConfigTables
begin

text \<open>
  The reachable configurations. \<open>config_step\<close> has one rule per kind of accepted request; the
  theorems say that whatever sequence of requests the service accepts, every storage, policy and
  cluster a routine refers to is an entry of its table.
\<close>

definition conf_sound :: "conf \<Rightarrow> bool" where
  "conf_sound c \<longleftrightarrow>
     refs_sound storages (uses brStorage) c \<and>
     refs_sound policies (uses brBackupPolicy) c \<and>
     refs_sound clusters (uses brSourceCluster) c"

text \<open>The references of a new routine come from the tables (\<open>BackupRoutine.ToModel\<close> looks them up).\<close>

definition refers_into :: "conf \<Rightarrow> BackupRoutine \<Rightarrow> bool" where
  "refers_into c r \<longleftrightarrow>
     (\<exists>n. storages c n = Some (brStorage r)) \<and>
     (\<exists>n. policies c n = Some (brBackupPolicy r)) \<and>
     (\<exists>n. clusters c n = Some (brSourceCluster r))"

definition with_routine :: "nat \<Rightarrow> BackupRoutine \<Rightarrow> conf \<Rightarrow> conf" where
  "with_routine a r c = ((fst c)\<lparr>stRoutines := (stRoutines (fst c))(a \<mapsto> r)\<rparr>, snd c)"

inductive config_step :: "conf \<Rightarrow> conf \<Rightarrow> bool" where
  storage_request:
    "exec AddStorage UpdateStorage DeleteStorage q c = Ok c' \<Longrightarrow> config_step c c'"
| policy_request:
    "exec AddPolicy UpdatePolicy DeletePolicy q c = Ok c' \<Longrightarrow> config_step c c'"
| cluster_request:
    "exec AddCluster UpdateCluster DeleteCluster q c = Ok c' \<Longrightarrow> config_step c c'"
| routine_added:
    "refers_into c r \<Longrightarrow> n \<noteq> [] \<Longrightarrow> stRoutines (fst c) a = None \<Longrightarrow>
     AddRoutine n (Some a) (with_routine a r c) = Ok c' \<Longrightarrow> config_step c c'"
| routine_updated:
    "refers_into c r \<Longrightarrow> stRoutines (fst c) a = None \<Longrightarrow>
     UpdateRoutine n (Some a) (with_routine a r c) = Ok c' \<Longrightarrow> config_step c c'"
| routine_deleted:
    "DeleteRoutine n c = Ok c' \<Longrightarrow> config_step c c'"

lemma refs_sound_cong:
  "get s' = get s \<Longrightarrow> refers s' = refers s \<Longrightarrow> refs_sound get refers s' = refs_sound get refers s"
  by (simp add: refs_sound_def)

lemma request_sound:
  assumes "wf_conf c" and "conf_sound c"
  shows "exec AddStorage UpdateStorage DeleteStorage q c = Ok c' \<Longrightarrow> wf_conf c' \<and> conf_sound c'"
    and "exec AddPolicy UpdatePolicy DeletePolicy q c = Ok c' \<Longrightarrow> wf_conf c' \<and> conf_sound c'"
    and "exec AddCluster UpdateCluster DeleteCluster q c = Ok c' \<Longrightarrow> wf_conf c' \<and> conf_sound c'"
proof -
  note sound = assms(2) [unfolded conf_sound_def]
  show "wf_conf c' \<and> conf_sound c'" if ok: "exec AddStorage UpdateStorage DeleteStorage q c = Ok c'"
  proof -
    have "refs_sound policies (uses brBackupPolicy) c' = refs_sound policies (uses brBackupPolicy) c"
      by (rule refs_sound_cong) (simp_all add: storage_kind.other_table [OF ok] storage_kind.other_uses [OF assms(1) ok])
    moreover have "refs_sound clusters (uses brSourceCluster) c' = refs_sound clusters (uses brSourceCluster) c"
      by (rule refs_sound_cong) (simp_all add: storage_kind.other_table [OF ok] storage_kind.other_uses [OF assms(1) ok])
    ultimately show ?thesis
      using storage_table.exec_sound [OF assms(1) _ ok] sound storage_kind.wf_kind [OF assms(1) ok]
      by (simp add: conf_sound_def)
  qed
  show "wf_conf c' \<and> conf_sound c'" if ok: "exec AddPolicy UpdatePolicy DeletePolicy q c = Ok c'"
  proof -
    have "refs_sound storages (uses brStorage) c' = refs_sound storages (uses brStorage) c"
      by (rule refs_sound_cong) (simp_all add: policy_kind.other_table [OF ok] policy_kind.other_uses [OF assms(1) ok])
    moreover have "refs_sound clusters (uses brSourceCluster) c' = refs_sound clusters (uses brSourceCluster) c"
      by (rule refs_sound_cong) (simp_all add: policy_kind.other_table [OF ok] policy_kind.other_uses [OF assms(1) ok])
    ultimately show ?thesis
      using policy_table.exec_sound [OF assms(1) _ ok] sound policy_kind.wf_kind [OF assms(1) ok]
      by (simp add: conf_sound_def)
  qed
  show "wf_conf c' \<and> conf_sound c'" if ok: "exec AddCluster UpdateCluster DeleteCluster q c = Ok c'"
  proof -
    have "refs_sound storages (uses brStorage) c' = refs_sound storages (uses brStorage) c"
      by (rule refs_sound_cong) (simp_all add: cluster_kind.other_table [OF ok] cluster_kind.other_uses [OF assms(1) ok])
    moreover have "refs_sound policies (uses brBackupPolicy) c' = refs_sound policies (uses brBackupPolicy) c"
      by (rule refs_sound_cong) (simp_all add: cluster_kind.other_table [OF ok] cluster_kind.other_uses [OF assms(1) ok])
    ultimately show ?thesis
      using cluster_table.exec_sound [OF assms(1) _ ok] sound cluster_kind.wf_kind [OF assms(1) ok]
      by (simp add: conf_sound_def)
  qed
qed

lemma wf_conf_names: "wf_conf c \<Longrightarrow> routines c n = Some p \<Longrightarrow> n \<noteq> []"
  by (auto simp: wf_conf_def routines_ok_def dest!: lookup_in_set)

lemma with_routine_fits:
  assumes "wf_conf c" and "stRoutines (fst c) a = None"
  shows "wf_conf (with_routine a r c)" and "n \<noteq> [] \<Longrightarrow> routine_fits (with_routine a r c) n (Some a)"
    and "routine_at (with_routine a r c) m = routine_at c m"
proof -
  have eq: "deref_routine (fst (with_routine a r c)) p = (if p = Some a then Some r else deref_routine (fst c) p)" for p
    by (auto simp: with_routine_def deref_routine_def split: option.splits)
  show "wf_conf (with_routine a r c)"
    using assms(1) eq by (auto simp: wf_conf_def routines_ok_def with_routine_def)
  show "n \<noteq> [] \<Longrightarrow> routine_fits (with_routine a r c) n (Some a)" by (simp add: routine_fits_def eq)
  have "p \<noteq> Some a" if "routines c m = Some p" for p
    using that assms by (auto simp: wf_conf_def routines_ok_def deref_routine_def dest!: lookup_in_set)
  then show "routine_at (with_routine a r c) m = routine_at c m"
    by (auto simp: routine_at_def eq split: option.splits) (simp_all add: with_routine_def)
qed

text \<open>Putting a routine whose references are in the tables under a name keeps the references sound.\<close>

lemma put_sound:
  assumes "wf_conf c" and "conf_sound c" and "refers_into c r" and "stRoutines (fst c) a = None"
    and "n \<noteq> []"
    and c': "c' = (fst (with_routine a r c),
                   (snd c)\<lparr>cfBackupRoutines := insert_key n (Some a) (cfBackupRoutines (snd c))\<rparr>)"
  shows "wf_conf c' \<and> conf_sound c'"
proof -
  note fits = with_routine_fits [OF assms(1,4)]
  have at: "routine_at c' m = (if m = n then Some r else routine_at c m)" for m
    using fits(3) [of r m] c'
    by (auto simp: routine_at_def with_routine_def deref_routine_def split: option.splits)
  have "wf_conf c'" using fits(1) [of r] fits(2) [OF assms(5), of r] c'
    by (auto simp: wf_conf_def with_routine_def routine_fits_def intro!: routines_ok_insert)
  moreover have "conf_sound c'"
    using assms(2,3) at c'
    by (auto simp: conf_sound_def refs_sound_def uses_def refers_into_def split: if_splits)
  ultimately show ?thesis ..
qed

lemma config_step_sound:
  assumes "config_step c c'" and wf: "wf_conf c" and sound: "conf_sound c"
  shows "wf_conf c' \<and> conf_sound c'"
  using assms(1)
proof cases
  case (routine_added r n a)
  then show ?thesis using put_sound [OF wf sound routine_added(1,3,2)]
    by (auto simp: AddRoutine_def with_routine_def split: if_splits)
next
  case (routine_updated r a n)
  then have "n \<noteq> []" using wf_conf_names [OF wf]
    by (auto simp: UpdateRoutine_def with_routine_def split: if_splits)
  with routine_updated show ?thesis using put_sound [OF wf sound routine_updated(1,2)]
    by (auto simp: UpdateRoutine_def with_routine_def split: if_splits)
next
  case (routine_deleted n)
  then have c': "c' = (fst c, (snd c)\<lparr>cfBackupRoutines := delete_key n (cfBackupRoutines (snd c))\<rparr>)"
    by (auto simp: DeleteRoutine_def split: if_splits)
  have at: "routine_at c' m = (if m = n then None else routine_at c m)" for m
    using c' by (auto simp: routine_at_def split: option.splits)
  have "wf_conf c'" using wf c' by (auto simp: wf_conf_def intro: routines_ok_delete)
  moreover have "conf_sound c'"
    using sound at c' by (auto simp: conf_sound_def refs_sound_def uses_def split: if_splits)
  ultimately show ?thesis ..
qed (use request_sound [OF wf sound] in blast)+

lemma initial_sound: "wf_conf (emptyStore, NewConfig) \<and> conf_sound (emptyStore, NewConfig)"
  by (simp add: wf_conf_def NewConfig_def conf_sound_def refs_sound_def uses_def routine_at_def)

lemma reachable_inv: "config_step\<^sup>*\<^sup>* (emptyStore, NewConfig) c \<Longrightarrow> wf_conf c \<and> conf_sound c"
  by (induction rule: rtranclp_induct) (use initial_sound config_step_sound in blast)+

section \<open>What the configuration guarantees\<close>

text \<open>
  C10: Every request on the configuration does what a table of names does: adding fails exactly
  when the name is taken, updating and deleting fail exactly when it is missing, deleting a
  storage, policy or cluster fails exactly when a routine refers to it, and otherwise the table
  changes at that name only. No request panics.
\<close>

theorem config_requests_refine:
  "wf_conf c \<longrightarrow>
     abs_outcome storages (exec AddStorage UpdateStorage DeleteStorage q c) =
       abs_step (holds brStorage c) q (storages c) \<and>
     abs_outcome policies (exec AddPolicy UpdatePolicy DeletePolicy q c) =
       abs_step (holds brBackupPolicy c) q (policies c) \<and>
     abs_outcome clusters (exec AddCluster UpdateCluster DeleteCluster q c) =
       abs_step (holds brSourceCluster c) q (clusters c) \<and>
     abs_outcome routines (exec AddRoutine UpdateRoutine DeleteRoutine q c) =
       abs_step (\<lambda>v. False) q (routines c)"
  by (intro impI conjI storage_table.refines policy_table.refines cluster_table.refines routine_table.refines)

text \<open>
  C26: Updating a storage, policy or cluster makes every routine that referred to the old object
  refer to the new one, and changes no other reference of any routine.
\<close>

theorem update_rewires_routines:
  assumes "wf_conf c"
  shows "(storages c n = Some old \<and> UpdateStorage n v c = Ok c' \<longrightarrow>
            (\<forall>r. uses brStorage c' r = (if uses brStorage c r = Some old then Some v else uses brStorage c r)) \<and>
            uses brBackupPolicy c' = uses brBackupPolicy c \<and> uses brSourceCluster c' = uses brSourceCluster c) \<and>
         (policies c n = Some old \<and> UpdatePolicy n v c = Ok c' \<longrightarrow>
            (\<forall>r. uses brBackupPolicy c' r = (if uses brBackupPolicy c r = Some old then Some v else uses brBackupPolicy c r)) \<and>
            uses brStorage c' = uses brStorage c \<and> uses brSourceCluster c' = uses brSourceCluster c) \<and>
         (clusters c n = Some old \<and> UpdateCluster n v c = Ok c' \<longrightarrow>
            (\<forall>r. uses brSourceCluster c' r = (if uses brSourceCluster c r = Some old then Some v else uses brSourceCluster c r)) \<and>
            uses brStorage c' = uses brStorage c \<and> uses brBackupPolicy c' = uses brBackupPolicy c)"
  using storage_table.upd_refers [OF assms, of n old v c'] policy_table.upd_refers [OF assms, of n old v c']
    cluster_table.upd_refers [OF assms, of n old v c']
    storage_kind.other_uses [OF assms, of "UpdateCmd n v" c'] policy_kind.other_uses [OF assms, of "UpdateCmd n v" c']
    cluster_kind.other_uses [OF assms, of "UpdateCmd n v" c']
  by (intro conjI impI allI; elim conjE) simp_all

text \<open>
  C1: In every configuration the service reaches from the empty one by accepted requests, each
  storage, policy and cluster a routine refers to is an entry of the configuration.
\<close>

theorem references_stay_valid:
  "config_step\<^sup>*\<^sup>* (emptyStore, NewConfig) c \<Longrightarrow> wf_conf c \<and> conf_sound c"
  by (rule reachable_inv)

section \<open>A concrete configuration\<close>

definition demo_routine :: BackupRoutine where
  "demo_routine =
     \<lparr>brBackupPolicy = Some 1, brSourceCluster = Some 2, brStorage = Some 3, brSecretAgent = None,
      brIntervalCron = ''@daily'', brIncrIntervalCron = [], brNamespaces = [''test''], brSetList = [],
      brBinList = [], brPreferRacks = [], brPartitionList = None\<rparr>"

definition demo_conf :: conf where
  "demo_conf =
     (emptyStore\<lparr>stRoutines := [0 \<mapsto> demo_routine]\<rparr>,
      NewConfig\<lparr>cfStorage := [(''s'', Some 3)], cfBackupPolicies := [(''p'', Some 1)],
                cfAerospikeClusters := [(''c'', Some 2)], cfBackupRoutines := [(''r'', Some 0)]\<rparr>)"

definition demo_conf_updated :: conf where
  "demo_conf_updated =
     ((fst demo_conf)\<lparr>stRoutines := [0 \<mapsto> demo_routine\<lparr>brStorage := Some 7\<rparr>]\<rparr>,
      (snd demo_conf)\<lparr>cfStorage := [(''s'', Some 7)]\<rparr>)"

lemmas demo_defs = demo_conf_updated_def demo_conf_def demo_routine_def emptyStore_def NewConfig_def

lemma demo_conf_wf: "wf_conf demo_conf"
  by (simp add: demo_defs wf_conf_def deref_routine_def)

lemma demo_conf_update: "UpdateStorage ''s'' (Some 7) demo_conf = Ok demo_conf_updated"
  by (simp add: UpdateStorage_def demo_defs)

lemma demo_conf_reached: "config_step\<^sup>*\<^sup>* (emptyStore, NewConfig) demo_conf"
proof -
  let ?c1 = "(emptyStore, NewConfig\<lparr>cfStorage := [(''s'', Some 3)]\<rparr>)"
  let ?c2 = "(emptyStore, (snd ?c1)\<lparr>cfBackupPolicies := [(''p'', Some 1)]\<rparr>)"
  let ?c3 = "(emptyStore, (snd ?c2)\<lparr>cfAerospikeClusters := [(''c'', Some 2)]\<rparr>)"
  have s1: "config_step (emptyStore, NewConfig) ?c1"
    by (rule storage_request [of "AddCmd ''s'' (Some 3)"]) (simp add: AddStorage_def NewConfig_def)
  have s2: "config_step ?c1 ?c2"
    by (rule policy_request [of "AddCmd ''p'' (Some 1)"]) (simp add: AddPolicy_def NewConfig_def)
  have s3: "config_step ?c2 ?c3"
    by (rule cluster_request [of "AddCmd ''c'' (Some 2)"]) (simp add: AddCluster_def NewConfig_def)
  have s4: "config_step ?c3 demo_conf"
    by (rule routine_added [of _ demo_routine "''r''" 0])
      (simp_all add: refers_into_def demo_defs AddRoutine_def with_routine_def)
  show ?thesis using s1 s2 s3 s4
    by (meson converse_rtranclp_into_rtranclp rtranclp.rtrancl_refl)
qed

theorem config_requests_refine_witness:
  "abs_outcome storages (exec AddStorage UpdateStorage DeleteStorage (DeleteCmd ''s'') demo_conf) = Err Busy"
proof -
  have "uses brStorage demo_conf ''r'' = Some (Some 3)"
    by (simp add: uses_def routine_at_def deref_routine_def demo_defs)
  then have "holds brStorage demo_conf (Some 3)" unfolding holds_def by blast
  moreover have "storages demo_conf ''s'' = Some (Some 3)" by (simp add: demo_conf_def)
  ultimately show ?thesis
    using config_requests_refine [of demo_conf "DeleteCmd ''s''"] demo_conf_wf by simp
qed

theorem update_rewires_routines_witness:
  "UpdateStorage ''s'' (Some 7) demo_conf = Ok demo_conf_updated \<and>
   uses brStorage demo_conf_updated ''r'' = Some (Some 7)"
proof -
  have "uses brStorage demo_conf ''r'' = Some (Some 3)" and "storages demo_conf ''s'' = Some (Some 3)"
    by (simp_all add: uses_def routine_at_def deref_routine_def demo_defs)
  then show ?thesis
    using update_rewires_routines [OF demo_conf_wf, of "''s''" "Some 3" "Some 7" demo_conf_updated]
      demo_conf_update by simp
qed

theorem references_stay_valid_witness:
  "config_step\<^sup>*\<^sup>* (emptyStore, NewConfig) demo_conf \<and> uses brStorage demo_conf ''r'' = Some (Some 3) \<and>
   wf_conf demo_conf \<and> conf_sound demo_conf"
  using references_stay_valid [OF demo_conf_reached] demo_conf_reached
  by (simp add: uses_def routine_at_def deref_routine_def demo_defs)

end
