(* ===== verification/DtoConfig.thy ===== *)
theory DtoConfig
  imports DtoEntities ConfigRefs
begin

text \<open>
  The documents of the service configuration (\<open>pkg/dto/http_server_config.go\<close>,
  \<open>logger_config.go\<close>, \<open>backup_service_config.go\<close>), of routines (\<open>backup_routine.go\<close>) and of the
  whole configuration (\<open>config.go\<close>). Converting to the model allocates the objects in the store;
  converting back finds the names of shared objects by their address.
\<close>

section \<open>The service's own settings\<close>

record DtoRateLimiterConfig =
  drlTps :: "goint option"
  drlSize :: "goint option"
  drlWhiteList :: "string list option"

record DtoHTTPServerConfig =
  dhsAddress :: "string option"
  dhsPort :: "goint option"
  dhsRate :: "DtoRateLimiterConfig option"
  dhsContextPath :: "string option"
  dhsTimeout :: "goint option"

record DtoFileLoggerConfig =
  dflFilename :: string
  dflMaxSize :: goint
  dflMaxAge :: goint
  dflMaxBackups :: goint
  dflCompress :: bool

record DtoLoggerConfig =
  dlcLevel :: "string option"
  dlcFormat :: "string option"
  dlcStdoutWriter :: "bool option"
  dlcFileWriter :: "DtoFileLoggerConfig option"

record DtoBackupServiceConfig =
  dscHTTPServer :: "DtoHTTPServerConfig option"
  dscLogger :: "DtoLoggerConfig option"

definition validateHTTPServer :: "DtoHTTPServerConfig option \<Rightarrow> unit checked" where
  "validateHTTPServer p =
     (case p of
        None \<Rightarrow> Ok ()
      | Some s \<Rightarrow>
          if dhsContextPath s \<noteq> None \<and> \<not> HasPrefix (the (dhsContextPath s)) ''/''
          then Err (Message (''context-path must start with a slash: '' @ the (dhsContextPath s)))
          else if negative (dhsTimeout s)
          then Err (Message (''timeout cannot be negative: '' @ decimal (the (dhsTimeout s))))
          else Ok ())"

definition rateToModel :: "DtoRateLimiterConfig option \<Rightarrow> RateLimiterConfig option" where
  "rateToModel p =
     (case p of
        None \<Rightarrow> None
      | Some r \<Rightarrow> Some \<lparr>rlTps = drlTps r, rlSize = drlSize r, rlWhiteList = drlWhiteList r\<rparr>)"

definition httpToModel :: "DtoHTTPServerConfig option \<Rightarrow> HTTPServerConfig option" where
  "httpToModel p =
     (case p of
        None \<Rightarrow> None
      | Some s \<Rightarrow> Some \<lparr>hsAddress = dhsAddress s, hsPort = dhsPort s, hsRate = rateToModel (dhsRate s),
                        hsContextPath = dhsContextPath s, hsTimeout = dhsTimeout s\<rparr>)"

definition newRate :: DtoRateLimiterConfig where
  "newRate = \<lparr>drlTps = None, drlSize = None, drlWhiteList = None\<rparr>"

definition rateFromModel :: "RateLimiterConfig option \<Rightarrow> DtoRateLimiterConfig \<Rightarrow> DtoRateLimiterConfig" where
  "rateFromModel p r =
     (case p of
        None \<Rightarrow> r
      | Some m \<Rightarrow> r\<lparr>drlTps := rlTps m, drlSize := rlSize m, drlWhiteList := rlWhiteList m\<rparr>)"

definition httpFromModel :: "HTTPServerConfig \<Rightarrow> DtoHTTPServerConfig" where
  "httpFromModel m =
     \<lparr>dhsAddress = hsAddress m, dhsPort = hsPort m, dhsRate = Some (rateFromModel (hsRate m) newRate),
      dhsContextPath = hsContextPath m, dhsTimeout = hsTimeout m\<rparr>"

definition validateFileLogger :: "DtoFileLoggerConfig option \<Rightarrow> DtoFileLoggerConfig option checked" where
  "validateFileLogger p =
     (case p of
        None \<Rightarrow> Ok None
      | Some f \<Rightarrow>
          if dflFilename f = [] then Err (emptyFieldValidationError ''logger file'')
          else if sint (dflMaxSize f) < 0
          then Err (Message (''negative logger MaxSize: '' @ decimal (dflMaxSize f)))
          else let f = (if dflMaxSize f = 0 then f\<lparr>dflMaxSize := 100\<rparr> else f) in
            if sint (dflMaxAge f) < 0
            then Err (Message (''negative logger MaxAge: '' @ decimal (dflMaxAge f)))
            else if sint (dflMaxBackups f) < 0
            then Err (Message (''negative logger MaxBackups: '' @ decimal (dflMaxBackups f)))
            else Ok (Some f))"

definition validLoggerLevels :: "string list" where
  "validLoggerLevels = [''TRACE'', ''DEBUG'', ''INFO'', ''WARN'', ''WARNING'', ''ERROR'']"

definition supportedLoggerFormats :: "string list" where
  "supportedLoggerFormats = [''PLAIN'', ''JSON'']"

definition validateLogger :: "DtoLoggerConfig option \<Rightarrow> DtoLoggerConfig option checked" where
  "validateLogger p =
     (case p of
        None \<Rightarrow> Ok None
      | Some l \<Rightarrow>
          if dlcLevel l \<noteq> None \<and> \<not> List.member validLoggerLevels (the (dlcLevel l))
          then Err (Message (''invalid logger level: '' @ the (dlcLevel l)))
          else if dlcFormat l \<noteq> None \<and> \<not> List.member supportedLoggerFormats (the (dlcFormat l))
          then Err (Message (''invalid logger format: '' @ the (dlcFormat l)))
          else and_then (validateFileLogger (dlcFileWriter l)) (\<lambda>f.
               Ok (Some (l\<lparr>dlcFileWriter := f\<rparr>))))"

definition fileLoggerToModel :: "DtoFileLoggerConfig option \<Rightarrow> FileLoggerConfig option" where
  "fileLoggerToModel p =
     (case p of
        None \<Rightarrow> None
      | Some f \<Rightarrow> Some \<lparr>flFilename = dflFilename f, flMaxSize = dflMaxSize f, flMaxAge = dflMaxAge f,
                        flMaxBackups = dflMaxBackups f, flCompress = dflCompress f\<rparr>)"

definition loggerToModel :: "DtoLoggerConfig option \<Rightarrow> LoggerConfig option" where
  "loggerToModel p =
     (case p of
        None \<Rightarrow> None
      | Some l \<Rightarrow> Some \<lparr>lcLevel = dlcLevel l, lcFormat = dlcFormat l, lcStdoutWriter = dlcStdoutWriter l,
                        lcFileWriter = fileLoggerToModel (dlcFileWriter l)\<rparr>)"

definition fileLoggerFromModel :: "FileLoggerConfig \<Rightarrow> DtoFileLoggerConfig" where
  "fileLoggerFromModel m =
     \<lparr>dflFilename = flFilename m, dflMaxSize = flMaxSize m, dflMaxAge = flMaxAge m,
      dflMaxBackups = flMaxBackups m, dflCompress = flCompress m\<rparr>"

definition loggerFromModel :: "LoggerConfig \<Rightarrow> DtoLoggerConfig" where
  "loggerFromModel m =
     \<lparr>dlcLevel = lcLevel m, dlcFormat = lcFormat m, dlcStdoutWriter = lcStdoutWriter m,
      dlcFileWriter = map_option fileLoggerFromModel (lcFileWriter m)\<rparr>"

definition serviceToModel :: "DtoBackupServiceConfig \<Rightarrow> BackupServiceConfig" where
  "serviceToModel b = \<lparr>scHTTPServer = httpToModel (dscHTTPServer b), scLogger = loggerToModel (dscLogger b)\<rparr>"

definition serviceFromModel :: "BackupServiceConfig \<Rightarrow> DtoBackupServiceConfig \<Rightarrow> DtoBackupServiceConfig" where
  "serviceFromModel m b =
     (let b1 = (case scHTTPServer m of None \<Rightarrow> b | Some h \<Rightarrow> b\<lparr>dscHTTPServer := Some (httpFromModel h)\<rparr>)
      in (case scLogger m of None \<Rightarrow> b1 | Some l \<Rightarrow> b1\<lparr>dscLogger := Some (loggerFromModel l)\<rparr>))"

section \<open>Routines\<close>

record DtoBackupRoutine =
  dbrBackupPolicy :: string
  dbrSourceCluster :: string
  dbrStorage :: string
  dbrSecretAgent :: "string option"
  dbrIntervalCron :: string
  dbrIncrIntervalCron :: string
  dbrNamespaces :: "string list"
  dbrSetList :: "string list"
  dbrBinList :: "string list"
  dbrPreferRacks :: "goint list"
  dbrPartitionList :: "string option"

definition maxRack :: int where
  "maxRack = 1000000"

fun validateRacks :: "goint list \<Rightarrow> unit checked" where
  "validateRacks [] = Ok ()"
| "validateRacks (rack # racks) =
     (if sint rack < 0
      then Err (Message (''rack id '' @ decimal rack @ '' invalid, should be positive number''))
      else if maxRack < sint rack
      then Err (Message (''rack id '' @ decimal rack @ '' invalid, should not exceed 1000000''))
      else validateRacks racks)"

text \<open>
  \<open>cron\<close> stands for \<open>quartz.ValidateCronExpression\<close>: the message of its error, or \<open>None\<close> when it
  accepts the expression. Validating a nil routine dereferences it.
\<close>

definition validateRoutine :: "(string \<Rightarrow> string option) \<Rightarrow> DtoBackupRoutine option \<Rightarrow> unit checked" where
  "validateRoutine cron p =
     (case p of
        None \<Rightarrow> Panic NilDereference
      | Some r \<Rightarrow>
          if dbrBackupPolicy r = [] then Err (emptyFieldValidationError ''backup policy'')
          else if dbrSourceCluster r = [] then Err (emptyFieldValidationError ''source-cluster'')
          else if dbrStorage r = [] then Err (emptyFieldValidationError ''storage'')
          else (case cron (dbrIntervalCron r) of
            Some e \<Rightarrow> Err (Message (''backup interval string '' @ [CHR 0x27] @ dbrIntervalCron r @ [CHR 0x27] @
                                    '' invalid: '' @ e))
          | None \<Rightarrow>
          (case (if dbrIncrIntervalCron r \<noteq> [] then cron (dbrIncrIntervalCron r) else None) of
            Some e \<Rightarrow> Err (Message (''incremental backup interval string '' @ [CHR 0x27] @ dbrIntervalCron r @
                                    [CHR 0x27] @ '' invalid: '' @ e))
          | None \<Rightarrow>
              and_then (validateRacks (dbrPreferRacks r)) (\<lambda>_.
              if dbrSecretAgent r = Some [] then Err (emptyFieldValidationError ''secret-agent'')
              else Ok ()))))"

text \<open>\<open>ToModel\<close> reads the tables of the configuration and the cluster object it finds there.\<close>

definition routineToModel :: "DtoBackupRoutine \<Rightarrow> conf \<Rightarrow> BackupRoutine checked" where
  "routineToModel r c =
     (case lookup (cfBackupPolicies (snd c)) (dbrBackupPolicy r) of
        None \<Rightarrow> Err (notFoundValidationError ''backup policy'' (dbrBackupPolicy r))
      | Some policy \<Rightarrow>
     (case lookup (cfAerospikeClusters (snd c)) (dbrSourceCluster r) of
        None \<Rightarrow> Err (notFoundValidationError ''Aerospike cluster'' (dbrSourceCluster r))
      | Some cluster \<Rightarrow>
     (case (case cluster of None \<Rightarrow> None | Some a \<Rightarrow> stClusters (fst c) a) of
        None \<Rightarrow> Panic NilDereference
      | Some clusterObject \<Rightarrow>
          if (case acMaxParallelScans clusterObject of
                None \<Rightarrow> False | Some scans \<Rightarrow> sint scans < int (length (dbrSetList r)))
          then Err (Message ''max parallel scans must be at least the cardinality of set-list'')
          else
     (case lookup (cfStorage (snd c)) (dbrStorage r) of
        None \<Rightarrow> Err (notFoundValidationError ''storage'' (dbrStorage r))
      | Some storage \<Rightarrow>
          and_then
            (case dbrSecretAgent r of
               None \<Rightarrow> Ok None
             | Some name \<Rightarrow>
                 (case lookup (cfSecretAgents (snd c)) name of
                    None \<Rightarrow> Err (notFoundValidationError ''secret agent'' name)
                  | Some agent \<Rightarrow> Ok agent))
            (\<lambda>secretAgent.
               Ok \<lparr>brBackupPolicy = policy,
                   brSourceCluster = cluster,
                   brStorage = storage,
                   brSecretAgent = secretAgent,
                   brIntervalCron = dbrIntervalCron r,
                   brIncrIntervalCron = dbrIncrIntervalCron r,
                   brNamespaces = dbrNamespaces r,
                   brSetList = dbrSetList r,
                   brBinList = dbrBinList r,
                   brPreferRacks = dbrPreferRacks r,
                   brPartitionList = dbrPartitionList r\<rparr>)))))"

definition NewRoutineFromReader ::
  "(string \<Rightarrow> string option) \<Rightarrow> DtoBackupRoutine decoders \<Rightarrow> SerializationFormat \<Rightarrow> DtoBackupRoutine checked" where
  "NewRoutineFromReader cron r format =
     and_then (Deserialize r format) (\<lambda>b.
     and_then (validateRoutine cron (Some b)) (\<lambda>_. Ok b))"

text \<open>The loops that look a name up by address; \<open>findStorageKey\<close> is the same loop on storage.\<close>

fun findKeyByValue :: "(string, ptr) gomap \<Rightarrow> ptr \<Rightarrow> string" where
  "findKeyByValue [] value = []"
| "findKeyByValue ((k, v) # m) value = (if v = value then k else findKeyByValue m value)"

fun findStorageKey :: "(string, ptr) gomap \<Rightarrow> ptr \<Rightarrow> string" where
  "findStorageKey [] targetStorage = []"
| "findStorageKey ((key, storage) # m) targetStorage =
     (if storage = targetStorage then key else findStorageKey m targetStorage)"

definition routineFromModel :: "BackupRoutine \<Rightarrow> Config \<Rightarrow> DtoBackupRoutine" where
  "routineFromModel m config =
     \<lparr>dbrBackupPolicy = findKeyByValue (cfBackupPolicies config) (brBackupPolicy m),
      dbrSourceCluster = findKeyByValue (cfAerospikeClusters config) (brSourceCluster m),
      dbrStorage = findStorageKey (cfStorage config) (brStorage m),
      dbrSecretAgent = (if brSecretAgent m \<noteq> None
                        then Some (findKeyByValue (cfSecretAgents config) (brSecretAgent m)) else None),
      dbrIntervalCron = brIntervalCron m,
      dbrIncrIntervalCron = brIncrIntervalCron m,
      dbrNamespaces = brNamespaces m,
      dbrSetList = brSetList m,
      dbrBinList = brBinList m,
      dbrPreferRacks = brPreferRacks m,
      dbrPartitionList = brPartitionList m\<rparr>"

definition NewRoutineFromModel :: "BackupRoutine option \<Rightarrow> Config option \<Rightarrow> DtoBackupRoutine option" where
  "NewRoutineFromModel p q =
     (case (p, q) of (Some m, Some config) \<Rightarrow> Some (routineFromModel m config) | _ \<Rightarrow> None)"

end
