(* ===== verification/DtoConfigFile.thy ===== *)
theory DtoConfigFile
  imports DtoConfig
begin

text \<open>
  The document of the whole configuration (\<open>pkg/dto/config.go\<close>): validation, the conversion to
  the model with its allocations, and the conversion back. The theorems are in DtoConfigProps.
\<close>

section \<open>Allocation\<close>

definition newCluster :: "AerospikeCluster \<Rightarrow> store \<Rightarrow> store \<times> ptr" where
  "newCluster v st =
     (st\<lparr>stClusters := (stClusters st)(stNext st \<mapsto> v), stNext := stNext st + 1\<rparr>, Some (stNext st))"

definition newPolicy :: "BackupPolicy \<Rightarrow> store \<Rightarrow> store \<times> ptr" where
  "newPolicy v st =
     (st\<lparr>stPolicies := (stPolicies st)(stNext st \<mapsto> v), stNext := stNext st + 1\<rparr>, Some (stNext st))"

definition newRoutine :: "BackupRoutine \<Rightarrow> store \<Rightarrow> store \<times> ptr" where
  "newRoutine v st =
     (st\<lparr>stRoutines := (stRoutines st)(stNext st \<mapsto> v), stNext := stNext st + 1\<rparr>, Some (stNext st))"

text \<open>Storage and secret agents convert to nil when there is nothing to convert.\<close>

definition newStorageObject :: "Storage option \<Rightarrow> store \<Rightarrow> store \<times> ptr" where
  "newStorageObject p st =
     (case p of
        None \<Rightarrow> (st, None)
      | Some v \<Rightarrow>
          (st\<lparr>stStorages := (stStorages st)(stNext st \<mapsto> v), stNext := stNext st + 1\<rparr>, Some (stNext st)))"

definition newAgent :: "SecretAgent option \<Rightarrow> store \<Rightarrow> store \<times> ptr" where
  "newAgent p st =
     (case p of
        None \<Rightarrow> (st, None)
      | Some v \<Rightarrow>
          (st\<lparr>stAgents := (stAgents st)(stNext st \<mapsto> v), stNext := stNext st + 1\<rparr>, Some (stNext st)))"

section \<open>The document\<close>

record DtoConfig =
  dcfServiceConfig :: DtoBackupServiceConfig
  dcfAerospikeClusters :: "(string, DtoAerospikeCluster option) gomap"
  dcfStorage :: "(string, DtoStorage option) gomap"
  dcfBackupPolicies :: "(string, DtoBackupPolicy option) gomap"
  dcfBackupRoutines :: "(string, DtoBackupRoutine option) gomap"
  dcfSecretAgents :: "(string, DtoSecretAgent option) gomap"

definition NewConfigWithDefaultValues :: DtoConfig where
  "NewConfigWithDefaultValues =
     \<lparr>dcfServiceConfig =
        \<lparr>dscHTTPServer = Some \<lparr>dhsAddress = None, dhsPort = None, dhsRate = None, dhsContextPath = None,
                              dhsTimeout = None\<rparr>,
         dscLogger = Some \<lparr>dlcLevel = None, dlcFormat = None, dlcStdoutWriter = None, dlcFileWriter = None\<rparr>\<rparr>,
      dcfAerospikeClusters = [], dcfStorage = [], dcfBackupPolicies = [], dcfBackupRoutines = [],
      dcfSecretAgents = []\<rparr>"

text \<open>A loop over a map that stops at the first error.\<close>

fun eachEntry :: "(string \<Rightarrow> 'v \<Rightarrow> 's \<Rightarrow> 's checked) \<Rightarrow> (string, 'v) gomap \<Rightarrow> 's \<Rightarrow> 's checked" where
  "eachEntry f [] s = Ok s"
| "eachEntry f ((k, v) # m) s = and_then (f k v s) (eachEntry f m)"

section \<open>Conversion to the model\<close>

definition added :: "conf_result \<Rightarrow> conf checked" where
  "added r = map_err FromConfig r"

definition addClusterEntry :: "string \<Rightarrow> DtoAerospikeCluster option \<Rightarrow> conf \<Rightarrow> conf checked" where
  "addClusterEntry k v c =
     (case v of
        None \<Rightarrow> Panic NilDereference
      | Some a \<Rightarrow> let (st, p) = newCluster (clusterToModel a) (fst c) in added (AddCluster k p (st, snd c)))"

definition addStorageEntry :: "string \<Rightarrow> DtoStorage option \<Rightarrow> conf \<Rightarrow> conf checked" where
  "addStorageEntry k v c =
     (case v of
        None \<Rightarrow> Panic NilDereference
      | Some s \<Rightarrow> let (st, p) = newStorageObject (storageToModel s) (fst c) in added (AddStorage k p (st, snd c)))"

definition addPolicyEntry :: "string \<Rightarrow> DtoBackupPolicy option \<Rightarrow> conf \<Rightarrow> conf checked" where
  "addPolicyEntry k v c =
     (case v of
        None \<Rightarrow> Panic NilDereference
      | Some b \<Rightarrow> let (st, p) = newPolicy (backupPolicyToModel b) (fst c) in added (AddPolicy k p (st, snd c)))"

definition addAgentEntry :: "string \<Rightarrow> DtoSecretAgent option \<Rightarrow> conf \<Rightarrow> conf checked" where
  "addAgentEntry k v c =
     (let (st, p) = newAgent (secretAgentToModel v) (fst c) in added (AddSecretAgent k p (st, snd c)))"

definition addRoutineEntry :: "string \<Rightarrow> DtoBackupRoutine option \<Rightarrow> conf \<Rightarrow> conf checked" where
  "addRoutineEntry k v c =
     (case v of
        None \<Rightarrow> Panic NilDereference
      | Some r \<Rightarrow>
          and_then (routineToModel r c) (\<lambda>toModel.
          let (st, p) = newRoutine toModel (fst c) in added (AddRoutine k p (st, snd c))))"

definition configToModel :: "DtoConfig \<Rightarrow> store \<Rightarrow> conf checked" where
  "configToModel c st =
     and_then (eachEntry addClusterEntry (dcfAerospikeClusters c)
                 (st, NewConfig\<lparr>cfServiceConfig := serviceToModel (dcfServiceConfig c)\<rparr>)) (\<lambda>m1.
     and_then (eachEntry addStorageEntry (dcfStorage c) m1) (\<lambda>m2.
     and_then (eachEntry addPolicyEntry (dcfBackupPolicies c) m2) (\<lambda>m3.
     and_then (eachEntry addAgentEntry (dcfSecretAgents c) m3) (\<lambda>m4.
     eachEntry addRoutineEntry (dcfBackupRoutines c) m4))))"

section \<open>Validation\<close>

definition quoted :: "string \<Rightarrow> string" where
  "quoted s = [CHR 0x27] @ s @ [CHR 0x27]"

definition in_entry :: "string \<Rightarrow> string \<Rightarrow> 'a checked \<Rightarrow> 'a checked" where
  "in_entry kind name r =
     map_err (\<lambda>e. Message (kind @ '' '' @ quoted name @ '' validation error: '' @ error_text (\<lambda>_. []) e)) r"

definition checkRoutine :: "(string \<Rightarrow> string option) \<Rightarrow> string \<Rightarrow> DtoBackupRoutine option \<Rightarrow> unit \<Rightarrow> unit checked" where
  "checkRoutine cron name routine u =
     (if name = [] then Err (emptyFieldValidationError ''routine name'')
      else in_entry ''backup routine'' name (validateRoutine cron routine))"

definition checkStorage :: "string \<Rightarrow> DtoStorage option \<Rightarrow> unit \<Rightarrow> unit checked" where
  "checkStorage name s u =
     (if name = [] then Err (emptyFieldValidationError ''storage name'')
      else in_entry ''storage'' name (validateStorage s))"

definition checkCluster :: "string \<Rightarrow> DtoAerospikeCluster option \<Rightarrow> unit \<Rightarrow> unit checked" where
  "checkCluster name cluster u =
     (if name = [] then Err (emptyFieldValidationError ''cluster name'')
      else in_entry ''cluster'' name (validateCluster cluster))"

text \<open>Validating a policy may fill in its compression level, so this loop rebuilds the map.\<close>

definition checkPolicy ::
  "string \<Rightarrow> DtoBackupPolicy option \<Rightarrow> (string, DtoBackupPolicy option) gomap \<Rightarrow>
   (string, DtoBackupPolicy option) gomap checked" where
  "checkPolicy name policy done =
     (if name = [] then Err (emptyFieldValidationError ''policy name'')
      else and_then (validateBackupPolicy policy) (\<lambda>p. Ok (done @ [(name, Some p)])))"

definition validateConfig :: "(string \<Rightarrow> string option) \<Rightarrow> DtoConfig \<Rightarrow> DtoConfig checked" where
  "validateConfig cron c =
     and_then (eachEntry (checkRoutine cron) (dcfBackupRoutines c) ()) (\<lambda>_.
     and_then (eachEntry checkStorage (dcfStorage c) ()) (\<lambda>_.
     and_then (eachEntry checkCluster (dcfAerospikeClusters c) ()) (\<lambda>_.
     and_then (eachEntry checkPolicy (dcfBackupPolicies c) []) (\<lambda>policies.
     and_then (validateHTTPServer (dscHTTPServer (dcfServiceConfig c))) (\<lambda>_.
     and_then (validateLogger (dscLogger (dcfServiceConfig c))) (\<lambda>logger.
     let c' = c\<lparr>dcfBackupPolicies := policies,
                dcfServiceConfig := (dcfServiceConfig c)\<lparr>dscLogger := logger\<rparr>\<rparr>
     in and_then (configToModel c' emptyStore) (\<lambda>_. Ok c')))))))"

definition NewConfigFromReader ::
  "(string \<Rightarrow> string option) \<Rightarrow> DtoConfig decoders \<Rightarrow> SerializationFormat \<Rightarrow> DtoConfig checked" where
  "NewConfigFromReader cron r format =
     and_then (Deserialize r format) (\<lambda>c. validateConfig cron c)"

section \<open>Conversion from the model\<close>

definition deref :: "('s \<Rightarrow> nat \<Rightarrow> 'v option) \<Rightarrow> 's \<Rightarrow> ptr \<Rightarrow> 'v option" where
  "deref h st p = (case p of None \<Rightarrow> None | Some a \<Rightarrow> h st a)"

fun mapEntries :: "('v \<Rightarrow> 'w checked) \<Rightarrow> (string, 'v) gomap \<Rightarrow> (string, 'w) gomap checked" where
  "mapEntries f [] = Ok []"
| "mapEntries f ((k, v) # m) = and_then (f v) (\<lambda>w. and_then (mapEntries f m) (\<lambda>r. Ok ((k, w) # r)))"

definition NewConfigFromModel :: "conf \<Rightarrow> DtoConfig checked" where
  "NewConfigFromModel m =
     (let st = fst m; cfg = snd m;
          service = serviceFromModel (cfServiceConfig cfg) \<lparr>dscHTTPServer = None, dscLogger = None\<rparr>
      in
     and_then (mapEntries (\<lambda>p. NewClusterFromModel (deref stClusters st p)) (cfAerospikeClusters cfg)) (\<lambda>clusters.
     and_then (mapEntries (\<lambda>p. Ok (NewStorageFromModel (deref stStorages st p))) (cfStorage cfg)) (\<lambda>storages.
     and_then (mapEntries (\<lambda>p. NewBackupPolicyFromModel (deref stPolicies st p)) (cfBackupPolicies cfg)) (\<lambda>policies.
     and_then (mapEntries (\<lambda>p. Ok (NewRoutineFromModel (deref stRoutines st p) (Some cfg)))
                 (cfBackupRoutines cfg)) (\<lambda>routines.
     and_then (mapEntries (\<lambda>p. Ok (NewSecretAgentFromModel (deref stAgents st p))) (cfSecretAgents cfg)) (\<lambda>agents.
     Ok \<lparr>dcfServiceConfig = service, dcfAerospikeClusters = clusters, dcfStorage = storages,
         dcfBackupPolicies = policies, dcfBackupRoutines = routines, dcfSecretAgents = agents\<rparr>))))))"

end
