(* ===== verification/DtoConfigLoad.thy ===== *)
theory DtoConfigLoad
  imports DtoConfigFile
begin

text \<open>
  What \<open>Config.ToModel\<close> builds. Each of its five loops fills one table with freshly allocated
  objects; the locale \<open>document_table\<close> is that shape, interpreted on the five loop bodies: what ends
  up in each table, and that the objects of the tables are distinct and new.
\<close>

section \<open>The store grows\<close>

definition extends :: "store \<Rightarrow> store \<Rightarrow> bool" where
  "extends st st' \<longleftrightarrow> stNext st \<le> stNext st' \<and>
     (\<forall>a < stNext st. stClusters st' a = stClusters st a \<and> stStorages st' a = stStorages st a \<and>
        stPolicies st' a = stPolicies st a \<and> stRoutines st' a = stRoutines st a \<and>
        stAgents st' a = stAgents st a)"

definition fresh :: "store \<Rightarrow> bool" where
  "fresh st \<longleftrightarrow>
     (\<forall>a. stNext st \<le> a \<longrightarrow> stClusters st a = None \<and> stStorages st a = None \<and> stPolicies st a = None \<and>
        stRoutines st a = None \<and> stAgents st a = None)"

definition valid :: "store \<Rightarrow> ptr \<Rightarrow> bool" where
  "valid st p \<longleftrightarrow> (\<forall>a. p = Some a \<longrightarrow> a < stNext st)"

lemma extends_refl [simp]: "extends st st"
  by (simp add: extends_def)

lemma extends_trans: "extends st st' \<Longrightarrow> extends st' st'' \<Longrightarrow> extends st st''"
  by (auto simp: extends_def)

lemma valid_extends: "valid st p \<Longrightarrow> extends st st' \<Longrightarrow> valid st' p"
  by (auto simp: valid_def extends_def)

lemma fresh_empty [simp]: "fresh emptyStore"
  by (simp add: fresh_def emptyStore_def)

lemmas alloc_defs = newCluster_def newPolicy_def newRoutine_def newStorageObject_def newAgent_def

section \<open>A loop that fills a table\<close>

text \<open>
  \<open>built heap conv st doc t\<close>: table \<open>t\<close> has the entries of the document in their order, each a
  pointer to an object \<open>conv v\<close>, and no two entries share an object.
\<close>

definition built :: "(store \<Rightarrow> nat \<Rightarrow> 'm option) \<Rightarrow> ('v \<Rightarrow> 'm option) \<Rightarrow> store \<Rightarrow>
    (string \<times> 'v) list \<Rightarrow> (string, ptr) gomap \<Rightarrow> bool" where
  "built heap conv st doc t \<longleftrightarrow>
     list_all2 (\<lambda>(k, v) (k', p). k' = k \<and> valid st p \<and> deref heap st p = conv v \<and> (p = None \<longleftrightarrow> conv v = None)) doc t \<and>
     wf_map t \<and> distinct (filter (\<lambda>p. p \<noteq> None) (map snd t))"

lemma built_keys: "built heap conv st doc t \<Longrightarrow> keys t = keys doc"
proof -
  assume "built heap conv st doc t"
  then have "list_all2 (\<lambda>(k, v) (k', p). k' = k \<and> valid st p \<and> deref heap st p = conv v \<and> (p = None \<longleftrightarrow> conv v = None)) doc t"
    by (simp add: built_def)
  then show ?thesis by (induction rule: list_all2_induct) auto
qed

lemma entries_related:
  assumes "list_all2 (\<lambda>(k, v) (k', p). k' = k \<and> R v p) doc t"
  shows "(k, v) \<in> set doc \<Longrightarrow> \<exists>p. (k, p) \<in> set t \<and> R v p"
    and "(k, p) \<in> set t \<Longrightarrow> \<exists>v. (k, v) \<in> set doc \<and> R v p"
  using assms by (induction rule: list_all2_induct) auto

lemma built_entry:
  assumes "built heap conv st doc t" and "(k, v) \<in> set doc"
  obtains p where "(k, p) \<in> set t" and "valid st p" and "deref heap st p = conv v"
  using entries_related(1) [OF assms(1) [unfolded built_def, THEN conjunct1] assms(2)] that by blast

lemma built_entry_back:
  assumes "built heap conv st doc t" and "(k, p) \<in> set t"
  obtains v where "(k, v) \<in> set doc" and "valid st p" and "deref heap st p = conv v"
  using entries_related(2) [OF assms(1) [unfolded built_def, THEN conjunct1] assms(2)] that by blast

locale document_table =
  fixes tab :: "Config \<Rightarrow> (string, ptr) gomap"
    and set_tab :: "(string, ptr) gomap \<Rightarrow> Config \<Rightarrow> Config"
    and heap :: "store \<Rightarrow> nat \<Rightarrow> 'm option"
    and conv :: "'v \<Rightarrow> 'm option"
    and body :: "string \<Rightarrow> 'v \<Rightarrow> conf \<Rightarrow> conf checked"
    and ctx :: "conf \<Rightarrow> bool"
    and total :: bool
  assumes tab_set: "tab (set_tab t cfg) = t"
    and set_set: "set_tab t (set_tab t' cfg) = set_tab t cfg"
    and set_same: "set_tab (tab cfg) cfg = cfg"
    and heap_ext: "extends st st' \<Longrightarrow> a < stNext st \<Longrightarrow> heap st' a = heap st a"
    and step: "fresh st \<Longrightarrow> ctx (st, cfg) \<Longrightarrow> body k v (st, cfg) = Ok c' \<Longrightarrow>
          lookup (tab cfg) k = None \<and> extends st (fst c') \<and> fresh (fst c') \<and> ctx c' \<and>
          (case lookup (tab (snd c')) k of
             None \<Rightarrow> False
           | Some p \<Rightarrow>
               snd c' = set_tab (insert_key k p (tab cfg)) cfg \<and> valid (fst c') p \<and>
               \<not> (p \<noteq> None \<and> valid st p) \<and> deref heap (fst c') p = conv v \<and>
               (p = None \<longleftrightarrow> conv v = None) \<and> (total \<longrightarrow> conv v \<noteq> None))"
begin

lemma built_extends:
  assumes "built heap conv st doc t" and "extends st st'"
  shows "built heap conv st' doc t"
proof -
  have "deref heap st' p = deref heap st p" if "valid st p" for p
    using that heap_ext [OF assms(2)] by (auto simp: deref_def valid_def split: option.splits)
  then show ?thesis using assms valid_extends
    by (fastforce simp: built_def elim!: list_all2_mono)
qed

lemma built_snoc:
  assumes "built heap conv st doc t" and "lookup t k = None" and "extends st st'"
    and "valid st' p" and "\<not> (p \<noteq> None \<and> valid st p)" and "deref heap st' p = conv v"
    and "p = None \<longleftrightarrow> conv v = None"
  shows "built heap conv st' (doc @ [(k, v)]) (insert_key k p t)"
proof -
  note b = built_extends [OF assms(1,3)]
  have "valid st q" if "q \<in> set (map snd t)" for q
    using assms(1) that by (fastforce simp: built_def list_all2_conv_all_nth in_set_conv_nth)
  then have "p \<notin> set (filter (\<lambda>p. p \<noteq> None) (map snd t))" using assms(5) by auto
  then show ?thesis using b assms(2,4,6,7)
    by (auto simp: built_def keys_insert_new wf_map_def lookup_None_iff intro!: list_all2_appendI)
qed

lemma loop:
  assumes "fresh st" and "ctx (st, cfg)" and "eachEntry body doc (st, cfg) = Ok c"
    and "built heap conv st pre (tab cfg)"
  shows "\<exists>st' t. c = (st', set_tab t cfg) \<and> extends st st' \<and> fresh st' \<and> ctx c \<and> built heap conv st' (pre @ doc) t \<and>
           (total \<longrightarrow> (\<forall>(k, v) \<in> set doc. conv v \<noteq> None))"
  using assms
proof (induction doc arbitrary: st cfg pre)
  case Nil
  then show ?case using set_same [of cfg] by (auto intro!: exI [of _ "tab cfg"])
next
  case (Cons kv doc)
  obtain k v where kv: "kv = (k, v)" by (cases kv)
  with Cons.prems(3) obtain c1 where c1: "body k v (st, cfg) = Ok c1" "eachEntry body doc c1 = Ok c"
    by (auto simp: outcome_simps)
  from step [OF Cons.prems(1,2) c1(1)] obtain st1 p where
    p: "c1 = (st1, set_tab (insert_key k p (tab cfg)) cfg)" "lookup (tab cfg) k = None" "extends st st1"
      "fresh st1" "ctx c1" "valid st1 p" "\<not> (p \<noteq> None \<and> valid st p)" "deref heap st1 p = conv v"
      "p = None \<longleftrightarrow> conv v = None" "total \<longrightarrow> conv v \<noteq> None"
    by (cases c1) (auto split: option.splits)
  have "built heap conv st1 (pre @ [kv]) (insert_key k p (tab cfg))"
    using built_snoc [OF Cons.prems(4) p(2,3,6,7,8,9)] kv by simp
  then have b: "built heap conv st1 (pre @ [kv]) (tab (set_tab (insert_key k p (tab cfg)) cfg))" by (simp only: tab_set)
  have "ctx (st1, set_tab (insert_key k p (tab cfg)) cfg)"
    and "eachEntry body doc (st1, set_tab (insert_key k p (tab cfg)) cfg) = Ok c"
    using p(1,5) c1(2) by simp_all
  from Cons.IH [OF p(4) this b] obtain st' t where
    "c = (st', set_tab t (set_tab (insert_key k p (tab cfg)) cfg))" "extends st1 st'"
    "fresh st'" "ctx c" "built heap conv st' ((pre @ [kv]) @ doc) t" "total \<longrightarrow> (\<forall>(k, v) \<in> set doc. conv v \<noteq> None)" by blast
  then show ?case using extends_trans [OF p(3)] p(10) kv by (auto simp: set_set)
qed

lemma fill:
  assumes "fresh st" and "ctx (st, cfg)" and "eachEntry body doc (st, cfg) = Ok c" and "tab cfg = []"
  obtains st' t where "c = (st', set_tab t cfg)" and "extends st st'" and "fresh st'" and "ctx c"
    and "built heap conv st' doc t" and "total \<longrightarrow> (\<forall>(k, v) \<in> set doc. conv v \<noteq> None)"
proof -
  have "built heap conv st [] (tab cfg)" using assms(4) by (simp add: built_def)
  from loop [OF assms(1-3) this] show ?thesis using that by auto
qed

end

section \<open>The five loops\<close>

interpretation cluster_doc: document_table cfAerospikeClusters "\<lambda>t cfg. cfg\<lparr>cfAerospikeClusters := t\<rparr>"
  stClusters "map_option clusterToModel" addClusterEntry "\<lambda>c. True" True
  by unfold_locales
    (auto simp: extends_def addClusterEntry_def added_def AddCluster_def newCluster_def fresh_def valid_def deref_def
      split: option.splits if_splits)

definition storageEntry :: "DtoStorage option \<Rightarrow> Storage option" where
  "storageEntry v = (case v of None \<Rightarrow> None | Some s \<Rightarrow> storageToModel s)"

interpretation storage_doc: document_table cfStorage "\<lambda>t cfg. cfg\<lparr>cfStorage := t\<rparr>"
  stStorages storageEntry addStorageEntry "\<lambda>c. True" False
  by unfold_locales
    (auto simp: extends_def addStorageEntry_def added_def AddStorage_def newStorageObject_def fresh_def valid_def
      deref_def storageEntry_def split: option.splits if_splits)

interpretation policy_doc: document_table cfBackupPolicies "\<lambda>t cfg. cfg\<lparr>cfBackupPolicies := t\<rparr>"
  stPolicies "map_option backupPolicyToModel" addPolicyEntry "\<lambda>c. True" True
  by unfold_locales
    (auto simp: extends_def addPolicyEntry_def added_def AddPolicy_def newPolicy_def fresh_def valid_def deref_def
      split: option.splits if_splits)

interpretation agent_doc: document_table cfSecretAgents "\<lambda>t cfg. cfg\<lparr>cfSecretAgents := t\<rparr>"
  stAgents secretAgentToModel addAgentEntry "\<lambda>c. True" False
  by unfold_locales
    (auto simp: extends_def addAgentEntry_def added_def AddSecretAgent_def newAgent_def fresh_def valid_def deref_def
      split: option.splits if_splits)

definition routineEntry :: "conf \<Rightarrow> DtoBackupRoutine option \<Rightarrow> BackupRoutine option" where
  "routineEntry c v =
     (case v of None \<Rightarrow> None | Some r \<Rightarrow> (case routineToModel r c of Ok m \<Rightarrow> Some m | Err e \<Rightarrow> None | Panic p \<Rightarrow> None))"

text \<open>Adding routines does not change how a routine is converted.\<close>

definition same_entities :: "conf \<Rightarrow> conf \<Rightarrow> bool" where
  "same_entities c0 c \<longleftrightarrow> (\<forall>r. routineToModel r c = routineToModel r c0)"

lemma routineToModel_frame:
  assumes "cfBackupPolicies cfg' = cfBackupPolicies cfg" and "cfAerospikeClusters cfg' = cfAerospikeClusters cfg"
    and "cfStorage cfg' = cfStorage cfg" and "cfSecretAgents cfg' = cfSecretAgents cfg"
    and "stClusters st' = stClusters st"
  shows "routineToModel r (st', cfg') = routineToModel r (st, cfg)"
  unfolding routineToModel_def fst_conv snd_conv assms ..

interpretation routine_doc: document_table cfBackupRoutines "\<lambda>t cfg. cfg\<lparr>cfBackupRoutines := t\<rparr>"
  stRoutines "routineEntry c0" addRoutineEntry "same_entities c0" True for c0
proof unfold_locales
  fix st cfg k v c'
  assume f: "fresh st" and same: "same_entities c0 (st, cfg)" and ok: "addRoutineEntry k v (st, cfg) = Ok c'"
  then obtain r m where r: "v = Some r" "routineToModel r c0 = Ok m" "lookup (cfBackupRoutines cfg) k = None"
    "c' = (st\<lparr>stRoutines := (stRoutines st)(stNext st \<mapsto> m), stNext := stNext st + 1\<rparr>,
           cfg\<lparr>cfBackupRoutines := insert_key k (Some (stNext st)) (cfBackupRoutines cfg)\<rparr>)"
    by (auto simp: addRoutineEntry_def same_entities_def added_def AddRoutine_def newRoutine_def outcome_simps
        split: option.splits if_splits)
  have "same_entities c0 c'" using same unfolding same_entities_def r(4)
    by (subst routineToModel_frame [of _ cfg _ st]) simp_all
  then show "lookup (cfBackupRoutines cfg) k = None \<and> extends st (fst c') \<and> fresh (fst c') \<and> same_entities c0 c' \<and>
      (case lookup (cfBackupRoutines (snd c')) k of
         None \<Rightarrow> False
       | Some p \<Rightarrow>
           snd c' = cfg\<lparr>cfBackupRoutines := insert_key k p (cfBackupRoutines cfg)\<rparr> \<and> valid (fst c') p \<and>
           \<not> (p \<noteq> None \<and> valid st p) \<and> deref stRoutines (fst c') p = routineEntry c0 v \<and>
           (p = None \<longleftrightarrow> routineEntry c0 v = None) \<and> (True \<longrightarrow> routineEntry c0 v \<noteq> None))"
    using f r by (auto simp: extends_def fresh_def valid_def deref_def routineEntry_def)
qed (auto simp: extends_def)

section \<open>The configuration that is built\<close>

lemma configToModel_built:
  assumes "configToModel d st = Ok c" and "fresh st"
  shows "built stClusters (map_option clusterToModel) (fst c) (dcfAerospikeClusters d) (cfAerospikeClusters (snd c)) \<and>
    built stStorages storageEntry (fst c) (dcfStorage d) (cfStorage (snd c)) \<and>
    built stPolicies (map_option backupPolicyToModel) (fst c) (dcfBackupPolicies d) (cfBackupPolicies (snd c)) \<and>
    built stAgents secretAgentToModel (fst c) (dcfSecretAgents d) (cfSecretAgents (snd c)) \<and>
    built stRoutines (routineEntry c) (fst c) (dcfBackupRoutines d) (cfBackupRoutines (snd c)) \<and>
    (\<forall>(k, v) \<in> set (dcfBackupRoutines d). routineEntry c v \<noteq> None) \<and>
    cfServiceConfig (snd c) = serviceToModel (dcfServiceConfig d)"
proof -
  let ?cfg = "NewConfig\<lparr>cfServiceConfig := serviceToModel (dcfServiceConfig d)\<rparr>"
  obtain m1 m2 m3 m4 where
    e1: "eachEntry addClusterEntry (dcfAerospikeClusters d) (st, ?cfg) = Ok m1" and
    e2: "eachEntry addStorageEntry (dcfStorage d) m1 = Ok m2" and
    e3: "eachEntry addPolicyEntry (dcfBackupPolicies d) m2 = Ok m3" and
    e4: "eachEntry addAgentEntry (dcfSecretAgents d) m3 = Ok m4" and
    e5: "eachEntry addRoutineEntry (dcfBackupRoutines d) m4 = Ok c"
    using assms(1) by (auto simp: configToModel_def outcome_simps)
  obtain s1 t1 where f1: "m1 = (s1, ?cfg\<lparr>cfAerospikeClusters := t1\<rparr>)" "fresh s1"
    and b1: "built stClusters (map_option clusterToModel) s1 (dcfAerospikeClusters d) t1"
    by (rule cluster_doc.fill [OF assms(2) TrueI e1]) (simp_all add: NewConfig_def)
  obtain s2 t2 where f2: "m2 = (s2, (snd m1)\<lparr>cfStorage := t2\<rparr>)" "extends s1 s2" "fresh s2"
    and b2: "built stStorages storageEntry s2 (dcfStorage d) t2"
    by (rule storage_doc.fill [OF f1(2) TrueI e2 [unfolded f1(1)]]) (simp_all add: NewConfig_def f1)
  obtain s3 t3 where f3: "m3 = (s3, (snd m2)\<lparr>cfBackupPolicies := t3\<rparr>)" "extends s2 s3" "fresh s3"
    and b3: "built stPolicies (map_option backupPolicyToModel) s3 (dcfBackupPolicies d) t3"
    by (rule policy_doc.fill [OF f2(3) TrueI e3 [unfolded f2(1)]]) (simp_all add: NewConfig_def f1 f2)
  obtain s4 t4 where f4: "m4 = (s4, (snd m3)\<lparr>cfSecretAgents := t4\<rparr>)" "extends s3 s4" "fresh s4"
    and b4: "built stAgents secretAgentToModel s4 (dcfSecretAgents d) t4"
    by (rule agent_doc.fill [OF f3(3) TrueI e4 [unfolded f3(1)]]) (simp_all add: NewConfig_def f1 f2 f3)
  have refl: "same_entities m4 (s4, (snd m3)\<lparr>cfSecretAgents := t4\<rparr>)" by (simp add: same_entities_def f4(1))
  have "cfBackupRoutines ((snd m3)\<lparr>cfSecretAgents := t4\<rparr>) = []" by (simp add: NewConfig_def f1 f2 f3)
  with routine_doc.fill [OF f4(3) refl e5 [unfolded f4(1)]]
  obtain s5 t5 where f5: "c = (s5, (snd m4)\<lparr>cfBackupRoutines := t5\<rparr>)" "extends s4 s5"
    and same: "same_entities m4 c" and b5: "built stRoutines (routineEntry m4) s5 (dcfBackupRoutines d) t5"
    and total: "\<forall>(k, v) \<in> set (dcfBackupRoutines d). routineEntry m4 v \<noteq> None"
    unfolding f4(1) snd_conv by blast
  have "routineEntry m4 = routineEntry c"
    using same by (auto simp: same_entities_def routineEntry_def fun_eq_iff split: option.splits)
  moreover note x = f5(2) extends_trans [OF f4(2) f5(2)] extends_trans [OF f3(2) extends_trans [OF f4(2) f5(2)]]
    extends_trans [OF f2(2) extends_trans [OF f3(2) extends_trans [OF f4(2) f5(2)]]]
  moreover note cluster_doc.built_extends [OF b1 x(4)] storage_doc.built_extends [OF b2 x(3)]
    policy_doc.built_extends [OF b3 x(2)] agent_doc.built_extends [OF b4 x(1)]
  ultimately show ?thesis using b5 total by (simp add: f5(1) f4(1) f3(1) f2(1) f1(1))
qed

end
