(* ===== verification/DtoConfigProps.thy ===== *)
theory DtoConfigProps
  imports DtoConfigLoad
begin

text \<open>
  The theorems about configuration documents: what validation accepts converts to a well-formed
  configuration with sound references, converting back returns the document up to what the
  conversions drop, and validation panics only on a null routine.
\<close>

section \<open>The loops of the validation\<close>

lemma eachEntry_unit_Ok:
  "eachEntry f m () = Ok () \<longleftrightarrow> (\<forall>(k, v) \<in> set m. f k v () = Ok ())"
  by (induction m) (auto simp: outcome_simps)

lemma eachEntry_no_panic:
  assumes "\<And>k v s. (k, v) \<in> set m \<Longrightarrow> I s \<Longrightarrow> f k v s \<noteq> Panic p"
    and "\<And>k v s s'. (k, v) \<in> set m \<Longrightarrow> I s \<Longrightarrow> f k v s = Ok s' \<Longrightarrow> I s'"
    and "I s"
  shows "eachEntry f m s \<noteq> Panic p"
  using assms
proof (induction m arbitrary: s)
  case Nil
  then show ?case by simp
next
  case (Cons kv m)
  obtain k v where kv: "kv = (k, v)" by (cases kv)
  have "eachEntry f m s' \<noteq> Panic p" if "f k v s = Ok s'" for s'
  proof (rule Cons.IH)
    show "I s'" using Cons.prems(2) [of k v s s'] Cons.prems(3) that kv by simp
    show "f ka va sa \<noteq> Panic p" if "(ka, va) \<in> set m" "I sa" for ka va sa
      using Cons.prems(1) [of ka va sa] that by simp
    show "I sb" if "(ka, va) \<in> set m" "I sa" "f ka va sa = Ok sb" for ka va sa sb
      using Cons.prems(2) [of ka va sa sb] that by simp
  qed
  then show ?case using Cons.prems(1) [of k v s] Cons.prems(3) kv by (auto simp: outcome_simps)
qed

lemma checkPolicy_Ok [outcome_simps]:
  "checkPolicy k v acc = Ok s \<longleftrightarrow> k \<noteq> [] \<and> (\<exists>p. validateBackupPolicy v = Ok p \<and> s = acc @ [(k, Some p)])"
  by (auto simp: checkPolicy_def outcome_simps)

lemma eachEntry_checkPolicy:
  "eachEntry checkPolicy m acc = Ok ps \<Longrightarrow>
     \<exists>r. ps = acc @ r \<and>
       list_all2 (\<lambda>(k, v) (k', v'). k' = k \<and> k \<noteq> [] \<and> (\<exists>p. v' = Some p \<and> validateBackupPolicy v = Ok p)) m r"
proof (induction m arbitrary: acc)
  case Nil
  then show ?case by simp
next
  case (Cons kv m)
  obtain k v where kv: "kv = (k, v)" by (cases kv)
  with Cons.prems obtain p where p: "k \<noteq> []" "validateBackupPolicy v = Ok p"
    "eachEntry checkPolicy m (acc @ [(k, Some p)]) = Ok ps"
    by (auto simp: outcome_simps)
  from Cons.IH [OF p(3)] obtain r where "ps = (acc @ [(k, Some p)]) @ r"
    "list_all2 (\<lambda>(k, v) (k', v'). k' = k \<and> k \<noteq> [] \<and> (\<exists>p. v' = Some p \<and> validateBackupPolicy v = Ok p)) m r" by blast
  with p kv show ?case by (intro exI [of _ "(k, Some p) # r"]) simp
qed

lemma checked_policies:
  "list_all2 (\<lambda>(k, v) (k', v'). k' = k \<and> k \<noteq> [] \<and> (\<exists>p. v' = Some p \<and> validateBackupPolicy v = Ok p)) m r \<Longrightarrow>
     \<forall>(k, v) \<in> set r. v \<noteq> None"
  by (induction rule: list_all2_induct) auto

lemma in_entry_Ok [outcome_simps]: "in_entry kind name r = Ok x \<longleftrightarrow> r = Ok x"
  by (simp add: in_entry_def outcome_simps)

lemma in_entry_Panic [outcome_simps]: "in_entry kind name r = Panic p \<longleftrightarrow> r = Panic p"
  by (simp add: in_entry_def outcome_simps)

text \<open>A document without null entries and without empty routine names.\<close>

definition no_nulls :: "DtoConfig \<Rightarrow> bool" where
  "no_nulls d \<longleftrightarrow>
     (\<forall>(k, v) \<in> set (dcfAerospikeClusters d). v \<noteq> None) \<and>
     (\<forall>(k, v) \<in> set (dcfStorage d). \<exists>s. v = Some s \<and> validateStorage (Some s) = Ok ()) \<and>
     (\<forall>(k, v) \<in> set (dcfBackupPolicies d). v \<noteq> None) \<and>
     (\<forall>(k, v) \<in> set (dcfBackupRoutines d). k \<noteq> [] \<and> v \<noteq> None)"

lemma validateRacks_no_Panic [simp]: "validateRacks rs \<noteq> Panic p"
  by (induction rs) auto

lemma validateRoutine_Panic: "validateRoutine cron v = Panic p \<Longrightarrow> v = None"
  by (auto simp: validateRoutine_def outcome_simps split: option.splits if_splits)

lemma validateRoutine_Some: "validateRoutine cron v = Ok u \<Longrightarrow> v \<noteq> None"
  by (cases v) (simp_all add: validateRoutine_def)

lemma validateStorage_Some: "validateStorage v = Ok () \<Longrightarrow> \<exists>s. v = Some s \<and> validateStorage (Some s) = Ok ()"
  by (cases v) (auto simp: validateStorage_def)

lemma validateCluster_Some: "validateCluster v = Ok () \<Longrightarrow> v \<noteq> None"
  by (auto simp: validateCluster_Ok)

text \<open>What the loops of the validation have checked before the references are.\<close>

definition checked_document :: "(string \<Rightarrow> string option) \<Rightarrow> DtoConfig \<Rightarrow> DtoConfig \<Rightarrow> bool" where
  "checked_document cron d d' \<longleftrightarrow>
     eachEntry (checkRoutine cron) (dcfBackupRoutines d) () = Ok () \<and>
     eachEntry checkStorage (dcfStorage d) () = Ok () \<and>
     eachEntry checkCluster (dcfAerospikeClusters d) () = Ok () \<and>
     (\<exists>ps logger. eachEntry checkPolicy (dcfBackupPolicies d) [] = Ok ps \<and>
        d' = d\<lparr>dcfBackupPolicies := ps, dcfServiceConfig := (dcfServiceConfig d)\<lparr>dscLogger := logger\<rparr>\<rparr>)"

lemma checked_no_nulls:
  assumes "checked_document cron d d'"
  shows "no_nulls d'"
proof -
  obtain ps logger where
    routines: "eachEntry (checkRoutine cron) (dcfBackupRoutines d) () = Ok ()" and
    storage: "eachEntry checkStorage (dcfStorage d) () = Ok ()" and
    clusters: "eachEntry checkCluster (dcfAerospikeClusters d) () = Ok ()" and
    policies: "eachEntry checkPolicy (dcfBackupPolicies d) [] = Ok ps" and
    d': "d' = d\<lparr>dcfBackupPolicies := ps, dcfServiceConfig := (dcfServiceConfig d)\<lparr>dscLogger := logger\<rparr>\<rparr>"
    using assms unfolding checked_document_def by blast
  have "\<forall>(k, v) \<in> set ps. v \<noteq> None"
    by (rule checked_policies) (use eachEntry_checkPolicy [OF policies] in simp)
  moreover have "\<forall>(k, v) \<in> set (dcfStorage d). \<exists>s. v = Some s \<and> validateStorage (Some s) = Ok ()"
    using storage validateStorage_Some
    by (fastforce simp: eachEntry_unit_Ok checkStorage_def outcome_simps split: if_splits)
  moreover have "\<forall>(k, v) \<in> set (dcfAerospikeClusters d). v \<noteq> None"
    using clusters validateCluster_Some
    by (fastforce simp: eachEntry_unit_Ok checkCluster_def outcome_simps split: if_splits)
  moreover have "\<forall>(k, v) \<in> set (dcfBackupRoutines d). k \<noteq> [] \<and> v \<noteq> None"
    using routines validateRoutine_Some
    by (fastforce simp: eachEntry_unit_Ok checkRoutine_def outcome_simps split: if_splits prod.splits)
  ultimately show ?thesis by (simp add: no_nulls_def d')
qed

lemma validateConfig_Ok:
  assumes "validateConfig cron d = Ok d'"
  shows "no_nulls d'" and "\<exists>c. configToModel d' emptyStore = Ok c"
proof -
  have "checked_document cron d d' \<and> (\<exists>c. configToModel d' emptyStore = Ok c)"
    using assms by (auto simp: validateConfig_def checked_document_def outcome_simps Let_def)
  then show "no_nulls d'" and "\<exists>c. configToModel d' emptyStore = Ok c" using checked_no_nulls by blast+
qed

section \<open>A routine and its document\<close>

lemma findKeyByValue_lookup:
  assumes "wf_map t" and "distinct (filter (\<lambda>p. p \<noteq> None) (map snd t))" and "lookup t k = Some (Some a)"
  shows "findKeyByValue t (Some a) = k"
  using assms
proof (induction t)
  case Nil
  then show ?case by simp
next
  case (Cons e t)
  obtain k' v where e: "e = (k', v)" by (cases e)
  show ?case
  proof (cases "k' = k")
    case True
    then show ?thesis using Cons.prems e by simp
  next
    case False
    then have l: "lookup t k = Some (Some a)" using Cons.prems e by simp
    then have "Some a \<in> snd ` set t" by (force dest: lookup_in_set)
    then have "v \<noteq> Some a" using Cons.prems(2) e by (auto split: if_splits)
    then show ?thesis using Cons l e by (auto split: if_splits)
  qed
qed

lemma findStorageKey_eq: "findStorageKey = findKeyByValue"
proof (intro ext)
  show "findStorageKey m v = findKeyByValue m v" for m v by (induction m) auto
qed

lemma routineToModel_Ok:
  assumes "routineToModel r c = Ok m"
  shows "policies c (dbrBackupPolicy r) = Some (brBackupPolicy m)"
    and "clusters c (dbrSourceCluster r) = Some (brSourceCluster m)"
    and "storages c (dbrStorage r) = Some (brStorage m)"
    and "case dbrSecretAgent r of None \<Rightarrow> brSecretAgent m = None
         | Some n \<Rightarrow> lookup (cfSecretAgents (snd c)) n = Some (brSecretAgent m)"
    and "brIntervalCron m = dbrIntervalCron r \<and> brIncrIntervalCron m = dbrIncrIntervalCron r \<and>
         brNamespaces m = dbrNamespaces r \<and> brSetList m = dbrSetList r \<and> brBinList m = dbrBinList r \<and>
         brPreferRacks m = dbrPreferRacks r \<and> brPartitionList m = dbrPartitionList r"
    and "brSourceCluster m \<noteq> None"
  using assms unfolding routineToModel_def
  by (auto simp: outcome_simps split: option.splits if_splits)

text \<open>The tables have no two entries with one object, and no nil where it would lose a name.\<close>

definition named_apart :: "conf \<Rightarrow> bool" where
  "named_apart c \<longleftrightarrow>
     (\<forall>t \<in> {cfBackupPolicies (snd c), cfAerospikeClusters (snd c), cfStorage (snd c), cfSecretAgents (snd c)}.
        wf_map t \<and> distinct (filter (\<lambda>p. p \<noteq> None) (map snd t)) \<and> (\<forall>(k, p) \<in> set t. p \<noteq> None))"

lemma named_apart_lookup:
  assumes "named_apart c" and "lookup t k = Some p"
    and "t \<in> {cfBackupPolicies (snd c), cfAerospikeClusters (snd c), cfStorage (snd c), cfSecretAgents (snd c)}"
  shows "findKeyByValue t p = k" and "p \<noteq> None"
proof -
  note t = assms(1) [unfolded named_apart_def, rule_format, OF assms(3)]
  show "p \<noteq> None" using t lookup_in_set [OF assms(2)] by blast
  then show "findKeyByValue t p = k" using t findKeyByValue_lookup assms(2) by blast
qed

lemma routine_roundtrip:
  assumes "named_apart c" and "routineToModel r c = Ok m"
  shows "routineFromModel m (snd c) = r"
proof -
  note ok = routineToModel_Ok [OF assms(2)]
  note key = named_apart_lookup [OF assms(1)]
  have "findKeyByValue (cfBackupPolicies (snd c)) (brBackupPolicy m) = dbrBackupPolicy r"
    using key(1) [OF ok(1)] by simp
  moreover have "findKeyByValue (cfAerospikeClusters (snd c)) (brSourceCluster m) = dbrSourceCluster r"
    using key(1) [OF ok(2)] by simp
  moreover have "findStorageKey (cfStorage (snd c)) (brStorage m) = dbrStorage r"
    using key(1) [OF ok(3)] by (simp add: findStorageKey_eq)
  moreover have "(if brSecretAgent m \<noteq> None then Some (findKeyByValue (cfSecretAgents (snd c)) (brSecretAgent m))
      else None) = dbrSecretAgent r"
  proof (cases "dbrSecretAgent r")
    case (Some n)
    then show ?thesis using ok(4) key [of "cfSecretAgents (snd c)" n "brSecretAgent m"] by simp
  qed (use ok(4) in simp)
  ultimately show ?thesis using ok(5) by (simp add: routineFromModel_def)
qed

section \<open>The configuration of a validated document\<close>

lemma built_lookup:
  assumes "built heap conv st doc t" and "lookup t k = Some p"
  obtains v where "(k, v) \<in> set doc" and "deref heap st p = conv v"
  using built_entry_back [OF assms(1) lookup_in_set [OF assms(2)]] by blast

lemma built_not_nil:
  assumes "built heap conv st doc t" and "\<And>k v. (k, v) \<in> set doc \<Longrightarrow> conv v \<noteq> None"
  shows "\<forall>(k, p) \<in> set t. p \<noteq> None"
proof -
  have "p \<noteq> None" if e: "(k, p) \<in> set t" for k p
  proof -
    obtain v where "(k, v) \<in> set doc" "valid st p" "deref heap st p = conv v"
      by (rule built_entry_back [OF assms(1) e])
    then show ?thesis using assms(2) [of k v] by (auto simp: deref_def split: option.splits)
  qed
  then show ?thesis by auto
qed

lemma loaded_named_apart:
  assumes "configToModel d emptyStore = Ok c" and "no_nulls d"
    and "\<forall>(k, v) \<in> set (dcfSecretAgents d). v \<noteq> None"
  shows "named_apart c"
proof -
  note b = configToModel_built [OF assms(1) fresh_empty]
  have s: "storageToModel s \<noteq> None" if "validateStorage (Some s) = Ok ()" for s
    using that unfolding storage_cases by (auto simp: storageToModel_def newStorage_def)
  have "\<forall>(k, p) \<in> set (cfStorage (snd c)). p \<noteq> None"
    by (rule built_not_nil [of stStorages storageEntry "fst c" "dcfStorage d"])
      (use b assms(2) s in \<open>auto simp: no_nulls_def storageEntry_def\<close>)
  moreover have "\<forall>(k, p) \<in> set (cfAerospikeClusters (snd c)). p \<noteq> None"
    by (rule built_not_nil [of stClusters "map_option clusterToModel" "fst c" "dcfAerospikeClusters d"])
      (use b assms(2) in \<open>auto simp: no_nulls_def\<close>)
  moreover have "\<forall>(k, p) \<in> set (cfBackupPolicies (snd c)). p \<noteq> None"
    by (rule built_not_nil [of stPolicies "map_option backupPolicyToModel" "fst c" "dcfBackupPolicies d"])
      (use b assms(2) in \<open>auto simp: no_nulls_def\<close>)
  moreover have "\<forall>(k, p) \<in> set (cfSecretAgents (snd c)). p \<noteq> None"
    by (rule built_not_nil [of stAgents secretAgentToModel "fst c" "dcfSecretAgents d"])
      (use b assms(3) in \<open>auto simp: secretAgentToModel_def\<close>)
  ultimately show ?thesis using b by (auto simp: named_apart_def built_def)
qed

lemma routineEntry_Some: "routineEntry c v = Some m \<Longrightarrow> \<exists>r. v = Some r \<and> routineToModel r c = Ok m"
  by (auto simp: routineEntry_def split: option.splits outcome.splits)

text \<open>A routine entry of the document was converted, so its conversion succeeded.\<close>

lemma loaded_routine:
  assumes c: "configToModel d st = Ok c" and "(k, p) \<in> set (cfBackupRoutines (snd c))" and st: "fresh st"
  obtains r m where "(k, Some r) \<in> set (dcfBackupRoutines d)" and "deref_routine (fst c) p = Some m"
    and "routineToModel r c = Ok m"
proof -
  have b: "built stRoutines (routineEntry c) (fst c) (dcfBackupRoutines d) (cfBackupRoutines (snd c))"
    using configToModel_built [OF c st] by simp
  obtain v where v: "(k, v) \<in> set (dcfBackupRoutines d)" "valid (fst c) p"
    "deref stRoutines (fst c) p = routineEntry c v" by (rule built_entry_back [OF b assms(2)])
  moreover obtain m where "routineEntry c v = Some m"
    using configToModel_built [OF c st] v(1) by fastforce
  ultimately show ?thesis using that routineEntry_Some by (fastforce simp: deref_def deref_routine_def)
qed

lemma loaded_sound:
  assumes "configToModel d st = Ok c" and "no_nulls d" and "fresh st"
  shows "wf_conf c" and "conf_sound c"
proof -
  note b = configToModel_built [OF assms(1,3)]
  have r: "n \<noteq> [] \<and> (\<exists>r m. deref_routine (fst c) p = Some m \<and> routineToModel r c = Ok m)"
    if np: "(n, p) \<in> set (cfBackupRoutines (snd c))" for n p
  proof -
    obtain r m where "(n, Some r) \<in> set (dcfBackupRoutines d)" "deref_routine (fst c) p = Some m"
      "routineToModel r c = Ok m" by (rule loaded_routine [OF assms(1) np assms(3)])
    then show ?thesis using assms(2) by (auto simp: no_nulls_def)
  qed
  then have "routines_ok (fst c) (cfBackupRoutines (snd c))" by (fastforce simp: routines_ok_def)
  then show wf: "wf_conf c" using b by (auto simp: wf_conf_def built_def)
  have "refers_into c m" if at: "routine_at c n = Some m" for n m
  proof -
    obtain q where "routineToModel q c = Ok m" using at r by (fastforce simp: wf_conf_routine [OF wf])
    from routineToModel_Ok(1-3) [OF this] show ?thesis unfolding refers_into_def by blast
  qed
  then show "conf_sound c" by (auto simp: conf_sound_def refs_sound_def uses_def refers_into_def)
qed

section \<open>Converting back\<close>

lemma mapEntries_built:
  assumes "built heap conv st doc t"
    and "\<And>k v p. (k, v) \<in> set doc \<Longrightarrow> deref heap st p = conv v \<Longrightarrow> f p = Ok (g v)"
  shows "mapEntries f t = Ok (map (\<lambda>(k, v). (k, g v)) doc)"
proof -
  have "list_all2 (\<lambda>(k, v) (k', p). k' = k \<and> f p = Ok (g v)) doc t"
  proof (rule list.rel_mono_strong)
    show "list_all2 (\<lambda>(k, v) (k', p). k' = k \<and> valid st p \<and> deref heap st p = conv v \<and>
        (p = None \<longleftrightarrow> conv v = None)) doc t"
      using assms(1) by (simp add: built_def)
  qed (use assms(2) in auto)
  then show ?thesis by (induction rule: list_all2_induct) auto
qed

definition with_rate :: "DtoHTTPServerConfig \<Rightarrow> DtoHTTPServerConfig" where
  "with_rate h = h\<lparr>dhsRate := Some (case dhsRate h of None \<Rightarrow> newRate | Some r \<Rightarrow> r)\<rparr>"

definition lossy :: "DtoConfig \<Rightarrow> DtoConfig" where
  "lossy d =
     \<lparr>dcfServiceConfig = (dcfServiceConfig d)
        \<lparr>dscHTTPServer := map_option with_rate (dscHTTPServer (dcfServiceConfig d))\<rparr>,
      dcfAerospikeClusters = dcfAerospikeClusters d,
      dcfStorage = map (\<lambda>(k, v). (k, map_option
        (\<lambda>s. s\<lparr>dstAzureStorage := map_option keep_complete_auth (dstAzureStorage s)\<rparr>) v)) (dcfStorage d),
      dcfBackupPolicies = map (\<lambda>(k, v). (k, map_option (\<lambda>p. p\<lparr>dbpCompressionPolicy := None\<rparr>) v))
        (dcfBackupPolicies d),
      dcfBackupRoutines = dcfBackupRoutines d,
      dcfSecretAgents = dcfSecretAgents d\<rparr>"

lemma file_logger_roundtrip: "map_option fileLoggerFromModel (fileLoggerToModel f) = f"
  by (auto simp: fileLoggerFromModel_def fileLoggerToModel_def split: option.splits)

lemma http_roundtrip: "map_option httpFromModel (httpToModel h) = map_option with_rate h"
  by (auto simp: httpFromModel_def httpToModel_def with_rate_def rateToModel_def rateFromModel_def newRate_def
      split: option.splits)

lemma logger_roundtrip: "map_option loggerFromModel (loggerToModel l) = l"
  by (auto simp: loggerFromModel_def loggerToModel_def file_logger_roundtrip split: option.splits)

lemma service_roundtrip:
  "serviceFromModel (serviceToModel b) \<lparr>dscHTTPServer = None, dscLogger = None\<rparr> =
     b\<lparr>dscHTTPServer := map_option with_rate (dscHTTPServer b)\<rparr>"
  using http_roundtrip [of "dscHTTPServer b"] logger_roundtrip [of "dscLogger b"]
  by (cases b) (auto simp: serviceFromModel_def serviceToModel_def Let_def split: option.splits)

text \<open>
  C18: A configuration document that passes validation converts to a configuration that is well
  formed, with every routine's policy, cluster and storage an entry of its table.
\<close>

theorem validated_config_sound:
  assumes "validateConfig cron d = Ok d'"
  shows "\<exists>c. configToModel d' emptyStore = Ok c \<and> wf_conf c \<and> conf_sound c"
  using validateConfig_Ok [OF assms] loaded_sound [OF _ _ fresh_empty] by blast

text \<open>The tables of clusters, storages and policies, converted back.\<close>

lemma entities_roundtrip:
  assumes nn: "no_nulls d'" and m: "configToModel d' emptyStore = Ok c"
    and credentials: "\<forall>(k, v) \<in> set (dcfAerospikeClusters d'). dacCredentials (the v) \<noteq> None"
  shows "mapEntries (\<lambda>p. NewClusterFromModel (deref stClusters (fst c) p)) (cfAerospikeClusters (snd c)) =
      Ok (map (\<lambda>(k, v). (k, v)) (dcfAerospikeClusters d'))"
    and "mapEntries (\<lambda>p. Ok (NewStorageFromModel (deref stStorages (fst c) p))) (cfStorage (snd c)) = Ok (dcfStorage (lossy d'))"
    and "mapEntries (\<lambda>p. NewBackupPolicyFromModel (deref stPolicies (fst c) p)) (cfBackupPolicies (snd c)) =
      Ok (dcfBackupPolicies (lossy d'))"
proof -
  note b = configToModel_built [OF m fresh_empty]
  let ?st = "fst c" and ?cfg = "snd c"
  have nonnull: "\<And>k v. (k, v) \<in> set (dcfAerospikeClusters d') \<Longrightarrow> \<exists>a. v = Some a"
    "\<And>k v. (k, v) \<in> set (dcfStorage d') \<Longrightarrow> \<exists>s. v = Some s \<and> validateStorage (Some s) = Ok ()"
    "\<And>k v. (k, v) \<in> set (dcfBackupPolicies d') \<Longrightarrow> \<exists>p. v = Some p"
    using nn by (fastforce simp: no_nulls_def)+
  show "mapEntries (\<lambda>p. NewClusterFromModel (deref stClusters ?st p)) (cfAerospikeClusters ?cfg) =
      Ok (map (\<lambda>(k, v). (k, v)) (dcfAerospikeClusters d'))"
  proof (rule mapEntries_built [of _ "map_option clusterToModel"])
    fix k v p assume kv: "(k, v) \<in> set (dcfAerospikeClusters d')"
      and eq: "deref stClusters ?st p = map_option clusterToModel v"
    obtain a where "v = Some a" using nonnull(1) [OF kv] by blast
    then show "NewClusterFromModel (deref stClusters ?st p) = Ok v"
      using credentials kv by (auto simp: eq cluster_roundtrip)
  qed (use b in simp)
  show "mapEntries (\<lambda>p. Ok (NewStorageFromModel (deref stStorages ?st p))) (cfStorage ?cfg) =
      Ok (dcfStorage (lossy d'))"
    unfolding lossy_def DtoConfig.simps
  proof (rule mapEntries_built [of _ storageEntry])
    fix k v p assume kv: "(k, v) \<in> set (dcfStorage d')" and eq: "deref stStorages ?st p = storageEntry v"
    obtain s where "v = Some s" "validateStorage (Some s) = Ok ()" using nonnull(2) [OF kv] by blast
    then show "Ok (NewStorageFromModel (deref stStorages ?st p)) = Ok (map_option
        (\<lambda>s. s\<lparr>dstAzureStorage := map_option keep_complete_auth (dstAzureStorage s)\<rparr>) v)"
      by (simp add: eq storageEntry_def storage_roundtrip)
  qed (use b in simp)
  show "mapEntries (\<lambda>p. NewBackupPolicyFromModel (deref stPolicies ?st p)) (cfBackupPolicies ?cfg) =
      Ok (dcfBackupPolicies (lossy d'))"
    unfolding lossy_def DtoConfig.simps
  proof (rule mapEntries_built [of _ "map_option backupPolicyToModel"])
    fix k v p assume kv: "(k, v) \<in> set (dcfBackupPolicies d')"
      and eq: "deref stPolicies ?st p = map_option backupPolicyToModel v"
    obtain q where "v = Some q" using nonnull(3) [OF kv] by blast
    then show "NewBackupPolicyFromModel (deref stPolicies ?st p) =
        Ok (map_option (\<lambda>p. p\<lparr>dbpCompressionPolicy := None\<rparr>) v)"
      by (simp add: eq backup_policy_loses_compression)
  qed (use b in simp)
qed

text \<open>
  C19: Writing the configuration that was made from a validated document gives the document back:
  the names of the policy, cluster, storage and secret agent of every routine are recovered. What
  is lost is the compression of the backup policies and incomplete Azure credentials, and an
  absent rate limiter section becomes an empty one. It needs every cluster to have credentials,
  without which the conversion panics.
\<close>

theorem config_roundtrip:
  assumes "validateConfig cron d = Ok d'" and "configToModel d' emptyStore = Ok c"
    and agents: "\<forall>(k, v) \<in> set (dcfSecretAgents d'). v \<noteq> None"
    and credentials: "\<forall>(k, v) \<in> set (dcfAerospikeClusters d'). dacCredentials (the v) \<noteq> None"
  shows "NewConfigFromModel c = Ok (lossy d')"
proof -
  have nn: "no_nulls d'" by (rule validateConfig_Ok [OF assms(1)])
  have apart: "named_apart c" by (rule loaded_named_apart [OF assms(2) nn agents])
  note b = configToModel_built [OF assms(2) fresh_empty]
  let ?st = "fst c" and ?cfg = "snd c"
  have "mapEntries (\<lambda>p. Ok (NewRoutineFromModel (deref stRoutines ?st p) (Some ?cfg))) (cfBackupRoutines ?cfg) =
      Ok (map (\<lambda>(k, v). (k, v)) (dcfBackupRoutines d'))"
  proof (rule mapEntries_built [of _ "routineEntry c"])
    fix k v p assume "(k, v) \<in> set (dcfBackupRoutines d')" and "deref stRoutines ?st p = routineEntry c v"
    moreover then obtain r m where "v = Some r" "routineToModel r c = Ok m"
      using b routineEntry_Some by fastforce
    ultimately show "Ok (NewRoutineFromModel (deref stRoutines ?st p) (Some ?cfg)) = Ok v"
      using routine_roundtrip [OF apart] by (simp add: NewRoutineFromModel_def routineEntry_def)
  qed (use b in simp)
  moreover have "mapEntries (\<lambda>p. Ok (NewSecretAgentFromModel (deref stAgents ?st p))) (cfSecretAgents ?cfg) =
      Ok (map (\<lambda>(k, v). (k, v)) (dcfSecretAgents d'))"
    by (rule mapEntries_built [of _ secretAgentToModel]) (use b in \<open>auto simp: secret_agent_roundtrip\<close>)
  ultimately show ?thesis
    using b entities_roundtrip [OF nn assms(2) credentials] by (simp add: NewConfigFromModel_def Let_def service_roundtrip lossy_def)
qed

section \<open>Where validation can panic\<close>

lemma validateBackupPolicy_no_Panic [simp]: "validateBackupPolicy v \<noteq> Panic p"
proof -
  have "validateCompression c \<noteq> Panic p" for c
    by (auto simp: validateCompression_def Let_def split: option.splits)
  then show ?thesis by (cases v) (simp_all add: validateBackupPolicy_def outcome_simps)
qed

lemma service_no_Panic [simp]: "validateHTTPServer h \<noteq> Panic p" "validateLogger l \<noteq> Panic p"
proof -
  show "validateHTTPServer h \<noteq> Panic p" by (auto simp: validateHTTPServer_def split: option.splits)
  have "validateFileLogger f \<noteq> Panic p" for f
    by (auto simp: validateFileLogger_def Let_def split: option.splits)
  then show "validateLogger l \<noteq> Panic p" by (cases l) (simp_all add: validateLogger_def outcome_simps)
qed

lemma added_no_Panic:
  "added (AddCluster k p c) \<noteq> Panic x" "added (AddStorage k p c) \<noteq> Panic x"
  "added (AddPolicy k p c) \<noteq> Panic x" "added (AddSecretAgent k p c) \<noteq> Panic x"
  "added (AddRoutine k p c) \<noteq> Panic x"
  by (simp_all add: added_def AddCluster_def AddStorage_def AddPolicy_def AddSecretAgent_def AddRoutine_def)

lemma routineToModel_Panic:
  assumes "routineToModel r c = Panic p"
  shows "\<exists>q. clusters c (dbrSourceCluster r) = Some q \<and> deref stClusters (fst c) q = None"
  using assms unfolding routineToModel_def
  by (auto simp: outcome_simps deref_def split: option.splits if_splits)

lemma routineToModel_no_Panic:
  assumes "built stClusters (map_option clusterToModel) (fst c) doc (cfAerospikeClusters (snd c))"
    and "\<And>k v. (k, v) \<in> set doc \<Longrightarrow> v \<noteq> None"
  shows "routineToModel r c \<noteq> Panic p"
proof
  assume "routineToModel r c = Panic p"
  from routineToModel_Panic [OF this] obtain q where
    q: "clusters c (dbrSourceCluster r) = Some q" "deref stClusters (fst c) q = None" by blast
  obtain v where "(dbrSourceCluster r, v) \<in> set doc" "deref stClusters (fst c) q = map_option clusterToModel v"
    by (rule built_lookup [OF assms(1) q(1)])
  then show False using q(2) assms(2) by fastforce
qed

lemma addRoutineEntry_same:
  assumes "same_entities c0 c" and "addRoutineEntry k v c = Ok c'"
  shows "same_entities c0 c'"
proof -
  obtain st cfg where c: "c = (st, cfg)" by (cases c)
  obtain m where c': "c' = (st\<lparr>stRoutines := (stRoutines st)(stNext st \<mapsto> m), stNext := stNext st + 1\<rparr>,
      cfg\<lparr>cfBackupRoutines := insert_key k (Some (stNext st)) (cfBackupRoutines cfg)\<rparr>)"
    using assms(2) by (auto simp: c addRoutineEntry_def added_def AddRoutine_def newRoutine_def outcome_simps
        split: option.splits if_splits)
  show ?thesis using assms(1) unfolding same_entities_def c c'
    by (subst routineToModel_frame [of _ cfg _ st]) simp_all
qed

lemma configToModel_no_Panic:
  assumes nn: "no_nulls d"
  shows "configToModel d emptyStore \<noteq> Panic p"
proof
  assume panic: "configToModel d emptyStore = Panic p"
  let ?cfg = "NewConfig\<lparr>cfServiceConfig := serviceToModel (dcfServiceConfig d)\<rparr>"
  have nonnull: "\<And>k v. (k, v) \<in> set (dcfAerospikeClusters d) \<Longrightarrow> v \<noteq> None"
    "\<And>k v. (k, v) \<in> set (dcfStorage d) \<Longrightarrow> v \<noteq> None"
    "\<And>k v. (k, v) \<in> set (dcfBackupPolicies d) \<Longrightarrow> v \<noteq> None"
    "\<And>k v. (k, v) \<in> set (dcfBackupRoutines d) \<Longrightarrow> v \<noteq> None"
    using nn by (fastforce simp: no_nulls_def)+
  note defs = addClusterEntry_def addStorageEntry_def addPolicyEntry_def addAgentEntry_def
  have e1: "eachEntry addClusterEntry (dcfAerospikeClusters d) (emptyStore, ?cfg) \<noteq> Panic p"
    by (rule eachEntry_no_panic [where I = "\<lambda>_. True"])
      (use nonnull(1) added_no_Panic in \<open>fastforce simp: defs split: option.splits prod.splits\<close>)+
  have e2: "eachEntry addStorageEntry (dcfStorage d) m \<noteq> Panic p" for m
    by (rule eachEntry_no_panic [where I = "\<lambda>_. True"])
      (use nonnull(2) added_no_Panic in \<open>fastforce simp: defs split: option.splits prod.splits\<close>)+
  have e3: "eachEntry addPolicyEntry (dcfBackupPolicies d) m \<noteq> Panic p" for m
    by (rule eachEntry_no_panic [where I = "\<lambda>_. True"])
      (use nonnull(3) added_no_Panic in \<open>fastforce simp: defs split: option.splits prod.splits\<close>)+
  have e4: "eachEntry addAgentEntry (dcfSecretAgents d) m \<noteq> Panic p" for m
    by (rule eachEntry_no_panic [where I = "\<lambda>_. True"])
      (use added_no_Panic in \<open>fastforce simp: defs split: option.splits prod.splits\<close>)+
  from panic e1 e2 e3 e4 obtain m where
    m: "configToModel (d\<lparr>dcfBackupRoutines := []\<rparr>) emptyStore = Ok m"
    and loop: "eachEntry addRoutineEntry (dcfBackupRoutines d) m = Panic p"
    by (auto simp: configToModel_def outcome_simps)
  have b: "built stClusters (map_option clusterToModel) (fst m) (dcfAerospikeClusters d) (cfAerospikeClusters (snd m))"
    using configToModel_built [OF m fresh_empty] by simp
  have "eachEntry addRoutineEntry (dcfBackupRoutines d) m \<noteq> Panic p"
  proof (rule eachEntry_no_panic [where I = "same_entities m"])
    fix k v s assume kv: "(k, v) \<in> set (dcfBackupRoutines d)" and s: "same_entities m s"
    have "routineToModel r s \<noteq> Panic p" for r
      using routineToModel_no_Panic [OF b nonnull(1)] s by (simp add: same_entities_def)
    then show "addRoutineEntry k v s \<noteq> Panic p"
      using nonnull(4) [OF kv] added_no_Panic(5)
      by (auto simp: addRoutineEntry_def newRoutine_def outcome_simps)
  next
    show "same_entities m m" by (simp add: same_entities_def)
  qed (rule addRoutineEntry_same)
  then show False using loop by contradiction
qed

text \<open>
  C34: Validating a configuration document panics only when some routine entry is null (the
  methods of the other entities test for nil, the routine's does not).
\<close>

theorem validation_panics_on_null_routine:
  assumes "validateConfig cron d = Panic p"
  shows "\<exists>name. (name, None) \<in> set (dcfBackupRoutines d)"
proof (rule ccontr)
  assume n: "\<nexists>name. (name, None) \<in> set (dcfBackupRoutines d)"
  have "eachEntry (checkRoutine cron) (dcfBackupRoutines d) () \<noteq> Panic p"
    by (rule eachEntry_no_panic [where I = "\<lambda>_. True"])
      (use n validateRoutine_Panic in \<open>auto simp: checkRoutine_def outcome_simps\<close>)
  moreover have "eachEntry checkStorage (dcfStorage d) () \<noteq> Panic p"
    by (rule eachEntry_no_panic [where I = "\<lambda>_. True"]) (auto simp: checkStorage_def outcome_simps)
  moreover have "eachEntry checkCluster (dcfAerospikeClusters d) () \<noteq> Panic p"
    by (rule eachEntry_no_panic [where I = "\<lambda>_. True"]) (auto simp: checkCluster_def outcome_simps)
  moreover have "eachEntry checkPolicy (dcfBackupPolicies d) [] \<noteq> Panic p"
    by (rule eachEntry_no_panic [where I = "\<lambda>_. True"]) (auto simp: checkPolicy_def outcome_simps)
  ultimately obtain d' where d': "checked_document cron d d'" and panic: "configToModel d' emptyStore = Panic p"
    using assms by (auto simp: validateConfig_def checked_document_def outcome_simps Let_def)
  show False using configToModel_no_Panic [OF checked_no_nulls [OF d']] panic by contradiction
qed

section \<open>A concrete document\<close>

definition demo_routine_doc :: DtoBackupRoutine where
  "demo_routine_doc =
     \<lparr>dbrBackupPolicy = ''p'', dbrSourceCluster = ''c'', dbrStorage = ''s'', dbrSecretAgent = Some ''a'',
      dbrIntervalCron = ''@daily'', dbrIncrIntervalCron = [], dbrNamespaces = [''test''], dbrSetList = [],
      dbrBinList = [], dbrPreferRacks = [], dbrPartitionList = None\<rparr>"

definition demo_cluster_doc :: DtoAerospikeCluster where
  "demo_cluster_doc =
     \<lparr>dacClusterLabel = None,
      dacSeedNodes = [\<lparr>dsnHostName = ''localhost'', dsnPort = 3000, dsnTLSName = []\<rparr>],
      dacConnTimeout = None, dacUseServicesAlternate = None,
      dacCredentials = Some \<lparr>dcrUser = Some ''tester'', dcrPassword = Some ''psw'', dcrPasswordPath = None,
                             dcrAuthMode = None\<rparr>,
      dacTLS = None, dacMaxParallelScans = None\<rparr>"

definition demo_agent_doc :: DtoSecretAgent where
  "demo_agent_doc =
     \<lparr>dsaConnectionType = None, dsaAddress = Some ''localhost'', dsaPort = None, dsaTimeout = None,
      dsaTLSCAString = None, dsaIsBase64 = None\<rparr>"

definition demo_document :: DtoConfig where
  "demo_document = NewConfigWithDefaultValues
     \<lparr>dcfAerospikeClusters := [(''c'', Some demo_cluster_doc)],
      dcfStorage := [(''s'', Some (newStorage\<lparr>dstLocalStorage := Some \<lparr>dlsPath = ''/backups''\<rparr>\<rparr>))],
      dcfBackupPolicies := [(''p'', Some newBackupPolicy)],
      dcfBackupRoutines := [(''r'', Some demo_routine_doc)],
      dcfSecretAgents := [(''a'', Some demo_agent_doc)]\<rparr>"

lemmas demo_doc_defs = demo_document_def demo_routine_doc_def demo_cluster_doc_def demo_agent_doc_def
  newStorage_def newBackupPolicy_def NewConfigWithDefaultValues_def emptyStore_def NewConfig_def

definition demo_loaded :: conf where
  "demo_loaded = (case configToModel demo_document emptyStore of Ok c \<Rightarrow> c | _ \<Rightarrow> (emptyStore, NewConfig))"

lemma demo_document_loads: "configToModel demo_document emptyStore = Ok demo_loaded"
  by (simp add: demo_loaded_def configToModel_def demo_doc_defs alloc_defs Let_def
      addClusterEntry_def addStorageEntry_def addPolicyEntry_def addAgentEntry_def addRoutineEntry_def
      added_def AddCluster_def AddStorage_def AddPolicy_def AddSecretAgent_def AddRoutine_def
      clusterToModel_def storageToModel_def secretAgentToModel_def routineToModel_def)

lemma demo_document_valid: "validateConfig (\<lambda>s. None) demo_document = Ok demo_document"
proof -
  have "eachEntry (checkRoutine (\<lambda>s. None)) (dcfBackupRoutines demo_document) () = Ok ()"
    by (simp add: demo_doc_defs checkRoutine_def in_entry_def validateRoutine_def)
  moreover have "eachEntry checkStorage (dcfStorage demo_document) () = Ok ()"
    by (simp add: demo_doc_defs checkStorage_def in_entry_def validateStorage_def storageValidators_def
        validateLocalStorage_def)
  moreover have "eachEntry checkCluster (dcfAerospikeClusters demo_document) () = Ok ()"
    by (simp add: demo_doc_defs checkCluster_def in_entry_def validateCluster_def validateSeedNode_def)
  moreover have "eachEntry checkPolicy (dcfBackupPolicies demo_document) [] = Ok (dcfBackupPolicies demo_document)"
    by (simp add: demo_doc_defs checkPolicy_def validateBackupPolicy_def positive_def negative_def
        validateEncryption_def validateCompression_def)
  moreover have "validateHTTPServer (dscHTTPServer (dcfServiceConfig demo_document)) = Ok ()"
    by (simp add: demo_doc_defs validateHTTPServer_def negative_def)
  moreover have "validateLogger (dscLogger (dcfServiceConfig demo_document)) =
      Ok (dscLogger (dcfServiceConfig demo_document))"
    by (simp add: demo_doc_defs validateLogger_def validateFileLogger_def)
  ultimately show ?thesis by (simp add: validateConfig_def demo_document_loads)
qed

theorem validated_config_sound_witness:
  "\<exists>c. configToModel demo_document emptyStore = Ok c \<and> wf_conf c \<and> conf_sound c"
  using validated_config_sound [OF demo_document_valid] .

theorem config_roundtrip_witness:
  "configToModel demo_document emptyStore = Ok demo_loaded \<and>
   NewConfigFromModel demo_loaded = Ok (lossy demo_document)"
  using config_roundtrip [OF demo_document_valid demo_document_loads] demo_document_loads
  by (simp add: demo_doc_defs)

theorem validation_panics_on_null_routine_witness:
  "\<exists>name. (name, None) \<in> set (dcfBackupRoutines (demo_document\<lparr>dcfBackupRoutines := [(''r'', None)]\<rparr>))"
  by (rule validation_panics_on_null_routine [of "\<lambda>s. None" _ NilDereference])
    (simp add: validateConfig_def checkRoutine_def in_entry_def validateRoutine_def)

end
