(* ===== verification/DtoRequests.thy ===== *)
theory DtoRequests
  imports DtoConfigProps
begin

text \<open>
  The documents of the restore and monitoring requests: \<open>pkg/dto/restore_request.go\<close>,
  \<open>current_backup.go\<close>, \<open>restore_result.go\<close>, \<open>backup_details.go\<close> and the generic conversions of
  \<open>base_dto.go\<close>.
\<close>

section \<open>Restore requests\<close>

record DtoRestoreRequest =
  drrDestinationCuster :: "DtoAerospikeCluster option"
  drrPolicy :: "DtoRestorePolicy option"
  drrSourceStorage :: "DtoStorage option"
  drrSecretAgent :: "DtoSecretAgent option"
  drrBackupDataPath :: "string option"

record DtoRestoreTimestampRequest =
  drtDestinationCuster :: "DtoAerospikeCluster option"
  drtPolicy :: "DtoRestorePolicy option"
  drtSecretAgent :: "DtoSecretAgent option"
  drtTime :: int64
  drtRoutine :: string

text \<open>The policy is validated twice; the second time it is the policy the first one completed.\<close>

definition validateRestoreRequest :: "DtoRestoreRequest \<Rightarrow> DtoRestoreRequest checked" where
  "validateRestoreRequest r =
     (if drrBackupDataPath r = None then Err (Message ''path is not specified'')
      else and_then (validateCluster (drrDestinationCuster r)) (\<lambda>_.
           and_then (validateRestorePolicy (drrPolicy r)) (\<lambda>policy.
           and_then (validateStorage (drrSourceStorage r)) (\<lambda>_.
           and_then (validateRestorePolicy (Some policy)) (\<lambda>policy2.
           Ok (r\<lparr>drrPolicy := Some policy2\<rparr>))))))"

definition validateRestoreTimestampRequest ::
  "Config option \<Rightarrow> DtoRestoreTimestampRequest \<Rightarrow> DtoRestoreTimestampRequest checked" where
  "validateRestoreTimestampRequest config r =
     and_then (validateCluster (drtDestinationCuster r)) (\<lambda>_.
     and_then (validateRestorePolicy (drtPolicy r)) (\<lambda>policy.
     if sint (drtTime r) \<le> 0 then Err (Message ''restore point in time should be positive'')
     else if drtRoutine r = [] then Err (emptyFieldValidationError (drtRoutine r))
     else case config of
            None \<Rightarrow> Panic NilDereference
          | Some c \<Rightarrow>
              (if lookup (cfBackupRoutines c) (drtRoutine r) = None
               then Err (notFoundValidationError ''routine'' (drtRoutine r))
               else Ok (r\<lparr>drtPolicy := Some policy\<rparr>))))"

text \<open>\<open>ToModel\<close> dereferences the cluster and the storage; the agent and the policy may be nil.\<close>

definition restoreTimestampRequestToModel ::
  "DtoRestoreTimestampRequest \<Rightarrow> store \<Rightarrow> (store \<times> RestoreTimestampRequest) checked" where
  "restoreTimestampRequestToModel r st =
     (case drtDestinationCuster r of
        None \<Rightarrow> Panic NilDereference
      | Some cluster \<Rightarrow>
          let (st1, c) = newCluster (clusterToModel cluster) st;
              (st2, a) = newAgent (secretAgentToModel (drtSecretAgent r)) st1
          in Ok (st2, \<lparr>rtDestinationCuster = c, rtPolicy = restorePolicyToModel (drtPolicy r), rtSecretAgent = a,
                      rtTime = timeUnixMilli (drtTime r), rtRoutine = drtRoutine r\<rparr>))"

definition restoreRequestToModel :: "DtoRestoreRequest \<Rightarrow> store \<Rightarrow> (store \<times> RestoreRequest) checked" where
  "restoreRequestToModel r st =
     (let path = (case drrBackupDataPath r of None \<Rightarrow> [] | Some p \<Rightarrow> p) in
      case drrDestinationCuster r of
        None \<Rightarrow> Panic NilDereference
      | Some cluster \<Rightarrow>
     (case drrSourceStorage r of
        None \<Rightarrow> Panic NilDereference
      | Some storage \<Rightarrow>
          let (st1, c) = newCluster (clusterToModel cluster) st;
              (st2, s) = newStorageObject (storageToModel storage) st1;
              (st3, a) = newAgent (secretAgentToModel (drrSecretAgent r)) st2
          in Ok (st3, \<lparr>rrDestinationCuster = c, rrPolicy = restorePolicyToModel (drrPolicy r), rrSourceStorage = s,
                      rrSecretAgent = a, rrBackupDataPath = path\<rparr>)))"

section \<open>Running jobs and results\<close>

record DtoRunningJob =
  drjTotalRecords :: uint64
  drjDoneRecords :: uint64
  drjStartTime :: time
  drjPercentageDone :: gouint
  drjEstimatedEndTime :: "time option"

record DtoCurrentBackups =
  dcbFull :: "DtoRunningJob option"
  dcbIncremental :: "DtoRunningJob option"

definition NewRunningJobFromModel :: "RunningJob option \<Rightarrow> DtoRunningJob option" where
  "NewRunningJobFromModel p =
     (case p of
        None \<Rightarrow> None
      | Some m \<Rightarrow> Some
          \<lparr>drjTotalRecords = rjTotalRecords m, drjDoneRecords = rjDoneRecords m, drjStartTime = rjStartTime m,
           drjPercentageDone = rjPercentageDone m, drjEstimatedEndTime = rjEstimatedEndTime m\<rparr>)"

definition NewCurrentBackupsFromModel :: "CurrentBackups option \<Rightarrow> DtoCurrentBackups option" where
  "NewCurrentBackupsFromModel p =
     (case p of
        None \<Rightarrow> None
      | Some m \<Rightarrow> Some \<lparr>dcbFull = NewRunningJobFromModel (cbFull m),
                        dcbIncremental = NewRunningJobFromModel (cbIncremental m)\<rparr>)"

record DtoRestoreStats =
  drsReadRecords :: uint64
  drsTotalBytes :: uint64
  drsExpiredRecords :: uint64
  drsSkippedRecords :: uint64
  drsIgnoredRecords :: uint64
  drsInsertedRecords :: uint64
  drsExistedRecords :: uint64
  drsFresherRecords :: uint64
  drsIndexCount :: uint64
  drsUDFCount :: uint64

record DtoRestoreJobStatus = DtoRestoreStats +
  djsCurrentRestore :: "DtoRunningJob option"
  djsStatus :: string
  djsError :: string

fun status_text :: "JobStatus \<Rightarrow> string" where
  "status_text JobStatusRunning = ''Running''"
| "status_text JobStatusDone = ''Done''"
| "status_text JobStatusFailed = ''Failed''"

definition NewResultFromModel :: "RestoreJobStatus option \<Rightarrow> DtoRestoreJobStatus option" where
  "NewResultFromModel p =
     (case p of
        None \<Rightarrow> None
      | Some m \<Rightarrow> Some
          \<lparr>drsReadRecords = ReadRecords m, drsTotalBytes = TotalBytes m, drsExpiredRecords = ExpiredRecords m,
           drsSkippedRecords = SkippedRecords m, drsIgnoredRecords = IgnoredRecords m,
           drsInsertedRecords = InsertedRecords m, drsExistedRecords = ExistedRecords m,
           drsFresherRecords = FresherRecords m, drsIndexCount = IndexCount m, drsUDFCount = rsUDFCount m,
           djsCurrentRestore = NewRunningJobFromModel (CurrentRestore m),
           djsStatus = status_text (jsStatus m), djsError = jsError m\<rparr>)"

section \<open>Backup details\<close>

record DtoBackupMetadata =
  dbmCreated :: time
  dbmFrom :: time
  dbmNamespace :: string
  dbmRecordCount :: uint64
  dbmByteCount :: uint64
  dbmFileCount :: uint64
  dbmSecondaryIndexCount :: uint64
  dbmUDFCount :: uint64

record DtoBackupDetails = DtoBackupMetadata +
  dbmKey :: string
  dbmStorage :: "DtoStorage option"

definition NewBackupDetailsFromModel :: "store \<Rightarrow> BackupDetails \<Rightarrow> DtoBackupDetails" where
  "NewBackupDetailsFromModel st m =
     \<lparr>dbmCreated = Created m, dbmFrom = From m, dbmNamespace = Namespace m, dbmRecordCount = RecordCount m,
      dbmByteCount = ByteCount m, dbmFileCount = FileCount m, dbmSecondaryIndexCount = SecondaryIndexCount m,
      dbmUDFCount = UDFCount m, dbmKey = Key m,
      dbmStorage = NewStorageFromModel (deref stStorages st (bdStorage m))\<rparr>"

definition ConvertBackupDetailsMap ::
  "store \<Rightarrow> (string, BackupDetails list) gomap \<Rightarrow> (string, DtoBackupDetails list) gomap" where
  "ConvertBackupDetailsMap st modelMap =
     map (\<lambda>(key, modelSlice). (key, map (NewBackupDetailsFromModel st) modelSlice)) modelMap"

definition ConvertModelsToDTO :: "'m list \<Rightarrow> ('m \<Rightarrow> 'd) \<Rightarrow> 'd list" where
  "ConvertModelsToDTO models dtoConstructor = map dtoConstructor models"

definition ConvertModelMapToDTO ::
  "(string, ptr) gomap \<Rightarrow> (ptr \<Rightarrow> 'd checked) \<Rightarrow> (string, 'd) gomap checked" where
  "ConvertModelMapToDTO modelMap dtoConstructor = mapEntries dtoConstructor modelMap"

definition ConvertStorageMapToDTO :: "store \<Rightarrow> (string, ptr) gomap \<Rightarrow> (string, DtoStorage option) gomap" where
  "ConvertStorageMapToDTO st modelMap =
     map (\<lambda>(key, s). (key, NewStorageFromModel (deref stStorages st s))) modelMap"

section \<open>What an accepted restore request converts to\<close>

lemma validateRestorePolicy_idem:
  assumes "validateRestorePolicy (Some p) = Ok q"
  shows "validateRestorePolicy (Some q) = Ok q"
proof -
  obtain c where c: "validateCompression (drpCompressionPolicy p) = Ok c" and q: "q = p\<lparr>drpCompressionPolicy := c\<rparr>"
    using assms by (auto simp: validateRestorePolicy_def outcome_simps split: if_splits)
  have "validateRestorePolicy (Some q) = validateRestorePolicy (Some p)"
    using c validateCompression_Ok(2) [OF c]
    by (simp add: validateRestorePolicy_def q cong: if_cong)
  then show ?thesis using assms by simp
qed

text \<open>
  An accepted restore request converts without a panic: it is left as it was except for the
  compression level of its policy, validating the policy a second time changes nothing, and the
  cluster, the storage and the path of the request are those of the document.
\<close>

theorem restore_request_converts:
  assumes "validateRestoreRequest r = Ok r'"
  shows "r' = r\<lparr>drrPolicy := drrPolicy r'\<rparr> \<and> validateRestorePolicy (drrPolicy r) = Ok (the (drrPolicy r')) \<and>
    (\<exists>st' m cluster storage. restoreRequestToModel r' st = Ok (st', m) \<and>
       drrDestinationCuster r = Some cluster \<and>
       deref stClusters st' (rrDestinationCuster m) = Some (clusterToModel cluster) \<and>
       drrSourceStorage r = Some storage \<and>
       deref stStorages st' (rrSourceStorage m) = storageToModel storage \<and>
       Some (rrBackupDataPath m) = drrBackupDataPath r \<and>
       rrPolicy m = restorePolicyToModel (drrPolicy r'))"
proof -
  obtain policy where v: "drrBackupDataPath r \<noteq> None" "validateCluster (drrDestinationCuster r) = Ok ()"
    "validateRestorePolicy (drrPolicy r) = Ok policy" "validateStorage (drrSourceStorage r) = Ok ()"
    "r' = r\<lparr>drrPolicy := Some policy\<rparr>"
  proof -
    obtain p1 p2 where p: "drrBackupDataPath r \<noteq> None" "validateCluster (drrDestinationCuster r) = Ok ()"
      "validateRestorePolicy (drrPolicy r) = Ok p1" "validateStorage (drrSourceStorage r) = Ok ()"
      "validateRestorePolicy (Some p1) = Ok p2" "r' = r\<lparr>drrPolicy := Some p2\<rparr>"
      using assms by (auto simp: validateRestoreRequest_def outcome_simps split: if_splits)
    obtain q where "drrPolicy r = Some q" using p(3) by (cases "drrPolicy r") (simp_all add: validateRestorePolicy_def)
    then have "p2 = p1" using validateRestorePolicy_idem p(3,5) by simp
    then show thesis using that p by simp
  qed
  obtain cluster where "drrDestinationCuster r = Some cluster" using v(2) by (auto simp: validateCluster_Ok)
  moreover obtain storage where "drrSourceStorage r = Some storage"
    using validateStorage_Some [OF v(4)] by blast
  ultimately show ?thesis using v
    by (auto simp: restoreRequestToModel_def newCluster_def newStorageObject_def newAgent_def deref_def Let_def
        split: option.splits)
qed

definition demo_restore_policy :: DtoRestorePolicy where
  "demo_restore_policy =
     \<lparr>drpParallel = Some 8, drpNoRecords = None, drpNoIndexes = None, drpNoUdfs = None, drpTimeout = None,
      drpDisableBatchWrites = None, drpMaxAsyncBatches = None, drpBatchSize = None, drpNamespace = None,
      drpSetList = [], drpBinList = [], drpReplace = None, drpUnique = None, drpNoGeneration = None,
      drpBandwidth = None, drpTps = None, drpEncryptionPolicy = None,
      drpCompressionPolicy = None, drpRetryPolicy = None, drpExtraTTL = None\<rparr>"

definition demo_restore_request :: DtoRestoreRequest where
  "demo_restore_request =
     \<lparr>drrDestinationCuster = Some demo_cluster_doc, drrPolicy = Some demo_restore_policy,
      drrSourceStorage = Some (newStorage\<lparr>dstLocalStorage := Some \<lparr>dlsPath = ''/backups''\<rparr>\<rparr>),
      drrSecretAgent = None, drrBackupDataPath = Some ''r/backup/1/data/ns''\<rparr>"

theorem restore_request_converts_witness:
  "validateRestoreRequest demo_restore_request = Ok demo_restore_request \<and>
   (\<exists>st' m. restoreRequestToModel demo_restore_request emptyStore = Ok (st', m) \<and>
      rrBackupDataPath m = ''r/backup/1/data/ns'')"
proof -
  have ok: "validateRestoreRequest demo_restore_request = Ok demo_restore_request"
    by (simp add: demo_restore_request_def demo_cluster_doc_def demo_restore_policy_def newStorage_def
        validateRestoreRequest_def validateCluster_def validateSeedNode_def validateStorage_def
        storageValidators_def validateLocalStorage_def validateRestorePolicy_def positive_def
        validateEncryption_def validateCompression_def validateRetry_def)
  from restore_request_converts [OF ok, of emptyStore] show ?thesis using ok
    by (auto simp: demo_restore_request_def)
qed

end
