(* ===== verification/Paths.thy ===== *)
theory Paths
  imports DtoRequests
begin

text \<open>
  \<open>pkg/service/paths.go\<close> and \<open>pkg/model/constants.go\<close>: where a backup, its metadata and the
  cluster configuration are written, and the key under which a backup is listed.
\<close>

definition StateFileName :: string where "StateFileName = ''state.yaml''"
definition IncrementalBackupDirectory :: string where "IncrementalBackupDirectory = ''incremental''"
definition FullBackupDirectory :: string where "FullBackupDirectory = ''backup''"
definition ConfigurationBackupDirectory :: string where "ConfigurationBackupDirectory = ''configuration''"
definition DataDirectory :: string where "DataDirectory = ''data''"
definition metadataFile :: string where "metadataFile = ''metadata.yaml''"
definition configExt :: string where "configExt = ''.conf''"

lemmas directory_defs = StateFileName_def IncrementalBackupDirectory_def FullBackupDirectory_def
  ConfigurationBackupDirectory_def DataDirectory_def metadataFile_def configExt_def

definition formatTime :: "time \<Rightarrow> string" where
  "formatTime t = FormatInt (UnixMilli t)"

definition getFullPath :: "string \<Rightarrow> BackupPolicy \<Rightarrow> string \<Rightarrow> time \<Rightarrow> string" where
  "getFullPath fullBackupsPath backupPolicy namespace now =
     (if RemoveFullBackup (bpRemoveFiles backupPolicy)
      then fullBackupsPath @ ''/'' @ DataDirectory @ ''/'' @ namespace
      else fullBackupsPath @ ''/'' @ formatTime now @ ''/'' @ DataDirectory @ ''/'' @ namespace)"

definition getIncrementalPath :: "string \<Rightarrow> time \<Rightarrow> string" where
  "getIncrementalPath incrBackupsPath t = incrBackupsPath @ ''/'' @ formatTime t"

definition getIncrementalPathForNamespace :: "string \<Rightarrow> string \<Rightarrow> time \<Rightarrow> string" where
  "getIncrementalPathForNamespace incrBackupsPath namespace t =
     getIncrementalPath incrBackupsPath t @ ''/'' @ DataDirectory @ ''/'' @ namespace"

definition getConfigFileName :: "nat \<Rightarrow> string" where
  "getConfigFileName i = ''aerospike_'' @ nat_string i @ configExt"

definition getConfigurationFile :: "string \<Rightarrow> BackupPolicy \<Rightarrow> time \<Rightarrow> nat \<Rightarrow> string" where
  "getConfigurationFile fullBackupsPath backupPolicy t i =
     (let path = (if RemoveFullBackup (bpRemoveFiles backupPolicy)
                  then fullBackupsPath @ ''/'' @ ConfigurationBackupDirectory
                  else fullBackupsPath @ ''/'' @ formatTime t @ ''/'' @ ConfigurationBackupDirectory)
      in Join [path, getConfigFileName i])"

text \<open>\<open>getKey\<close> writes the directory \<open>data\<close> as a literal, not through the constant.\<close>

definition getKey :: "string \<Rightarrow> 'a BackupMetadata_scheme \<Rightarrow> bool \<Rightarrow> string" where
  "getKey path metadata noTimestampInPath =
     (if noTimestampInPath then path @ ''/data/'' @ Namespace metadata
      else path @ ''/'' @ FormatInt (UnixMilli (Created metadata)) @ ''/data/'' @ Namespace metadata)"

section \<open>Keys and folders\<close>

lemma getKey_full:
  "getKey dir m (RemoveFullBackup (bpRemoveFiles policy)) = getFullPath dir policy (Namespace m) (Created m)"
  by (simp add: getKey_def getFullPath_def formatTime_def DataDirectory_def)

lemma getKey_incremental:
  "getKey dir m False = getIncrementalPathForNamespace dir (Namespace m) (Created m)"
  by (simp add: getKey_def getIncrementalPathForNamespace_def getIncrementalPath_def formatTime_def DataDirectory_def)

lemma formatTime_inject: "formatTime t = formatTime u \<longleftrightarrow> UnixMilli t = UnixMilli u"
  by (auto simp: formatTime_def FormatInt_inject)

end
