(* ===== verification/StorageOps.thy ===== *)
theory StorageOps
  imports Paths
begin

text \<open>
  \<open>pkg/service/storage\<close>: the accessor of each storage type, and reading, writing and deleting
  through it. What the backup library and the cloud SDKs answer are the fields of
  \<open>storage_lib\<close>; everything the service passes to them and does with the answers is modelled.
\<close>

section \<open>The libraries\<close>

text \<open>
  An error of the libraries, with what the service asks of it: its text, whether it is
  \<open>os.ErrNotExist\<close> (\<open>errors.Is\<close>), whether it is \<open>io.EOF\<close>.
\<close>

record io_error =
  ioText :: string
  ioNotExist :: bool
  ioEOF :: bool

definition wrap :: "string \<Rightarrow> io_error \<Rightarrow> io_error" where
  "wrap prefix e = e\<lparr>ioText := prefix @ ioText e, ioEOF := False\<rparr>"

text \<open>The filter of a reader: none, by the suffix of the name, or the library's own \<open>asb\<close> filter.\<close>

datatype Validator = NoValidator | NameValidator "string option" | AsbValidator

text \<open>The options given to a reader or a writer of the backup library.\<close>

record open_options =
  ooIsFile :: bool
  ooPath :: string
  ooValidator :: Validator
  ooNestedDir :: bool
  ooStartFrom :: "string option"
  ooRemoveFiles :: bool

datatype client_config =
    NoClient
  | AwsClient (awsProfile: string) (awsRegion: string) (awsEndpoint: "string option") (awsMaxConns: "goint option")
  | GoogleClient (credentialsFile: "string option") (googleEndpoint: "string option")
  | AzureKeyClient string string string
  | AzureADClient string string string string
  | AzureAnonymousClient string

text \<open>
  What arrives on the channels of \<open>StreamFiles\<close>, in the order the loop of the service sees it: the
  files, each with its content or the error of copying it, and then the end.
\<close>

datatype stream_end = StreamError io_error | StreamClosed | ContextDone io_error

record stream =
  smFiles :: "(io_error, bytes) outcome list"
  smEnd :: stream_end

record storage_lib =
  slClient :: "client_config \<Rightarrow> io_error option"
  slReader :: "client_config \<Rightarrow> string \<Rightarrow> open_options \<Rightarrow> (io_error, stream) outcome"
  slWriter :: "client_config \<Rightarrow> string \<Rightarrow> open_options \<Rightarrow> (io_error, nat) outcome"
  slNewWriter :: "nat \<Rightarrow> (io_error, nat) outcome"
  slWrite :: "nat \<Rightarrow> bytes \<Rightarrow> io_error option"
  slRemoveFiles :: "nat \<Rightarrow> io_error option"

fun checked_io :: "io_error option \<Rightarrow> (io_error, unit) outcome" where
  "checked_io None = Ok ()"
| "checked_io (Some e) = Err e"

section \<open>Filters\<close>

definition newNameValidator :: "string \<Rightarrow> Validator" where
  "newNameValidator s = (if s \<noteq> [] then NameValidator (Some s) else NameValidator None)"

fun runNameValidator :: "string option \<Rightarrow> string \<Rightarrow> (string, unit) outcome" where
  "runNameValidator None path = Ok ()"
| "runNameValidator (Some suffix) path =
     (if suffix = [] then Ok ()
      else if HasSuffix path suffix then Ok ()
      else Err (''skipped by filter '' @ [CHR 0x27] @ suffix @ [CHR 0x27]))"

section \<open>Accessors\<close>

datatype Accessor = AzureStorageAccessor | GcpStorageAccessor | LocalStorageAccessor | S3StorageAccessor

text \<open>The \<open>init\<close> functions run in the order of the file names.\<close>

definition accessors :: "Accessor list" where
  "accessors = [AzureStorageAccessor, GcpStorageAccessor, LocalStorageAccessor, S3StorageAccessor]"

fun supports :: "Accessor \<Rightarrow> Storage option \<Rightarrow> bool" where
  "supports LocalStorageAccessor s = (case s of Some (Local ls) \<Rightarrow> True | _ \<Rightarrow> False)"
| "supports S3StorageAccessor s = (case s of Some (S3 ls) \<Rightarrow> True | _ \<Rightarrow> False)"
| "supports GcpStorageAccessor s = (case s of Some (Gcp ls) \<Rightarrow> True | _ \<Rightarrow> False)"
| "supports AzureStorageAccessor s = (case s of Some (Azure ls) \<Rightarrow> True | _ \<Rightarrow> False)"

fun findAccessor :: "Accessor list \<Rightarrow> Storage option \<Rightarrow> ('e, Accessor) outcome" where
  "findAccessor [] s = Panic UnsupportedStorage"
| "findAccessor (a # as) s = (if supports a s then Ok a else findAccessor as s)"

definition getAccessor :: "Storage option \<Rightarrow> ('e, Accessor) outcome" where
  "getAccessor s = findAccessor accessors s"

definition getS3Client :: "S3Storage \<Rightarrow> client_config" where
  "getS3Client s =
     AwsClient (s3Profile s) (s3Region s)
       (if s3EndpointOverride s \<noteq> None \<and> s3EndpointOverride s \<noteq> Some [] then s3EndpointOverride s else None)
       (if 0 < sint (s3MaxConnsPerHost s) then Some (s3MaxConnsPerHost s) else None)"

definition getGcpClient :: "GcpStorage \<Rightarrow> client_config" where
  "getGcpClient g =
     GoogleClient (if gcpKeyFile g \<noteq> [] then Some (gcpKeyFile g) else None)
                  (if gcpEndpoint g \<noteq> [] then Some (gcpEndpoint g) else None)"

definition getAzureClient :: "AzureStorage \<Rightarrow> client_config" where
  "getAzureClient a =
     (case azAuth a of
        Some (AzureSharedKeyAuth name key) \<Rightarrow> AzureKeyClient (azEndpoint a) name key
      | Some (AzureADAuth tenant client secret) \<Rightarrow> AzureADClient (azEndpoint a) tenant client secret
      | None \<Rightarrow> AzureAnonymousClient (azEndpoint a))"

text \<open>
  The options of a reader and of a writer. Local storage ignores where to start the scan; it also
  needs no client. Each accessor joins the requested path to the path of its storage.
\<close>

definition reader_options :: "Accessor \<Rightarrow> string \<Rightarrow> bool \<Rightarrow> Validator \<Rightarrow> string \<Rightarrow> open_options" where
  "reader_options a fullPath isFile validator startScanFrom =
     \<lparr>ooIsFile = isFile, ooPath = fullPath, ooValidator = validator, ooNestedDir = True,
      ooStartFrom = (if a = LocalStorageAccessor then None else Some startScanFrom), ooRemoveFiles = False\<rparr>"

definition writer_options :: "string \<Rightarrow> bool \<Rightarrow> bool \<Rightarrow> bool \<Rightarrow> open_options" where
  "writer_options fullPath isFile isRemoveFiles withNested =
     \<lparr>ooIsFile = isFile, ooPath = fullPath, ooValidator = NoValidator, ooNestedDir = withNested,
      ooStartFrom = None, ooRemoveFiles = isRemoveFiles\<rparr>"

definition localCreateReader ::
  "storage_lib \<Rightarrow> LocalStorage \<Rightarrow> string \<Rightarrow> bool \<Rightarrow> Validator \<Rightarrow> string \<Rightarrow> (io_error, stream) outcome" where
  "localCreateReader lib ls path isFile v startScanFrom =
     slReader lib NoClient [] (reader_options LocalStorageAccessor (Join [lsPath ls, path]) isFile v startScanFrom)"

definition localCreateWriter ::
  "storage_lib \<Rightarrow> LocalStorage \<Rightarrow> string \<Rightarrow> bool \<Rightarrow> bool \<Rightarrow> bool \<Rightarrow> (io_error, nat) outcome" where
  "localCreateWriter lib ls path isFile isRemoveFiles withNested =
     slWriter lib NoClient [] (writer_options (Join [lsPath ls, path]) isFile isRemoveFiles withNested)"

definition s3CreateReader ::
  "storage_lib \<Rightarrow> S3Storage \<Rightarrow> string \<Rightarrow> bool \<Rightarrow> Validator \<Rightarrow> string \<Rightarrow> (io_error, stream) outcome" where
  "s3CreateReader lib s3s path isFile v startScanFrom =
     and_then (checked_io (slClient lib (getS3Client s3s))) (\<lambda>_.
     slReader lib (getS3Client s3s) (s3Bucket s3s)
       (reader_options S3StorageAccessor (Join [s3Path s3s, path]) isFile v startScanFrom))"

definition s3CreateWriter ::
  "storage_lib \<Rightarrow> S3Storage \<Rightarrow> string \<Rightarrow> bool \<Rightarrow> bool \<Rightarrow> bool \<Rightarrow> (io_error, nat) outcome" where
  "s3CreateWriter lib s3s path isFile isRemoveFiles withNested =
     and_then (checked_io (slClient lib (getS3Client s3s))) (\<lambda>_.
     slWriter lib (getS3Client s3s) (s3Bucket s3s)
       (writer_options (Join [s3Path s3s, path]) isFile isRemoveFiles withNested))"

definition gcpCreateReader ::
  "storage_lib \<Rightarrow> GcpStorage \<Rightarrow> string \<Rightarrow> bool \<Rightarrow> Validator \<Rightarrow> string \<Rightarrow> (io_error, stream) outcome" where
  "gcpCreateReader lib gcps path isFile v startScanFrom =
     and_then (checked_io (slClient lib (getGcpClient gcps))) (\<lambda>_.
     slReader lib (getGcpClient gcps) (gcpBucketName gcps)
       (reader_options GcpStorageAccessor (Join [gcpPath gcps, path]) isFile v startScanFrom))"

definition gcpCreateWriter ::
  "storage_lib \<Rightarrow> GcpStorage \<Rightarrow> string \<Rightarrow> bool \<Rightarrow> bool \<Rightarrow> bool \<Rightarrow> (io_error, nat) outcome" where
  "gcpCreateWriter lib gcps path isFile isRemoveFiles withNested =
     and_then (checked_io (slClient lib (getGcpClient gcps))) (\<lambda>_.
     slWriter lib (getGcpClient gcps) (gcpBucketName gcps)
       (writer_options (Join [gcpPath gcps, path]) isFile isRemoveFiles withNested))"

definition azureCreateReader ::
  "storage_lib \<Rightarrow> AzureStorage \<Rightarrow> string \<Rightarrow> bool \<Rightarrow> Validator \<Rightarrow> string \<Rightarrow> (io_error, stream) outcome" where
  "azureCreateReader lib azures path isFile v startScanFrom =
     and_then (checked_io (slClient lib (getAzureClient azures))) (\<lambda>_.
     slReader lib (getAzureClient azures) (azContainerName azures)
       (reader_options AzureStorageAccessor (Join [azPath azures, path]) isFile v startScanFrom))"

definition azureCreateWriter ::
  "storage_lib \<Rightarrow> AzureStorage \<Rightarrow> string \<Rightarrow> bool \<Rightarrow> bool \<Rightarrow> bool \<Rightarrow> (io_error, nat) outcome" where
  "azureCreateWriter lib azures path isFile isRemoveFiles withNested =
     and_then (checked_io (slClient lib (getAzureClient azures))) (\<lambda>_.
     slWriter lib (getAzureClient azures) (azContainerName azures)
       (writer_options (Join [azPath azures, path]) isFile isRemoveFiles withNested))"

text \<open>
  The accessor that supports the storage is called; a failed type assertion would panic.
\<close>

fun createReader ::
  "Accessor \<Rightarrow> storage_lib \<Rightarrow> Storage option \<Rightarrow> string \<Rightarrow> bool \<Rightarrow> Validator \<Rightarrow> string \<Rightarrow> (io_error, stream) outcome" where
  "createReader LocalStorageAccessor lib (Some (Local s)) path isFile v from = localCreateReader lib s path isFile v from"
| "createReader S3StorageAccessor lib (Some (S3 s)) path isFile v from = s3CreateReader lib s path isFile v from"
| "createReader GcpStorageAccessor lib (Some (Gcp s)) path isFile v from = gcpCreateReader lib s path isFile v from"
| "createReader AzureStorageAccessor lib (Some (Azure s)) path isFile v from = azureCreateReader lib s path isFile v from"
| "createReader a lib s path isFile v from = Panic (ExplicitPanic ''interface conversion'')"

fun createWriter ::
  "Accessor \<Rightarrow> storage_lib \<Rightarrow> Storage option \<Rightarrow> string \<Rightarrow> bool \<Rightarrow> bool \<Rightarrow> bool \<Rightarrow> (io_error, nat) outcome" where
  "createWriter LocalStorageAccessor lib (Some (Local s)) path isFile rm nested = localCreateWriter lib s path isFile rm nested"
| "createWriter S3StorageAccessor lib (Some (S3 s)) path isFile rm nested = s3CreateWriter lib s path isFile rm nested"
| "createWriter GcpStorageAccessor lib (Some (Gcp s)) path isFile rm nested = gcpCreateWriter lib s path isFile rm nested"
| "createWriter AzureStorageAccessor lib (Some (Azure s)) path isFile rm nested = azureCreateWriter lib s path isFile rm nested"
| "createWriter a lib s path isFile rm nested = Panic (ExplicitPanic ''interface conversion'')"

definition CreateReader ::
  "storage_lib \<Rightarrow> Storage option \<Rightarrow> string \<Rightarrow> bool \<Rightarrow> Validator \<Rightarrow> string \<Rightarrow> (io_error, stream) outcome" where
  "CreateReader lib s path isFile v startScanFrom =
     and_then (getAccessor s) (\<lambda>a. createReader a lib s path isFile v startScanFrom)"

definition CreateWriter ::
  "storage_lib \<Rightarrow> Storage option \<Rightarrow> string \<Rightarrow> bool \<Rightarrow> bool \<Rightarrow> bool \<Rightarrow> (io_error, nat) outcome" where
  "CreateWriter lib s path isFile isRemoveFiles withNested =
     and_then (getAccessor s) (\<lambda>a. createWriter a lib s path isFile isRemoveFiles withNested)"

section \<open>Operations\<close>

text \<open>
  \<open>ReadFile\<close> takes the first thing that arrives. If the library closes the channel of readers
  first, the reader received is nil and reading it panics.
\<close>

definition ReadFile :: "storage_lib \<Rightarrow> Storage option \<Rightarrow> string \<Rightarrow> (io_error, bytes) outcome" where
  "ReadFile lib s filepath =
     and_then (CreateReader lib s filepath True NoValidator []) (\<lambda>reader.
       case smFiles reader of
         f # fs \<Rightarrow> f
       | [] \<Rightarrow>
           (case smEnd reader of
              StreamError e \<Rightarrow> Err e
            | ContextDone e \<Rightarrow> Err e
            | StreamClosed \<Rightarrow> Panic NilDereference))"

text \<open>The loop of \<open>ReadFiles\<close>: \<open>files\<close> are those read so far.\<close>

fun readLoop :: "(io_error, bytes) outcome list \<Rightarrow> stream_end \<Rightarrow> bytes list \<Rightarrow> (io_error, bytes list) outcome" where
  "readLoop [] (StreamError e) files = (if ioEOF e then Ok files else Err e)"
| "readLoop [] StreamClosed files = Ok files"
| "readLoop [] (ContextDone e) files = Err e"
| "readLoop (r # rs) fin files = and_then r (\<lambda>buf. readLoop rs fin (files @ [buf]))"

definition scanStart :: "time option \<Rightarrow> string" where
  "scanStart fromTime = (case fromTime of None \<Rightarrow> [] | Some t \<Rightarrow> FormatInt (UnixMilli t - 1))"

definition ReadFiles ::
  "storage_lib \<Rightarrow> Storage option \<Rightarrow> string \<Rightarrow> string \<Rightarrow> time option \<Rightarrow> (io_error, bytes list) outcome" where
  "ReadFiles lib s path filterStr fromTime =
     and_then (CreateReader lib s path False (newNameValidator filterStr) (scanStart fromTime)) (\<lambda>reader.
       readLoop (smFiles reader) (smEnd reader) [])"

definition WriteFile :: "storage_lib \<Rightarrow> Storage option \<Rightarrow> string \<Rightarrow> bytes \<Rightarrow> (io_error, unit) outcome" where
  "WriteFile lib s fileName content =
     and_then (CreateWriter lib s fileName True False False) (\<lambda>writer.
     and_then (slNewWriter lib writer) (\<lambda>w.
     checked_io (slWrite lib w content)))"

definition DeleteFolder :: "storage_lib \<Rightarrow> Storage option \<Rightarrow> string \<Rightarrow> (io_error, unit) outcome" where
  "DeleteFolder lib s path =
     and_then (CreateWriter lib s path False True True) (\<lambda>writer.
     checked_io (slRemoveFiles lib writer))"

section \<open>Lemmas\<close>

lemma getAccessor_nil [simp]: "getAccessor None = Panic UnsupportedStorage"
  by (simp add: getAccessor_def accessors_def)

text \<open>
  Where the request for a storage goes: the client created for it, the container, and the path to
  which the requested one is joined. Every storage value has its accessor, so only a nil storage
  makes an operation panic here.
\<close>

fun target :: "Storage \<Rightarrow> Accessor \<times> client_config \<times> string \<times> string" where
  "target (Local s) = (LocalStorageAccessor, NoClient, [], lsPath s)"
| "target (S3 s) = (S3StorageAccessor, getS3Client s, s3Bucket s, s3Path s)"
| "target (Gcp s) = (GcpStorageAccessor, getGcpClient s, gcpBucketName s, gcpPath s)"
| "target (Azure s) = (AzureStorageAccessor, getAzureClient s, azContainerName s, azPath s)"

definition connected :: "storage_lib \<Rightarrow> Storage \<Rightarrow> (client_config \<Rightarrow> string \<Rightarrow> string \<Rightarrow> (io_error, 'a) outcome) \<Rightarrow>
   (io_error, 'a) outcome" where
  "connected lib s f = (case target s of (a, client, container, dir) \<Rightarrow>
     and_then (if a = LocalStorageAccessor then Ok () else checked_io (slClient lib client)) (\<lambda>_. f client container dir))"

lemma getAccessor_Some: "getAccessor (Some s) = Ok (fst (target s))"
  by (cases s) (simp_all add: getAccessor_def accessors_def)

lemma CreateReader_connected:
  "CreateReader lib (Some s) path isFile v start = connected lib s (\<lambda>client container dir.
     slReader lib client container (reader_options (fst (target s)) (Join [dir, path]) isFile v start))"
  by (cases s) (simp_all add: CreateReader_def getAccessor_Some connected_def localCreateReader_def
      s3CreateReader_def gcpCreateReader_def azureCreateReader_def)

lemma CreateWriter_connected:
  "CreateWriter lib (Some s) path isFile rm nested = connected lib s (\<lambda>client container dir.
     slWriter lib client container (writer_options (Join [dir, path]) isFile rm nested))"
  by (cases s) (simp_all add: CreateWriter_def getAccessor_Some connected_def localCreateWriter_def
      s3CreateWriter_def gcpCreateWriter_def azureCreateWriter_def)

lemma checked_io_no_Panic [simp]: "checked_io e \<noteq> Panic p"
  by (cases e) simp_all

text \<open>A reader of existing storage comes from the library.\<close>

lemma CreateReader_Ok:
  assumes "CreateReader lib (Some s) path isFile v start = Ok r"
  shows "\<exists>client container opts. slReader lib client container opts = Ok r"
  using assms by (auto simp: CreateReader_connected connected_def outcome_simps split: prod.splits)

lemma CreateReader_Panic:
  assumes "CreateReader lib (Some s) path isFile v start = Panic p"
  shows "\<exists>client container opts. slReader lib client container opts = Panic p"
  using assms by (auto simp: CreateReader_connected connected_def outcome_simps split: prod.splits if_splits)

lemma readLoop_Ok_iff:
  "readLoop rs e files = Ok out \<longleftrightarrow>
     (\<exists>bufs. rs = map Ok bufs \<and> out = files @ bufs \<and>
        (case e of StreamClosed \<Rightarrow> True | StreamError x \<Rightarrow> ioEOF x | ContextDone x \<Rightarrow> False))"
proof (induction rs e files rule: readLoop.induct)
  case (4 r rs e files)
  show ?case
  proof (cases r)
    case (Ok buf)
    then show ?thesis using 4 [of buf] by (auto simp: Cons_eq_map_conv)
  qed auto
qed auto

lemma scanStart_before: "scanStart (Some (timeUnixMilli ms)) = FormatInt (ms - 1)"
  by (simp add: scanStart_def)

end
