(* ===== verification/Backend.thy ===== *)
theory Backend
  imports StorageOps
begin

text \<open>
  \<open>pkg/service/backup_backend.go\<close>, \<open>backup_list_reader.go\<close> and \<open>backup_backends_holder.go\<close>: the
  list of backups of a routine, read from the metadata files in its storage. The interface
  \<open>BackupListReader\<close> is the locale \<open>backup_list_reader\<close>, with what a restore relies on; the
  backend is its interpretation.
\<close>

section \<open>The backend of a routine\<close>

text \<open>\<open>fullBackupInProgress\<close> is an atomic cell the handlers of the routine share.\<close>

record BackupBackend =
  bbStorage :: ptr
  fullBackupsPath :: string
  incrementalBackupsPath :: string
  stateFilePath :: string
  removeFullBackup :: bool
  fullBackupInProgress :: bool

definition newBackend :: "store \<Rightarrow> string \<Rightarrow> BackupRoutine \<Rightarrow> ('e, BackupBackend) outcome" where
  "newBackend st routineName routine =
     (case deref stPolicies st (brBackupPolicy routine) of
        None \<Rightarrow> Panic NilDereference
      | Some policy \<Rightarrow> Ok
          \<lparr>bbStorage = brStorage routine,
           fullBackupsPath = Join [routineName, FullBackupDirectory],
           incrementalBackupsPath = Join [routineName, IncrementalBackupDirectory],
           stateFilePath = Join [routineName, StateFileName],
           removeFullBackup = RemoveFullBackup (bpRemoveFiles policy),
           fullBackupInProgress = False\<rparr>)"

text \<open>
  The metadata codec is the YAML library: \<open>unmarshal\<close> is what \<open>NewMetadataFromBytes\<close> gets from
  it, \<open>marshal\<close> what \<open>writeBackupMetadata\<close> gets.
\<close>

record codec =
  marshal :: "BackupMetadata \<Rightarrow> (string, bytes) outcome"
  unmarshal :: "bytes \<Rightarrow> (string, BackupMetadata) outcome"

definition NewMetadataFromBytes :: "codec \<Rightarrow> bytes \<Rightarrow> (string, BackupMetadata) outcome" where
  "NewMetadataFromBytes yaml data = map_err (\<lambda>e. ''error unmarshaling YAML: '' @ e) (unmarshal yaml data)"

datatype backend_error =
    Io io_error
  | BadMetadata string
  | CannotReadFullList backend_error
  | BackupNotFound time

definition writeBackupMetadata ::
  "codec \<Rightarrow> storage_lib \<Rightarrow> store \<Rightarrow> BackupBackend \<Rightarrow> string \<Rightarrow> BackupMetadata \<Rightarrow> (backend_error, unit) outcome" where
  "writeBackupMetadata yaml lib st b path metadata =
     and_then (map_err BadMetadata (marshal yaml metadata)) (\<lambda>dataYaml.
     map_err Io (WriteFile lib (deref stStorages st (bbStorage b)) (Join [path, metadataFile]) dataYaml))"

section \<open>Lists of backups\<close>

fun contains_text :: "string \<Rightarrow> string \<Rightarrow> bool" where
  "contains_text [] sub = (sub = [])"
| "contains_text (c # s) sub = (HasPrefix (c # s) sub \<or> contains_text s sub)"

definition toDetails :: "BackupBackend \<Rightarrow> string \<Rightarrow> bool \<Rightarrow> BackupMetadata \<Rightarrow> BackupDetails" where
  "toDetails b backupRoot isFullBackup metadata =
     BackupMetadata.extend metadata
       (BackupDetails.fields (getKey backupRoot metadata (removeFullBackup b \<and> isFullBackup)) (bbStorage b))"

text \<open>The loop over the files: it stops at the first one that cannot be decoded.\<close>

fun decodeLoop ::
  "codec \<Rightarrow> BackupBackend \<Rightarrow> string \<Rightarrow> bool \<Rightarrow> TimeBounds \<Rightarrow> bytes list \<Rightarrow>
   (backend_error, BackupDetails list) outcome" where
  "decodeLoop yaml b backupRoot isFullBackup timebounds [] = Ok []"
| "decodeLoop yaml b backupRoot isFullBackup timebounds (buf # files) =
     and_then (map_err (\<lambda>e. BadMetadata (''error decoding backup metadata YAML: '' @ e))
                 (NewMetadataFromBytes yaml buf)) (\<lambda>metadata.
     and_then (decodeLoop yaml b backupRoot isFullBackup timebounds files) (\<lambda>backups.
     Ok (if Contains timebounds (Created metadata)
         then toDetails b backupRoot isFullBackup metadata # backups else backups)))"

definition readMetadataList ::
  "codec \<Rightarrow> storage_lib \<Rightarrow> store \<Rightarrow> BackupBackend \<Rightarrow> TimeBounds \<Rightarrow> bool \<Rightarrow>
   (backend_error, BackupDetails list) outcome" where
  "readMetadataList yaml lib st b timebounds isFullBackup =
     (let backupRoot = (if isFullBackup then fullBackupsPath b else incrementalBackupsPath b) in
      case ReadFiles lib (deref stStorages st (bbStorage b)) backupRoot metadataFile (FromTime timebounds) of
        Err e \<Rightarrow>
          if ioNotExist e \<or> contains_text (ioText e) ''is empty'' then Ok [] else Err (Io e)
      | Panic p \<Rightarrow> Panic p
      | Ok files \<Rightarrow> decodeLoop yaml b backupRoot isFullBackup timebounds files)"

definition FullBackupList ::
  "codec \<Rightarrow> storage_lib \<Rightarrow> store \<Rightarrow> BackupBackend \<Rightarrow> TimeBounds \<Rightarrow> (backend_error, BackupDetails list) outcome" where
  "FullBackupList yaml lib st b timeBounds = readMetadataList yaml lib st b timeBounds True"

definition IncrementalBackupList ::
  "codec \<Rightarrow> storage_lib \<Rightarrow> store \<Rightarrow> BackupBackend \<Rightarrow> TimeBounds \<Rightarrow> (backend_error, BackupDetails list) outcome" where
  "IncrementalBackupList yaml lib st b timeBounds = readMetadataList yaml lib st b timeBounds False"

text \<open>\<open>latestLoop\<close> is the loop of \<open>latestBackupBeforeTime\<close> with its two variables.\<close>

fun latestLoop :: "time \<Rightarrow> BackupDetails list \<Rightarrow> BackupDetails list \<Rightarrow> time \<Rightarrow> BackupDetails list" where
  "latestLoop upperBound [] result latestTime = result"
| "latestLoop upperBound (current # rest) result latestTime =
     (if After (Created current) upperBound then latestLoop upperBound rest result latestTime
      else if length result = 0 \<or> Before latestTime (Created current)
      then latestLoop upperBound rest [current] (Created current)
      else if Created current = latestTime
      then latestLoop upperBound rest (result @ [current]) latestTime
      else latestLoop upperBound rest result latestTime)"

definition latestBackupBeforeTime :: "BackupDetails list \<Rightarrow> time \<Rightarrow> BackupDetails list" where
  "latestBackupBeforeTime allBackups upperBound = latestLoop upperBound allBackups [] zeroTime"

definition FindLastFullBackup ::
  "codec \<Rightarrow> storage_lib \<Rightarrow> store \<Rightarrow> BackupBackend \<Rightarrow> time \<Rightarrow> (backend_error, BackupDetails list) outcome" where
  "FindLastFullBackup yaml lib st b toTime =
     and_then (map_err CannotReadFullList
                 (FullBackupList yaml lib st b \<lparr>FromTime = None, ToTime = Some toTime\<rparr>)) (\<lambda>fullBackupList.
       let fullBackup = latestBackupBeforeTime fullBackupList toTime in
       if length fullBackup = 0 then Err (BackupNotFound toTime) else Ok fullBackup)"

text \<open>
  \<open>sort.Slice\<close> is not stable: \<open>pick\<close> chooses the arrangement of the backups before they are sorted
  by their creation time, so every sorted arrangement is a possible result.
\<close>

definition FindIncrementalBackupsForNamespace ::
  "(BackupDetails list \<Rightarrow> BackupDetails list) \<Rightarrow> codec \<Rightarrow> storage_lib \<Rightarrow> store \<Rightarrow> BackupBackend \<Rightarrow>
   TimeBounds \<Rightarrow> string \<Rightarrow> (backend_error, BackupDetails list) outcome" where
  "FindIncrementalBackupsForNamespace pick yaml lib st b bounds namespace =
     and_then (IncrementalBackupList yaml lib st b bounds) (\<lambda>allIncrementalBackupList.
       Ok (sort_key Created
             (permuted pick (filter (\<lambda>x. Namespace x = namespace) allIncrementalBackupList))))"

text \<open>Indexing an empty list panics, as in the source; \<open>now\<close> is the clock's answer.\<close>

definition lastBackupTime :: "time \<Rightarrow> BackupDetails list \<Rightarrow> ('e, time) outcome" where
  "lastBackupTime now b =
     (if 0 < length b
      then (case latestBackupBeforeTime b now of
              [] \<Rightarrow> Panic (ExplicitPanic ''index out of range'')
            | x # xs \<Rightarrow> Ok (Created x))
      else Ok zeroTime)"

definition list_or_nil :: "('e, 'a list) outcome \<Rightarrow> ('f, 'a list) outcome" where
  "list_or_nil r = (case r of Ok xs \<Rightarrow> Ok xs | Err e \<Rightarrow> Ok [] | Panic p \<Rightarrow> Panic p)"

definition readState ::
  "time \<Rightarrow> time \<Rightarrow> time \<Rightarrow> codec \<Rightarrow> storage_lib \<Rightarrow> store \<Rightarrow> BackupBackend \<Rightarrow> (backend_error, BackupState) outcome" where
  "readState now1 now2 now3 yaml lib st b =
     (let to_bounds = \<lparr>FromTime = None, ToTime = Some now1\<rparr> in
     and_then (list_or_nil (FullBackupList yaml lib st b to_bounds)) (\<lambda>fullBackupList.
     and_then (list_or_nil (IncrementalBackupList yaml lib st b to_bounds)) (\<lambda>incrementalBackupList.
     and_then (lastBackupTime now2 fullBackupList) (\<lambda>full.
     and_then (lastBackupTime now3 incrementalBackupList) (\<lambda>incr.
     Ok \<lparr>LastFullRun = full, LastIncrRun = incr, Performed = 0\<rparr>)))))"

text \<open>
  \<open>ReadClusterConfiguration\<close>: the configuration files under a path, packed with \<open>zip\<close>, the
  archive writer of the standard library as a function of the named entries.
\<close>

definition ReadClusterConfiguration ::
  "((string \<times> bytes) list \<Rightarrow> (string, bytes) outcome) \<Rightarrow> storage_lib \<Rightarrow> store \<Rightarrow> BackupBackend \<Rightarrow> string \<Rightarrow>
   (backend_error, bytes) outcome" where
  "ReadClusterConfiguration zip_entries lib st b path =
     and_then (map_err Io (ReadFiles lib (deref stStorages st (bbStorage b)) path configExt None)) (\<lambda>configBackups.
       if length configBackups = 0
       then Err (BadMetadata (''no configuration backups found for '' @ path))
       else map_err BadMetadata
              (zip_entries (map (\<lambda>(i, data). (getConfigFileName i, data)) (enumerate 0 configBackups))))"

section \<open>What the lists contain\<close>

lemma toDetails_fields [simp]:
  "Created (toDetails b dir full m) = Created m"
  "Namespace (toDetails b dir full m) = Namespace m"
  "Key (toDetails b dir full m) = getKey dir m (removeFullBackup b \<and> full)"
  "bdStorage (toDetails b dir full m) = bbStorage b"
  by (simp_all add: toDetails_def BackupMetadata.defs BackupDetails.defs)

lemma decodeLoop_Ok_iff:
  "decodeLoop yaml b dir full tb files = Ok bs \<longleftrightarrow>
     (\<exists>ms. map (unmarshal yaml) files = map Ok ms \<and>
        bs = map (toDetails b dir full) (filter (\<lambda>m. Contains tb (Created m)) ms))"
proof (induction files arbitrary: bs)
  case Nil
  then show ?case by auto
next
  case (Cons buf files)
  show ?case
  proof (cases "unmarshal yaml buf")
    case (Ok m)
    have "decodeLoop yaml b dir full tb (buf # files) = Ok bs \<longleftrightarrow>
        (\<exists>ys. decodeLoop yaml b dir full tb files = Ok ys \<and>
           bs = (if Contains tb (Created m) then toDetails b dir full m # ys else ys))"
      using Ok by (auto simp: NewMetadataFromBytes_def outcome_simps)
    also have "\<dots> \<longleftrightarrow> (\<exists>ms. map (unmarshal yaml) (buf # files) = map Ok (m # ms) \<and>
        bs = map (toDetails b dir full) (filter (\<lambda>m. Contains tb (Created m)) (m # ms)))"
      unfolding Cons using Ok by auto
    also have "\<dots> \<longleftrightarrow> (\<exists>ms. map (unmarshal yaml) (buf # files) = map Ok ms \<and>
        bs = map (toDetails b dir full) (filter (\<lambda>m. Contains tb (Created m)) ms))"
    proof
      assume "\<exists>ms. map (unmarshal yaml) (buf # files) = map Ok ms \<and>
        bs = map (toDetails b dir full) (filter (\<lambda>m. Contains tb (Created m)) ms)"
      then obtain ms where ms: "map (unmarshal yaml) (buf # files) = map Ok ms"
        "bs = map (toDetails b dir full) (filter (\<lambda>m. Contains tb (Created m)) ms)" by blast
      then obtain ms' where "ms = m # ms'" using Ok by (cases ms) simp_all
      with ms show "\<exists>ms. map (unmarshal yaml) (buf # files) = map Ok (m # ms) \<and>
        bs = map (toDetails b dir full) (filter (\<lambda>m. Contains tb (Created m)) (m # ms))" by blast
    qed blast
    finally show ?thesis .
  qed (auto simp: NewMetadataFromBytes_def Cons_eq_map_conv)
qed

text \<open>
  A list that is returned is empty, because there are no files, or decoded from the files of the
  root, keeping those in the bounds.
\<close>

lemma readMetadataList_Ok:
  assumes "readMetadataList yaml lib st b tb full = Ok bs"
  obtains "bs = []"
  | files ms where
      "ReadFiles lib (deref stStorages st (bbStorage b))
         (if full then fullBackupsPath b else incrementalBackupsPath b) metadataFile (FromTime tb) = Ok files"
      and "map (unmarshal yaml) files = map Ok ms"
      and "bs = map (toDetails b (if full then fullBackupsPath b else incrementalBackupsPath b) full)
                  (filter (\<lambda>m. Contains tb (Created m)) ms)"
  using assms
  by (auto simp: readMetadataList_def Let_def decodeLoop_Ok_iff split: outcome.splits if_splits)

lemma readMetadataList_entry:
  assumes "readMetadataList yaml lib st b tb full = Ok bs" and "x \<in> set bs"
  shows "Contains tb (Created x)" and "bdStorage x = bbStorage b"
    and "Key x = getKey (if full then fullBackupsPath b else incrementalBackupsPath b) x (removeFullBackup b \<and> full)"
proof -
  obtain m where m: "Contains tb (Created m)"
    "x = toDetails b (if full then fullBackupsPath b else incrementalBackupsPath b) full m"
  proof (rule readMetadataList_Ok [OF assms(1)])
    assume "bs = []"
    then show thesis using assms(2) by simp
  next
    fix ms
    assume bs: "bs = map (toDetails b (if full then fullBackupsPath b else incrementalBackupsPath b) full)
                  (filter (\<lambda>m. Contains tb (Created m)) ms)"
    show thesis using assms(2) that unfolding bs by auto
  qed
  show "Contains tb (Created x)" "bdStorage x = bbStorage b" using m by simp_all
  show "Key x = getKey (if full then fullBackupsPath b else incrementalBackupsPath b) x (removeFullBackup b \<and> full)"
    using m(2) by (simp add: getKey_def)
qed

section \<open>The latest backup\<close>

definition before :: "time \<Rightarrow> BackupDetails list \<Rightarrow> BackupDetails list" where
  "before upperBound bs = filter (\<lambda>b. Created b \<le> upperBound) bs"

definition at_time :: "time \<Rightarrow> BackupDetails list \<Rightarrow> BackupDetails list" where
  "at_time t bs = filter (\<lambda>b. Created b = t) bs"

definition newest :: "BackupDetails list \<Rightarrow> time" where
  "newest bs = Max (Created ` set bs)"

lemma newest_in: "bs \<noteq> [] \<Longrightarrow> newest bs \<in> Created ` set bs"
  unfolding newest_def by (intro Max_in) auto

lemma newest_ge: "b \<in> set bs \<Longrightarrow> Created b \<le> newest bs"
  unfolding newest_def by (intro Max_ge) auto

lemma latestLoop_Cons:
  "Created b \<le> upperBound \<Longrightarrow> latestLoop upperBound (b # bs) result t =
     (if result = [] \<or> t < Created b then latestLoop upperBound bs [b] (Created b)
      else if Created b = t then latestLoop upperBound bs (result @ [b]) t
      else latestLoop upperBound bs result t)"
  by (simp add: leD)

lemma latestLoop_skip:
  "\<not> Created b \<le> upperBound \<Longrightarrow> latestLoop upperBound (b # bs) result t = latestLoop upperBound bs result t"
  by (simp add: not_le)

lemmas [simp del] = latestLoop.simps(2)

lemma latestLoop_before: "latestLoop upperBound (before upperBound bs) result t = latestLoop upperBound bs result t"
proof (induction bs arbitrary: result t)
  case Nil
  then show ?case by (simp add: before_def)
next
  case (Cons b bs)
  show ?case
  proof (cases "Created b \<le> upperBound")
    case True
    then have "before upperBound (b # bs) = b # before upperBound bs" by (simp add: before_def)
    then show ?thesis using True by (simp add: Cons latestLoop_Cons)
  next
    case False
    then have "before upperBound (b # bs) = before upperBound bs" by (simp add: before_def)
    then show ?thesis using False by (simp add: Cons latestLoop_skip)
  qed
qed

lemma at_time_simps [simp]:
  "at_time m [] = []"
  "at_time m (b # bs) = (if m = Created b then [b] else []) @ at_time m bs"
  by (auto simp: at_time_def)

lemma Max_insert_less:
  fixes t c :: "'a::linorder"
  assumes "finite A" and "t \<le> c"
  shows "Max (insert t (insert c A)) = Max (insert c A)"
proof -
  have "t \<le> Max (insert c A)" using assms by (meson Max_ge finite_insert insertI1 order.trans)
  moreover have "Max (insert t (insert c A)) = max t (Max (insert c A))"
    using assms(1) by (intro Max_insert) auto
  ultimately show ?thesis by (simp only: max_absorb2)
qed

lemma latestLoop_eq:
  assumes "\<forall>b \<in> set bs. Created b \<le> upperBound" and "result \<noteq> []"
  shows "latestLoop upperBound bs result t =
    (if Max (insert t (Created ` set bs)) = t then result else []) @ at_time (Max (insert t (Created ` set bs))) bs"
  using assms
proof (induction bs arbitrary: result t)
  case Nil
  then show ?case by simp
next
  case (Cons b bs)
  have ub: "Created b \<le> upperBound" "\<forall>b \<in> set bs. Created b \<le> upperBound" using Cons.prems(1) by simp_all
  let ?A = "Created ` set bs"
  have set: "Created ` set (b # bs) = insert (Created b) ?A" by simp
  have ge: "x \<in> B \<Longrightarrow> finite B \<Longrightarrow> x \<le> Max B" for x and B :: "time set" by simp
  consider "t < Created b" | "Created b = t" | "Created b < t" by (rule linorder_cases)
  then show ?case
  proof cases
    case 1
    have m: "Max (insert t (Created ` set (b # bs))) = Max (insert (Created b) ?A)"
      unfolding set by (rule Max_insert_less) (use 1 in auto)
    have "Created b \<le> Max (insert (Created b) ?A)" by (rule ge) auto
    then have "Max (insert (Created b) ?A) \<noteq> t" using 1 by (metis leD)
    moreover have "latestLoop upperBound (b # bs) result t = latestLoop upperBound bs [b] (Created b)"
      using 1 ub by (simp add: latestLoop_Cons)
    ultimately show ?thesis unfolding m using Cons.IH [OF ub(2), of "[b]" "Created b"] by (simp del: Max_insert)
  next
    case 2
    have m: "Max (insert t (Created ` set (b # bs))) = Max (insert t ?A)" unfolding set 2 by simp
    have "latestLoop upperBound (b # bs) result t = latestLoop upperBound bs (result @ [b]) t"
      using ub Cons.prems(2) 2 by (simp add: latestLoop_Cons)
    then show ?thesis unfolding m using Cons.IH [OF ub(2), of "result @ [b]" t] 2 by (simp del: Max_insert)
  next
    case 3
    have m: "Max (insert t (Created ` set (b # bs))) = Max (insert t ?A)"
      unfolding set insert_commute [of t] by (rule Max_insert_less) (use 3 in auto)
    have "t \<le> Max (insert t ?A)" by (rule ge) auto
    then have "Max (insert t ?A) \<noteq> Created b" using 3 by (metis leD)
    moreover have "latestLoop upperBound (b # bs) result t = latestLoop upperBound bs result t"
      using 3 ub Cons.prems(2) by (simp add: latestLoop_Cons leD less_imp_le less_imp_neq)
    ultimately show ?thesis unfolding m using Cons.IH [OF ub(2) Cons.prems(2), of t] by (simp del: Max_insert)
  qed
qed

text \<open>The latest backups are those of the newest creation time not after the bound, in list order.\<close>

lemma latest_eq:
  "latestBackupBeforeTime bs upperBound =
     (if before upperBound bs = [] then [] else at_time (newest (before upperBound bs)) (before upperBound bs))"
proof (cases "before upperBound bs")
  case Nil
  then show ?thesis
    using latestLoop_before [of upperBound bs "[]" zeroTime] by (simp add: latestBackupBeforeTime_def)
next
  case (Cons b rest)
  have ub: "\<forall>x \<in> set (b # rest). Created x \<le> upperBound"
    using Cons [symmetric] by (auto simp: before_def)
  have "latestBackupBeforeTime bs upperBound = latestLoop upperBound rest [b] (Created b)"
    unfolding latestBackupBeforeTime_def latestLoop_before [of upperBound bs, symmetric] Cons
    using ub by (simp add: latestLoop_Cons)
  also have "\<dots> = at_time (newest (b # rest)) (b # rest)"
    using latestLoop_eq [of rest upperBound "[b]" "Created b"] ub by (simp add: newest_def del: Max_insert)
  finally show ?thesis using Cons by simp
qed

section \<open>The interface of the lists\<close>

text \<open>
  What a restore relies on: the last full backup is a nonempty list of backups of one creation
  time, the newest one not after the time asked for, complete for that time; the incremental
  backups of a namespace are exactly those in the bounds, in the order of their creation.
\<close>

locale backup_list_reader =
  fixes full_list :: "TimeBounds \<Rightarrow> ('e, BackupDetails list) outcome"
    and incr_list :: "TimeBounds \<Rightarrow> ('e, BackupDetails list) outcome"
    and find_last_full :: "time \<Rightarrow> ('e, BackupDetails list) outcome"
    and find_incr :: "TimeBounds \<Rightarrow> string \<Rightarrow> ('e, BackupDetails list) outcome"
  assumes full_in_bounds: "full_list tb = Ok all \<Longrightarrow> x \<in> set all \<Longrightarrow> Contains tb (Created x)"
    and incr_in_bounds: "incr_list tb = Ok all \<Longrightarrow> x \<in> set all \<Longrightarrow> Contains tb (Created x)"
    and last_full: "find_last_full t = Ok bs \<Longrightarrow>
          \<exists>all. full_list \<lparr>FromTime = None, ToTime = Some t\<rparr> = Ok all \<and> all \<noteq> [] \<and> bs = at_time (newest all) all"
    and incr_found: "find_incr tb ns = Ok bs \<Longrightarrow>
          \<exists>all. incr_list tb = Ok all \<and> mset bs = mset (filter (\<lambda>x. Namespace x = ns) all) \<and>
            sorted (map Created bs)"
begin

lemma last_full_props:
  assumes "find_last_full t = Ok bs"
  shows "bs \<noteq> []" and "x \<in> set bs \<Longrightarrow> y \<in> set bs \<Longrightarrow> Created x = Created y" and "x \<in> set bs \<Longrightarrow> Created x \<le> t"
proof -
  obtain all where all: "full_list \<lparr>FromTime = None, ToTime = Some t\<rparr> = Ok all" "all \<noteq> []"
    "bs = at_time (newest all) all"
    using last_full [OF assms] by blast
  have "newest all \<in> Created ` set all" using all(2) by (rule newest_in)
  then show "bs \<noteq> []" using all(3) by (force simp: at_time_def filter_empty_conv)
  show "x \<in> set bs \<Longrightarrow> y \<in> set bs \<Longrightarrow> Created x = Created y" using all(3) by (simp add: at_time_def)
  show "Created x \<le> t" if "x \<in> set bs"
    using full_in_bounds [OF all(1), of x] that all(3) by (simp add: at_time_def Contains_iff upper_ok_def)
qed

lemma incr_found_props:
  assumes "find_incr tb ns = Ok bs"
  shows "sorted (map Created bs)" and "x \<in> set bs \<Longrightarrow> Namespace x = ns \<and> Contains tb (Created x)"
proof -
  obtain all where all: "incr_list tb = Ok all" "mset bs = mset (filter (\<lambda>x. Namespace x = ns) all)"
    "sorted (map Created bs)"
    using incr_found [OF assms] by blast
  show "sorted (map Created bs)" by (rule all(3))
  have "set bs = set (filter (\<lambda>x. Namespace x = ns) all)" using mset_eq_setD [OF all(2)] .
  then show "x \<in> set bs \<Longrightarrow> Namespace x = ns \<and> Contains tb (Created x)"
    using incr_in_bounds [OF all(1)] by auto
qed

end

lemma before_all: "\<forall>b \<in> set bs. Created b \<le> t \<Longrightarrow> before t bs = bs"
  by (simp add: before_def)

lemma full_not_after:
  assumes "FullBackupList yaml lib st b \<lparr>FromTime = None, ToTime = Some t\<rparr> = Ok bs"
  shows "before t bs = bs"
  using readMetadataList_entry(1) [OF assms [unfolded FullBackupList_def]]
  by (auto simp: Contains_iff upper_ok_def intro!: before_all)

lemma at_newest_ne: "bs \<noteq> [] \<Longrightarrow> at_time (newest bs) bs \<noteq> []"
  using newest_in [of bs] by (force simp: at_time_def filter_empty_conv)

lemma latest_all: "before t bs = bs \<Longrightarrow> latestBackupBeforeTime bs t = (if bs = [] then [] else at_time (newest bs) bs)"
  by (simp add: latest_eq)

lemma FindLastFullBackup_Ok:
  "FindLastFullBackup yaml lib st b t = Ok bs \<longleftrightarrow>
     (\<exists>all. FullBackupList yaml lib st b \<lparr>FromTime = None, ToTime = Some t\<rparr> = Ok all \<and> all \<noteq> [] \<and>
        bs = at_time (newest all) all)"
proof (cases "FullBackupList yaml lib st b \<lparr>FromTime = None, ToTime = Some t\<rparr>")
  case (Ok all)
  then show ?thesis
    using latest_all [OF full_not_after [OF Ok]] at_newest_ne [of all] by (auto simp: FindLastFullBackup_def Let_def)
qed (simp_all add: FindLastFullBackup_def)

interpretation backend: backup_list_reader "FullBackupList yaml lib st b" "IncrementalBackupList yaml lib st b"
  "FindLastFullBackup yaml lib st b" "FindIncrementalBackupsForNamespace pick yaml lib st b"
  for pick yaml lib st b
proof
  show "FullBackupList yaml lib st b tb = Ok all \<Longrightarrow> x \<in> set all \<Longrightarrow> Contains tb (Created x)" for tb all x
    unfolding FullBackupList_def by (rule readMetadataList_entry(1))
  show "IncrementalBackupList yaml lib st b tb = Ok all \<Longrightarrow> x \<in> set all \<Longrightarrow> Contains tb (Created x)" for tb all x
    unfolding IncrementalBackupList_def by (rule readMetadataList_entry(1))
qed (auto simp: FindLastFullBackup_Ok FindIncrementalBackupsForNamespace_def outcome_simps)

section \<open>Properties\<close>

text \<open>
  C24: \<open>latestBackupBeforeTime\<close> returns exactly the backups that are not after the bound and than
  which no other such backup is newer, in the order of the list.
\<close>

theorem latest_backups:
  "latestBackupBeforeTime bs t =
     filter (\<lambda>b. Created b \<le> t \<and> (\<forall>c \<in> set bs. Created c \<le> t \<longrightarrow> Created c \<le> Created b)) bs"
proof (cases "before t bs")
  case Nil
  then have "filter (\<lambda>b. Created b \<le> t \<and> (\<forall>c \<in> set bs. Created c \<le> t \<longrightarrow> Created c \<le> Created b)) bs = []"
    by (auto simp: before_def filter_empty_conv)
  then show ?thesis using Nil by (simp add: latest_eq)
next
  case (Cons b rest)
  then have ne: "before t bs \<noteq> []" by simp
  have "Created x = newest (before t bs) \<longleftrightarrow> (\<forall>c \<in> set bs. Created c \<le> t \<longrightarrow> Created c \<le> Created x)"
    if "x \<in> set bs" "Created x \<le> t" for x
  proof
    assume "Created x = newest (before t bs)"
    then show "\<forall>c \<in> set bs. Created c \<le> t \<longrightarrow> Created c \<le> Created x"
      using newest_ge [of _ "before t bs"] by (simp add: before_def)
  next
    assume "\<forall>c \<in> set bs. Created c \<le> t \<longrightarrow> Created c \<le> Created x"
    then have "newest (before t bs) \<le> Created x" using newest_in [OF ne] by (auto simp: before_def)
    moreover have "Created x \<le> newest (before t bs)"
      by (rule newest_ge) (use that in \<open>simp add: before_def\<close>)
    ultimately show "Created x = newest (before t bs)" by simp
  qed
  then have "at_time (newest (before t bs)) (before t bs) =
      filter (\<lambda>b. Created b \<le> t \<and> (\<forall>c \<in> set bs. Created c \<le> t \<longrightarrow> Created c \<le> Created b)) bs"
    unfolding at_time_def before_def filter_filter by (intro filter_cong) auto
  then show ?thesis using ne by (simp add: latest_eq)
qed

text \<open>
  C13: The backups a point-in-time restore starts from: they exist, have one creation time, which is
  not after the time asked for and than which no listed full backup is newer; and the key of each
  is the folder in which the routine, with its policy as it is now, puts a full backup of that namespace at that
  time. (A backup taken under another \<open>RemoveFiles\<close> policy, before the policy was changed and applied, may lie elsewhere.)
\<close>

theorem last_full_backup_found:
  assumes "newBackend st name routine = Ok b" and "deref stPolicies st (brBackupPolicy routine) = Some policy"
    and "FindLastFullBackup yaml lib st b t = Ok bs"
  shows "bs \<noteq> [] \<and>
    (\<forall>x \<in> set bs. Created x \<le> t \<and> (\<forall>y \<in> set bs. Created x = Created y) \<and>
       Key x = getFullPath (Join [name, FullBackupDirectory]) policy (Namespace x) (Created x)) \<and>
    (\<exists>all. FullBackupList yaml lib st b \<lparr>FromTime = None, ToTime = Some t\<rparr> = Ok all \<and> set bs \<subseteq> set all \<and>
       (\<forall>y \<in> set all. \<forall>x \<in> set bs. Created y \<le> Created x))"
proof -
  obtain all where all: "FullBackupList yaml lib st b \<lparr>FromTime = None, ToTime = Some t\<rparr> = Ok all" "all \<noteq> []"
    "bs = at_time (newest all) all"
    using assms(3) unfolding FindLastFullBackup_Ok by blast
  have b: "fullBackupsPath b = Join [name, FullBackupDirectory]"
    "removeFullBackup b = RemoveFullBackup (bpRemoveFiles policy)"
    using assms(1,2) by (auto simp: newBackend_def)
  have key: "Key x = getFullPath (Join [name, FullBackupDirectory]) policy (Namespace x) (Created x)"
    if "x \<in> set bs" for x
  proof -
    have "x \<in> set all" using that all(3) by (simp add: at_time_def)
    from readMetadataList_entry(3) [OF all(1) [unfolded FullBackupList_def] this] show ?thesis
      by (simp add: b getKey_full)
  qed
  have "\<forall>y \<in> set all. \<forall>x \<in> set bs. Created y \<le> Created x"
    using newest_ge [of _ all] by (simp add: all(3) at_time_def)
  moreover have "set bs \<subseteq> set all" using all(3) by (auto simp: at_time_def)
  moreover note backend.last_full_props [OF assms(3)]
  ultimately show ?thesis using key all(1) by blast
qed

text \<open>
  C14: The incremental backups a point-in-time restore applies to a namespace are all those listed
  in the bounds for this namespace, each once, in the order of their creation, and the key of each
  is the folder that incremental backup was written to.
\<close>

theorem incremental_backups_found:
  assumes "newBackend st name routine = Ok b"
    and "FindIncrementalBackupsForNamespace pick yaml lib st b bounds ns = Ok bs"
  shows "sorted (map Created bs) \<and>
    (\<exists>all. IncrementalBackupList yaml lib st b bounds = Ok all \<and>
       mset bs = mset (filter (\<lambda>x. Namespace x = ns) all)) \<and>
    (\<forall>x \<in> set bs. Contains bounds (Created x) \<and>
       Key x = getIncrementalPathForNamespace (Join [name, IncrementalBackupDirectory]) ns (Created x))"
proof -
  obtain all where all: "IncrementalBackupList yaml lib st b bounds = Ok all"
    "mset bs = mset (filter (\<lambda>x. Namespace x = ns) all)"
    using backend.incr_found [OF assms(2)] by blast
  have b: "incrementalBackupsPath b = Join [name, IncrementalBackupDirectory]"
    using assms(1) by (auto simp: newBackend_def split: option.splits)
  have "Key x = getIncrementalPathForNamespace (Join [name, IncrementalBackupDirectory]) ns (Created x)"
    if "x \<in> set bs" for x
  proof -
    have x: "x \<in> set all" "Namespace x = ns" using that mset_eq_setD [OF all(2)] by auto
    from readMetadataList_entry(3) [OF all(1) [unfolded IncrementalBackupList_def] x(1)] show ?thesis
      by (simp add: b getKey_incremental x(2))
  qed
  then show ?thesis using all backend.incr_found_props [OF assms(2)] by blast
qed

text \<open>The libraries return errors, they do not panic.\<close>

definition never_panics :: "storage_lib \<Rightarrow> bool" where
  "never_panics lib \<longleftrightarrow>
     (\<forall>client container opts s p.
        slReader lib client container opts \<noteq> Panic p \<and>
        (slReader lib client container opts = Ok s \<longrightarrow> Panic p \<notin> set (smFiles s)))"

lemma readLoop_no_Panic: "Panic p \<notin> set rs \<Longrightarrow> readLoop rs fin files \<noteq> Panic p"
  by (induction rs fin files rule: readLoop.induct) (auto simp: outcome_simps)

lemma ReadFiles_no_Panic:
  assumes "never_panics lib"
  shows "ReadFiles lib (Some s) path suffix from \<noteq> Panic p"
proof -
  have "CreateReader lib (Some s) path False v start \<noteq> Panic p" for v start
    using assms CreateReader_Panic unfolding never_panics_def by blast
  moreover have "Panic p \<notin> set (smFiles r)" if "CreateReader lib (Some s) path False v start = Ok r" for v start r
    using assms CreateReader_Ok [OF that] unfolding never_panics_def by blast
  ultimately show ?thesis using readLoop_no_Panic by (auto simp: ReadFiles_def outcome_simps)
qed

definition codec_never_panics :: "codec \<Rightarrow> bool" where
  "codec_never_panics yaml \<longleftrightarrow> (\<forall>m data p. marshal yaml m \<noteq> Panic p \<and> unmarshal yaml data \<noteq> Panic p)"

lemma decodeLoop_no_Panic:
  "codec_never_panics yaml \<Longrightarrow> decodeLoop yaml b dir full tb files \<noteq> Panic p"
  by (induction files) (simp_all add: outcome_simps NewMetadataFromBytes_def codec_never_panics_def)

lemma readMetadataList_no_Panic:
  assumes "deref stStorages st (bbStorage b) = Some s" and "never_panics lib" and "codec_never_panics yaml"
  shows "readMetadataList yaml lib st b tb full \<noteq> Panic p"
  using assms(1) ReadFiles_no_Panic [OF assms(2)] decodeLoop_no_Panic [OF assms(3)]
  by (simp add: readMetadataList_def Let_def split: outcome.split)

definition list_read :: "(backend_error, BackupDetails list) outcome \<Rightarrow> BackupDetails list" where
  "list_read r = (case r of Ok xs \<Rightarrow> xs | _ \<Rightarrow> [])"

definition newest_or_zero :: "BackupDetails list \<Rightarrow> time" where
  "newest_or_zero xs = (if xs = [] then zeroTime else newest xs)"

lemma lastBackupTime_Ok:
  assumes "\<forall>x \<in> set xs. Created x \<le> now"
  shows "lastBackupTime now xs = Ok (newest_or_zero xs)"
proof (cases "xs = []")
  case False
  then have l: "latestBackupBeforeTime xs now = at_time (newest xs) xs" "at_time (newest xs) xs \<noteq> []"
    using latest_all [OF before_all [OF assms]] at_newest_ne by simp_all
  have "Created x = newest xs" if "at_time (newest xs) xs = x # ys" for x ys
  proof -
    have "x \<in> set (at_time (newest xs) xs)" unfolding that by simp
    then show ?thesis by (simp add: at_time_def)
  qed
  then show ?thesis using l False by (simp add: lastBackupTime_def newest_or_zero_def split: list.split)
qed (simp add: lastBackupTime_def newest_or_zero_def)


section \<open>A concrete storage\<close>

definition demo_metadata :: "int64 \<Rightarrow> string \<Rightarrow> BackupMetadata" where
  "demo_metadata ms ns =
     \<lparr>Created = timeUnixMilli ms, From = zeroTime, Namespace = ns, RecordCount = 5, ByteCount = 0, FileCount = 1,
      SecondaryIndexCount = 0, UDFCount = 0\<rparr>"

definition demo_yaml :: codec where
  "demo_yaml =
     \<lparr>marshal = (\<lambda>m. Ok ''a''),
      unmarshal = (\<lambda>data. if data = ''a'' then Ok (demo_metadata 20 ''ns'') else Ok (demo_metadata 10 ''ns''))\<rparr>"

definition demo_lib :: storage_lib where
  "demo_lib =
     \<lparr>slClient = (\<lambda>c. None),
      slReader = (\<lambda>c container opts. Ok \<lparr>smFiles = [Ok ''a'', Ok ''b''],
        smEnd = StreamError \<lparr>ioText = ''EOF'', ioNotExist = False, ioEOF = True\<rparr>\<rparr>),
      slWriter = (\<lambda>c container opts. Ok 0), slNewWriter = (\<lambda>w. Ok 0), slWrite = (\<lambda>w data. None),
      slRemoveFiles = (\<lambda>w. None)\<rparr>"

definition demo_store :: store where
  "demo_store = emptyStore
     \<lparr>stPolicies := [1 \<mapsto> backupPolicyToModel newBackupPolicy], stStorages := [3 \<mapsto> Local \<lparr>lsPath = ''/d''\<rparr>],
      stRoutines := [0 \<mapsto> demo_routine]\<rparr>"

definition demo_backend :: BackupBackend where
  "demo_backend =
     \<lparr>bbStorage = Some 3, fullBackupsPath = Join [''r'', FullBackupDirectory],
      incrementalBackupsPath = Join [''r'', IncrementalBackupDirectory], stateFilePath = Join [''r'', StateFileName],
      removeFullBackup = False, fullBackupInProgress = False\<rparr>"

lemma demo_policy_at: "deref stPolicies demo_store (brBackupPolicy demo_routine) = Some (backupPolicyToModel newBackupPolicy)"
  by (simp add: demo_store_def demo_routine_def deref_def)

lemma demo_storage_at: "deref stStorages demo_store (bbStorage demo_backend) = Some (Local \<lparr>lsPath = ''/d''\<rparr>)"
  by (simp add: demo_store_def demo_backend_def deref_def)

lemma demo_backend_new: "newBackend demo_store ''r'' demo_routine = Ok demo_backend"
  unfolding newBackend_def demo_policy_at
  by (simp add: demo_backend_def demo_routine_def backupPolicyToModel_def newBackupPolicy_def RemoveFullBackup_def)

lemma demo_files: "ReadFiles demo_lib (Some (Local l)) path suffix from = Ok [''a'', ''b'']"
  by (simp add: ReadFiles_def CreateReader_connected connected_def demo_lib_def)

lemma demo_list:
  "readMetadataList demo_yaml demo_lib demo_store demo_backend tb full =
     Ok (map (toDetails demo_backend (if full then fullBackupsPath demo_backend else incrementalBackupsPath demo_backend) full)
           (filter (\<lambda>m. Contains tb (Created m)) [demo_metadata 20 ''ns'', demo_metadata 10 ''ns'']))"
  by (simp add: readMetadataList_def Let_def demo_storage_at demo_files NewMetadataFromBytes_def demo_yaml_def)

lemma demo_contains [simp]: "Contains \<lparr>FromTime = None, ToTime = Some t\<rparr> u = (u \<le> t)"
  by (simp add: Contains_iff lower_ok_def upper_ok_def)

theorem latest_backups_witness:
  "map Created (latestBackupBeforeTime (list_read (FullBackupList demo_yaml demo_lib demo_store demo_backend
       \<lparr>FromTime = None, ToTime = Some (timeUnixMilli 30)\<rparr>)) (timeUnixMilli 15)) = [timeUnixMilli 10]"
  unfolding latest_backups
  by (simp add: FullBackupList_def demo_list list_read_def demo_metadata_def timeUnixMilli_def)

theorem last_full_backup_found_witness:
  "case FindLastFullBackup demo_yaml demo_lib demo_store demo_backend (timeUnixMilli 15) of
     Ok bs \<Rightarrow> map Key bs = [''r/backup/10/data/ns''] | _ \<Rightarrow> False"
proof -
  let ?x = "toDetails demo_backend (fullBackupsPath demo_backend) True (demo_metadata 10 ''ns'')"
  have ok: "FindLastFullBackup demo_yaml demo_lib demo_store demo_backend (timeUnixMilli 15) = Ok [?x]"
    by (simp add: FindLastFullBackup_Ok FullBackupList_def demo_list demo_metadata_def timeUnixMilli_def newest_def)
  from last_full_backup_found [OF demo_backend_new demo_policy_at ok]
  have "Key ?x = getFullPath (Join [''r'', FullBackupDirectory]) (backupPolicyToModel newBackupPolicy) ''ns'' (timeUnixMilli 10)"
    by (simp add: demo_metadata_def)
  moreover have "getFullPath (Join [''r'', FullBackupDirectory]) (backupPolicyToModel newBackupPolicy) ''ns'' (timeUnixMilli 10)
      = ''r/backup/10/data/ns''"
    by code_simp
  ultimately show ?thesis using ok by simp
qed

theorem incremental_backups_found_witness:
  "case FindIncrementalBackupsForNamespace (\<lambda>xs. xs) demo_yaml demo_lib demo_store demo_backend
       \<lparr>FromTime = None, ToTime = Some (timeUnixMilli 15)\<rparr> ''ns'' of
     Ok bs \<Rightarrow> sorted (map Created bs) \<and> map Created bs = [timeUnixMilli 10] | _ \<Rightarrow> False"
proof -
  let ?x = "toDetails demo_backend (incrementalBackupsPath demo_backend) False (demo_metadata 10 ''ns'')"
  have ok: "FindIncrementalBackupsForNamespace (\<lambda>xs. xs) demo_yaml demo_lib demo_store demo_backend
      \<lparr>FromTime = None, ToTime = Some (timeUnixMilli 15)\<rparr> ''ns'' = Ok [?x]"
    by (simp add: FindIncrementalBackupsForNamespace_def IncrementalBackupList_def demo_list demo_metadata_def
        timeUnixMilli_def permuted_def)
  from incremental_backups_found [OF demo_backend_new ok] show ?thesis unfolding ok
    by (simp add: demo_metadata_def)
qed

lemma demo_never_panics: "never_panics demo_lib" "codec_never_panics demo_yaml"
  by (simp_all add: never_panics_def codec_never_panics_def demo_lib_def demo_yaml_def)


end
