(* ===== verification/LibConfig.thy ===== *)
theory LibConfig
  imports Backend
begin

text \<open>
  \<open>pkg/service/backup_go.go\<close> and \<open>restore_go.go\<close>: what the service asks of the backup library.
  The library's default configurations are parameters; the fields the service sets are those of
  the records below. A handler of a started job is a number.
\<close>

section \<open>Configurations of the library\<close>

record LibCompression =
  lcoMode :: string
  lcoLevel :: goint

record LibEncryption =
  leMode :: string
  leKeyFile :: "string option"
  leKeySecret :: "string option"
  leKeyEnv :: "string option"

record LibSecretAgent =
  lsaConnectionType :: "string option"
  lsaAddress :: "string option"
  lsaPort :: "goint option"
  lsaTimeoutMillisecond :: "goint option"
  lsaCaFile :: "string option"
  lsaIsBase64 :: "bool option"

record ScanPolicy =
  spTotalTimeout :: int64
  spSocketTimeout :: int64

record LibBackupConfig =
  lbNamespace :: string
  lbBinList :: "string list"
  lbSetList :: "string list"
  lbNoRecords :: bool
  lbNoIndexes :: bool
  lbNoUDFs :: bool
  lbParallelRead :: goint
  lbParallelWrite :: goint
  lbFileLimit :: int64
  lbRecordsPerSecond :: goint
  lbModBefore :: "time option"
  lbModAfter :: "time option"
  lbScanPolicy :: ScanPolicy
  lbBandwidth :: goint
  lbCompression :: "LibCompression option"
  lbEncryption :: "LibEncryption option"
  lbSecretAgent :: "LibSecretAgent option"

datatype GenerationPolicy = GenerationNone | ExpectGenGt
datatype RecordExistsAction = Replace | CreateOnly | Update

record WritePolicy =
  wpGenerationPolicy :: GenerationPolicy
  wpRecordExistsAction :: RecordExistsAction
  wpTotalTimeout :: int64

record LibRestoreConfig =
  lrBinList :: "string list"
  lrSetList :: "string list"
  lrRetryPolicy :: LibRetryPolicy
  lrRecordsPerSecond :: goint
  lrBandwidth :: goint
  lrWritePolicy :: WritePolicy
  lrNoRecords :: bool
  lrNoIndexes :: bool
  lrNoUDFs :: bool
  lrNamespace :: "RestoreNamespace option"
  lrParallel :: goint
  lrMaxAsyncBatches :: goint
  lrBatchSize :: goint
  lrDisableBatchWrites :: bool
  lrCompression :: "LibCompression option"
  lrEncryption :: "LibEncryption option"
  lrExtraTTL :: int64
  lrSecretAgent :: "LibSecretAgent option"

text \<open>\<open>x = NewDefault...(); if p != nil { x.f = g(p) }\<close> as a fold over the optional settings.\<close>

definition set_opt :: "'a option \<Rightarrow> ('a \<Rightarrow> 'c \<Rightarrow> 'c) \<Rightarrow> 'c \<Rightarrow> 'c" where
  "set_opt p f c = (case p of None \<Rightarrow> c | Some v \<Rightarrow> f v c)"

lemma set_opt_simps [simp]: "set_opt None f c = c" "set_opt (Some v) f c = f v c"
  by (simp_all add: set_opt_def)

definition Millisecond :: int64 where
  "Millisecond = 1000000"

definition libCompression :: "CompressionPolicy \<Rightarrow> LibCompression" where
  "libCompression p = \<lparr>lcoMode = cpMode p, lcoLevel = int64_of_int32 (cpLevel p)\<rparr>"

definition libEncryption :: "EncryptionPolicy \<Rightarrow> LibEncryption" where
  "libEncryption p = \<lparr>leMode = epMode p, leKeyFile = epKeyFile p, leKeySecret = epKeySecret p, leKeyEnv = epKeyEnv p\<rparr>"

definition libSecretAgent :: "SecretAgent \<Rightarrow> LibSecretAgent" where
  "libSecretAgent a =
     \<lparr>lsaConnectionType = saConnectionType a, lsaAddress = saAddress a, lsaPort = saPort a,
      lsaTimeoutMillisecond = saTimeout a, lsaCaFile = saTLSCAString a, lsaIsBase64 = saIsBase64 a\<rparr>"

section \<open>Backups\<close>

definition makeBackupConfig ::
  "LibBackupConfig \<Rightarrow> ScanPolicy \<Rightarrow> string \<Rightarrow> BackupRoutine \<Rightarrow> BackupPolicy \<Rightarrow> TimeBounds \<Rightarrow>
   SecretAgent option \<Rightarrow> LibBackupConfig" where
  "makeBackupConfig newDefault newScanPolicy namespace backupRoutine backupPolicy timebounds secretAgent =
     (let c = newDefault\<lparr>lbNamespace := namespace, lbBinList := brBinList backupRoutine\<rparr>;
          c = (if bpNoRecords backupPolicy = Some True then c\<lparr>lbNoRecords := True\<rparr> else c);
          c = (if bpNoIndexes backupPolicy = Some True then c\<lparr>lbNoIndexes := True\<rparr> else c);
          c = (if bpNoUdfs backupPolicy = Some True then c\<lparr>lbNoUDFs := True\<rparr> else c);
          c = (if 0 < length (brSetList backupRoutine) then c\<lparr>lbSetList := brSetList backupRoutine\<rparr> else c);
          c = set_opt (bpParallel backupPolicy) (\<lambda>n c. c\<lparr>lbParallelRead := n, lbParallelWrite := n\<rparr>) c;
          c = set_opt (bpFileLimit backupPolicy) (\<lambda>n c. c\<lparr>lbFileLimit := n * 1048576\<rparr>) c;
          c = set_opt (bpRecordsPerSecond backupPolicy) (\<lambda>n c. c\<lparr>lbRecordsPerSecond := int64_of_int32 n\<rparr>) c;
          c = c\<lparr>lbModBefore := ToTime timebounds, lbModAfter := FromTime timebounds, lbScanPolicy := newScanPolicy\<rparr>;
          c = set_opt (bpTotalTimeout backupPolicy) (\<lambda>n c. if 0 < sint n
                then c\<lparr>lbScanPolicy := (lbScanPolicy c)\<lparr>spTotalTimeout := int64_of_int32 n * Millisecond\<rparr>\<rparr> else c) c;
          c = set_opt (bpSocketTimeout backupPolicy) (\<lambda>n c. if 0 < sint n
                then c\<lparr>lbScanPolicy := (lbScanPolicy c)\<lparr>spSocketTimeout := int64_of_int32 n * Millisecond\<rparr>\<rparr> else c) c;
          c = set_opt (bpBandwidth backupPolicy) (\<lambda>n c. c\<lparr>lbBandwidth := n\<rparr>) c;
          c = set_opt (bpCompressionPolicy backupPolicy) (\<lambda>p c. c\<lparr>lbCompression := Some (libCompression p)\<rparr>) c;
          c = set_opt (bpEncryptionPolicy backupPolicy) (\<lambda>p c. c\<lparr>lbEncryption := Some (libEncryption p)\<rparr>) c;
          c = set_opt secretAgent (\<lambda>a c. c\<lparr>lbSecretAgent := Some (libSecretAgent a)\<rparr>) c
      in c)"

text \<open>
  The library a backup or a restore is started with: its defaults, and what starting answers: a
  handler or an error text.
\<close>

record backup_lib =
  blDefaultBackup :: LibBackupConfig
  blDefaultRestore :: LibRestoreConfig
  blScanPolicy :: ScanPolicy
  blWritePolicy :: WritePolicy
  blBackup :: "nat \<Rightarrow> LibBackupConfig \<Rightarrow> nat \<Rightarrow> (string, nat) outcome"
  blRestore :: "nat \<Rightarrow> LibRestoreConfig \<Rightarrow> stream \<Rightarrow> (string, nat) outcome"

definition BackupRun ::
  "backup_lib \<Rightarrow> storage_lib \<Rightarrow> BackupRoutine \<Rightarrow> BackupPolicy \<Rightarrow> nat \<Rightarrow> Storage option \<Rightarrow>
   SecretAgent option \<Rightarrow> TimeBounds \<Rightarrow> string \<Rightarrow> string \<Rightarrow> (string, nat) outcome" where
  "BackupRun bl sl backupRoutine backupPolicy client s secretAgent timebounds namespace path =
     (let config = makeBackupConfig (blDefaultBackup bl) (blScanPolicy bl) namespace backupRoutine backupPolicy
                     timebounds secretAgent in
      and_then (map_err (\<lambda>e. ''failed to create backup writer, '' @ ioText e)
         (CreateWriter sl s path False (RemoveFullBackup (bpRemoveFiles backupPolicy)) False)) (\<lambda>writerFactory.
      map_err (\<lambda>e. ''failed to start backup, '' @ e) (blBackup bl client config writerFactory)))"

section \<open>Restores\<close>

definition recordExistsAction :: "bool option \<Rightarrow> bool option \<Rightarrow> RecordExistsAction" where
  "recordExistsAction replace unique =
     (if replace = Some True then Replace else if unique = Some True then CreateOnly else Update)"

definition makeWritePolicy :: "WritePolicy \<Rightarrow> RestorePolicy \<Rightarrow> WritePolicy" where
  "makeWritePolicy newWritePolicy policy =
     (let w = newWritePolicy\<lparr>wpGenerationPolicy := ExpectGenGt\<rparr>;
          w = (if rpNoGeneration policy = Some True then w\<lparr>wpGenerationPolicy := GenerationNone\<rparr> else w);
          w = w\<lparr>wpRecordExistsAction := recordExistsAction (rpReplace policy) (rpUnique policy)\<rparr>
      in set_opt (rpTimeout policy) (\<lambda>n w. if 0 < sint n
           then w\<lparr>wpTotalTimeout := int64_of_int32 n * Millisecond\<rparr> else w) w)"

text \<open>The policy of the request is dereferenced throughout; a nil one panics.\<close>

definition makeRestoreConfig ::
  "LibRestoreConfig \<Rightarrow> WritePolicy \<Rightarrow> RestorePolicy option \<Rightarrow> SecretAgent option \<Rightarrow> ('e, LibRestoreConfig) outcome" where
  "makeRestoreConfig newDefault newWritePolicy requestPolicy secretAgent =
     (case requestPolicy of
        None \<Rightarrow> Panic NilDereference
      | Some policy \<Rightarrow>
     (let c = newDefault\<lparr>lrBinList := rpBinList policy, lrSetList := rpSetList policy,
                         lrRetryPolicy := GetRetryPolicyOrDefault policy\<rparr>;
          c = set_opt (rpTps policy) (\<lambda>n c. c\<lparr>lrRecordsPerSecond := int64_of_int32 n\<rparr>) c;
          c = set_opt (rpBandwidth policy) (\<lambda>n c. c\<lparr>lrBandwidth := n\<rparr>) c;
          c = c\<lparr>lrWritePolicy := makeWritePolicy newWritePolicy policy\<rparr>;
          c = (if rpNoRecords policy = Some True then c\<lparr>lrNoRecords := True\<rparr> else c);
          c = (if rpNoIndexes policy = Some True then c\<lparr>lrNoIndexes := True\<rparr> else c);
          c = (if rpNoUdfs policy = Some True then c\<lparr>lrNoUDFs := True\<rparr> else c);
          c = set_opt (rpNamespace policy) (\<lambda>n c. c\<lparr>lrNamespace := Some n\<rparr>) c;
          c = set_opt (rpParallel policy) (\<lambda>n c. c\<lparr>lrParallel := int64_of_int32 n\<rparr>) c;
          c = set_opt (rpMaxAsyncBatches policy) (\<lambda>n c. c\<lparr>lrMaxAsyncBatches := int64_of_int32 n\<rparr>) c;
          c = set_opt (rpBatchSize policy) (\<lambda>n c. c\<lparr>lrBatchSize := int64_of_int32 n\<rparr>) c;
          c = set_opt (rpDisableBatchWrites policy) (\<lambda>d c. c\<lparr>lrDisableBatchWrites := d\<rparr>) c;
          c = set_opt (rpCompressionPolicy policy) (\<lambda>p c. c\<lparr>lrCompression := Some (libCompression p)\<rparr>) c;
          c = set_opt (rpEncryptionPolicy policy) (\<lambda>p c. c\<lparr>lrEncryption := Some (libEncryption p)\<rparr>) c;
          c = set_opt (rpExtraTTL policy) (\<lambda>n c. c\<lparr>lrExtraTTL := n\<rparr>) c;
          c = set_opt secretAgent (\<lambda>a c. c\<lparr>lrSecretAgent := Some (libSecretAgent a)\<rparr>) c
      in Ok c))"

definition RestoreRun ::
  "backup_lib \<Rightarrow> storage_lib \<Rightarrow> store \<Rightarrow> nat \<Rightarrow> RestoreRequest \<Rightarrow> (string, nat) outcome" where
  "RestoreRun bl sl st client request =
     and_then (makeRestoreConfig (blDefaultRestore bl) (blWritePolicy bl) (rrPolicy request)
                 (deref stAgents st (rrSecretAgent request))) (\<lambda>config.
     and_then (map_err (\<lambda>e. ''failed to create backup reader, '' @ ioText e)
        (CreateReader sl (deref stStorages st (rrSourceStorage request)) (rrBackupDataPath request) False
           AsbValidator [])) (\<lambda>reader.
     map_err (\<lambda>e. ''failed to start restore, '' @ e) (blRestore bl client config reader)))"

section \<open>What reaches the library\<close>

lemma sint_mult_64:
  assumes "- (2 ^ 63) \<le> sint (a :: int64) * k" and "sint a * k < 2 ^ 63"
  shows "sint (a * word_of_int k) = sint a * k"
proof -
  have "a * word_of_int k = word_of_int (sint a * k)" by (simp add: wi_hom_mult [symmetric])
  then show ?thesis using sint_word_of_int_64 [OF assms] by simp
qed

lemma timeout_exact: "sint (int64_of_int32 n * Millisecond) = sint n * 1000000"
  using sint_mult_64 [of "int64_of_int32 n" 1000000] sint32_range [of n] by (simp add: Millisecond_def)

lemma set_opt_field:
  assumes "\<And>v c. g (f v c) = g c"
  shows "g (set_opt p f c) = g c"
  using assms by (cases p) simp_all

lemmas backup_config_fields =
  set_opt_field [where g = lbNamespace] set_opt_field [where g = lbModAfter] set_opt_field [where g = lbModBefore]
  set_opt_field [where g = lbFileLimit] set_opt_field [where g = lbScanPolicy]
  set_opt_field [where g = "\<lambda>c. spTotalTimeout (lbScanPolicy c)"]
  set_opt_field [where g = "\<lambda>c. spSocketTimeout (lbScanPolicy c)"]
  set_opt_field [where g = lbEncryption] set_opt_field [where g = lbCompression]
  set_opt_field [where g = lbNoIndexes] set_opt_field [where g = lbNoUDFs] set_opt_field [where g = lbNoRecords]
  set_opt_field [where g = lbBinList] set_opt_field [where g = lbSetList] set_opt_field [where g = lbParallelRead]
  set_opt_field [where g = lbParallelWrite] set_opt_field [where g = lbRecordsPerSecond]
  set_opt_field [where g = lbBandwidth] set_opt_field [where g = lbSecretAgent]

lemmas backup_config_simps = makeBackupConfig_def Let_def backup_config_fields

lemma backup_config_scope:
  "lbNamespace (makeBackupConfig d s ns r p tb sa) = ns"
  "lbModAfter (makeBackupConfig d s ns r p tb sa) = FromTime tb"
  "lbModBefore (makeBackupConfig d s ns r p tb sa) = ToTime tb"
  by (simp_all add: backup_config_simps)

lemma backup_config_limit:
  assumes "bpFileLimit p = Some n" and "0 < sint n" and "sint n < 8796093022208"
  shows "sint (lbFileLimit (makeBackupConfig d s ns r p tb sa)) = sint n * 1048576"
  using assms sint_mult_64 [of n 1048576] by (simp add: backup_config_simps)

lemma backup_config_timeouts:
  "bpTotalTimeout p = Some n \<Longrightarrow> 0 < sint n \<Longrightarrow>
     sint (spTotalTimeout (lbScanPolicy (makeBackupConfig d s ns r p tb sa))) = sint n * 1000000"
  "bpSocketTimeout p = Some n \<Longrightarrow> 0 < sint n \<Longrightarrow>
     sint (spSocketTimeout (lbScanPolicy (makeBackupConfig d s ns r p tb sa))) = sint n * 1000000"
  by (simp_all add: backup_config_simps timeout_exact)

lemma backup_config_codecs:
  "lbEncryption (makeBackupConfig d s ns r p tb sa) =
     (case bpEncryptionPolicy p of Some e \<Rightarrow> Some (libEncryption e) | None \<Rightarrow> lbEncryption d)"
  "lbCompression (makeBackupConfig d s ns r p tb sa) =
     (case bpCompressionPolicy p of Some e \<Rightarrow> Some (libCompression e) | None \<Rightarrow> lbCompression d)"
  by (cases "bpEncryptionPolicy p"; cases "bpCompressionPolicy p"; simp add: backup_config_simps)+

definition demo_scan :: ScanPolicy where
  "demo_scan = \<lparr>spTotalTimeout = 0, spSocketTimeout = 0\<rparr>"

definition demo_lib_config :: LibBackupConfig where
  "demo_lib_config = \<lparr>lbNamespace = '''', lbBinList = [], lbSetList = [], lbNoRecords = False, lbNoIndexes = False,
     lbNoUDFs = False, lbParallelRead = 1, lbParallelWrite = 1, lbFileLimit = 0, lbRecordsPerSecond = 0,
     lbModBefore = None, lbModAfter = None, lbScanPolicy = demo_scan, lbBandwidth = 0, lbCompression = None,
     lbEncryption = None, lbSecretAgent = None\<rparr>"

text \<open>
  What the library's configuration \<open>c\<close> of a backup is to hold: what the policy \<open>p\<close> and the routine \<open>r\<close>
  set, in the units of the library, and what they leave open as in its default \<open>d\<close> and scan policy \<open>sp\<close>.
\<close>

definition scope_asked :: "LibBackupConfig \<Rightarrow> string \<Rightarrow> BackupRoutine \<Rightarrow> BackupPolicy \<Rightarrow> TimeBounds \<Rightarrow> LibBackupConfig \<Rightarrow> bool" where
  "scope_asked d ns r p tb c \<longleftrightarrow>
     lbNamespace c = ns \<and> lbModAfter c = FromTime tb \<and> lbModBefore c = ToTime tb \<and> lbBinList c = brBinList r \<and>
     lbSetList c = (if brSetList r = [] then lbSetList d else brSetList r) \<and>
     (lbNoRecords c \<longleftrightarrow> bpNoRecords p = Some True \<or> lbNoRecords d) \<and>
     (lbNoIndexes c \<longleftrightarrow> bpNoIndexes p = Some True \<or> lbNoIndexes d) \<and>
     (lbNoUDFs c \<longleftrightarrow> bpNoUdfs p = Some True \<or> lbNoUDFs d)"

definition limits_asked :: "LibBackupConfig \<Rightarrow> ScanPolicy \<Rightarrow> BackupPolicy \<Rightarrow> LibBackupConfig \<Rightarrow> bool" where
  "limits_asked d sp p c \<longleftrightarrow>
     (case bpParallel p of
        None \<Rightarrow> lbParallelRead c = lbParallelRead d \<and> lbParallelWrite c = lbParallelWrite d
      | Some n \<Rightarrow> lbParallelRead c = n \<and> lbParallelWrite c = n) \<and>
     (case bpFileLimit p of
        None \<Rightarrow> lbFileLimit c = lbFileLimit d
      | Some n \<Rightarrow> 0 < sint n \<longrightarrow> sint n < 8796093022208 \<longrightarrow> sint (lbFileLimit c) = sint n * 1048576) \<and>
     (case bpRecordsPerSecond p of
        None \<Rightarrow> lbRecordsPerSecond c = lbRecordsPerSecond d | Some n \<Rightarrow> sint (lbRecordsPerSecond c) = sint n) \<and>
     lbBandwidth c = (case bpBandwidth p of None \<Rightarrow> lbBandwidth d | Some n \<Rightarrow> n) \<and>
     sint (spTotalTimeout (lbScanPolicy c)) =
       (case bpTotalTimeout p of
          Some n \<Rightarrow> if 0 < sint n then sint n * 1000000 else sint (spTotalTimeout sp) | None \<Rightarrow> sint (spTotalTimeout sp)) \<and>
     sint (spSocketTimeout (lbScanPolicy c)) =
       (case bpSocketTimeout p of
          Some n \<Rightarrow> if 0 < sint n then sint n * 1000000 else sint (spSocketTimeout sp) | None \<Rightarrow> sint (spSocketTimeout sp))"

definition codecs_asked :: "LibBackupConfig \<Rightarrow> BackupPolicy \<Rightarrow> SecretAgent option \<Rightarrow> LibBackupConfig \<Rightarrow> bool" where
  "codecs_asked d p sa c \<longleftrightarrow>
     (case bpEncryptionPolicy p of
        None \<Rightarrow> lbEncryption c = lbEncryption d
      | Some e \<Rightarrow> \<exists>le. lbEncryption c = Some le \<and> leMode le = epMode e \<and> leKeyFile le = epKeyFile e \<and>
          leKeySecret le = epKeySecret e \<and> leKeyEnv le = epKeyEnv e) \<and>
     (case bpCompressionPolicy p of
        None \<Rightarrow> lbCompression c = lbCompression d
      | Some q \<Rightarrow> \<exists>lc. lbCompression c = Some lc \<and> lcoMode lc = cpMode q \<and> sint (lcoLevel lc) = sint (cpLevel q)) \<and>
     (case sa of
        None \<Rightarrow> lbSecretAgent c = lbSecretAgent d
      | Some a \<Rightarrow> \<exists>la. lbSecretAgent c = Some la \<and> lsaConnectionType la = saConnectionType a \<and> lsaAddress la = saAddress a \<and>
          lsaPort la = saPort a \<and> lsaTimeoutMillisecond la = saTimeout a \<and> lsaCaFile la = saTLSCAString a \<and>
          lsaIsBase64 la = saIsBase64 a)"

lemma sint_of_int32: "sint (int64_of_int32 n) = sint n"
  by (rule sint_int64_of_int32)

lemma makeBackupConfig_scope: "scope_asked d ns r p tb (makeBackupConfig d sp ns r p tb sa)"
  by (auto simp: scope_asked_def backup_config_simps)

lemma makeBackupConfig_limits: "limits_asked d sp p (makeBackupConfig d sp ns r p tb sa)"
  unfolding limits_asked_def
proof (intro conjI)
  let ?c = "makeBackupConfig d sp ns r p tb sa"
  show "case bpFileLimit p of None \<Rightarrow> lbFileLimit ?c = lbFileLimit d
      | Some n \<Rightarrow> 0 < sint n \<longrightarrow> sint n < 8796093022208 \<longrightarrow> sint (lbFileLimit ?c) = sint n * 1048576"
    using backup_config_limit [of p] by (auto simp: backup_config_simps split: option.split)
  show "sint (spTotalTimeout (lbScanPolicy ?c)) = (case bpTotalTimeout p of
      Some n \<Rightarrow> if 0 < sint n then sint n * 1000000 else sint (spTotalTimeout sp) | None \<Rightarrow> sint (spTotalTimeout sp))"
    using backup_config_timeouts(1) [of p] by (auto simp: backup_config_simps timeout_exact split: option.split)
  show "sint (spSocketTimeout (lbScanPolicy ?c)) = (case bpSocketTimeout p of
      Some n \<Rightarrow> if 0 < sint n then sint n * 1000000 else sint (spSocketTimeout sp) | None \<Rightarrow> sint (spSocketTimeout sp))"
    by (cases "bpTotalTimeout p") (auto simp: backup_config_simps timeout_exact split: option.split)
qed (auto simp: backup_config_simps sint_of_int32 split: option.split)

lemma makeBackupConfig_codecs: "codecs_asked d p sa (makeBackupConfig d sp ns r p tb sa)"
  unfolding codecs_asked_def
proof (intro conjI)
  let ?c = "makeBackupConfig d sp ns r p tb sa"
  show "case sa of None \<Rightarrow> lbSecretAgent ?c = lbSecretAgent d
      | Some a \<Rightarrow> \<exists>la. lbSecretAgent ?c = Some la \<and> lsaConnectionType la = saConnectionType a \<and> lsaAddress la = saAddress a \<and>
          lsaPort la = saPort a \<and> lsaTimeoutMillisecond la = saTimeout a \<and> lsaCaFile la = saTLSCAString a \<and>
          lsaIsBase64 la = saIsBase64 a"
    by (simp add: backup_config_simps libSecretAgent_def split: option.split)
qed (simp_all add: backup_config_codecs libEncryption_def libCompression_def sint_of_int32 split: option.split)

text \<open>
  C29: A backup that was started was started as the routine and its policy say: the library was
  called with a writer for the folder of the backup, and with a configuration that has the
  namespace, the bounds, the bins and sets, what is left out, the parallelism, the limits of records
  per second and bandwidth, the file limit in bytes (exact when it is below 8796093022208 MiB, where
  the product would wrap), the timeouts in nanoseconds, and the encryption, compression and secret
  agent that were set, and the library's default for what was not.
\<close>

theorem backup_config_faithful:
  assumes "BackupRun bl sl r p client st sa tb ns path = Ok h"
  shows "\<exists>c writer. CreateWriter sl st path False (RemoveFullBackup (bpRemoveFiles p)) False = Ok writer \<and>
    blBackup bl client c writer = Ok h \<and> scope_asked (blDefaultBackup bl) ns r p tb c \<and>
    limits_asked (blDefaultBackup bl) (blScanPolicy bl) p c \<and> codecs_asked (blDefaultBackup bl) p sa c"
proof -
  let ?c = "makeBackupConfig (blDefaultBackup bl) (blScanPolicy bl) ns r p tb sa"
  obtain writer where "CreateWriter sl st path False (RemoveFullBackup (bpRemoveFiles p)) False = Ok writer"
    "blBackup bl client ?c writer = Ok h"
    using assms by (auto simp: BackupRun_def Let_def outcome_simps)
  then show ?thesis
    by (intro exI [of _ ?c] exI [of _ writer]) (simp add: makeBackupConfig_scope makeBackupConfig_limits makeBackupConfig_codecs)
qed

definition demo_restore_default :: LibRestoreConfig where
  "demo_restore_default = \<lparr>lrBinList = [], lrSetList = [], lrRetryPolicy = defaultRetry, lrRecordsPerSecond = 0,
     lrBandwidth = 0, lrWritePolicy = \<lparr>wpGenerationPolicy = GenerationNone, wpRecordExistsAction = Update, wpTotalTimeout = 0\<rparr>,
     lrNoRecords = False, lrNoIndexes = False, lrNoUDFs = False, lrNamespace = None, lrParallel = 1,
     lrMaxAsyncBatches = 1, lrBatchSize = 1, lrDisableBatchWrites = False, lrCompression = None, lrEncryption = None,
     lrExtraTTL = 0, lrSecretAgent = None\<rparr>"

definition demo_backup_lib :: backup_lib where
  "demo_backup_lib = \<lparr>blDefaultBackup = demo_lib_config, blDefaultRestore = demo_restore_default,
     blScanPolicy = demo_scan, blWritePolicy = lrWritePolicy demo_restore_default,
     blBackup = (\<lambda>client config writer. Ok 1), blRestore = (\<lambda>client config reader. Ok 2)\<rparr>"

definition demo_limited :: BackupPolicy where
  "demo_limited = (backupPolicyToModel newBackupPolicy)\<lparr>bpFileLimit := Some 250, bpBandwidth := Some 7\<rparr>"

lemma demo_backup_run:
  "BackupRun demo_backup_lib demo_lib demo_routine demo_limited 0 (Some (Local \<lparr>lsPath = ''/d''\<rparr>)) None
     \<lparr>FromTime = None, ToTime = None\<rparr> ''ns'' ''f'' = Ok 1"
  by (simp add: BackupRun_def Let_def demo_backup_lib_def CreateWriter_connected connected_def demo_lib_def)

theorem backup_config_faithful_witness:
  "\<exists>c writer. blBackup demo_backup_lib 0 c writer = Ok 1 \<and> lbNamespace c = ''ns'' \<and> sint (lbFileLimit c) = 262144000 \<and>
     lbBandwidth c = 7"
proof -
  obtain c writer where "blBackup demo_backup_lib 0 c writer = Ok 1" "lbNamespace c = ''ns''"
    "limits_asked (blDefaultBackup demo_backup_lib) (blScanPolicy demo_backup_lib) demo_limited c"
    using backup_config_faithful [OF demo_backup_run] by (auto simp: scope_asked_def)
  then show ?thesis by (auto simp: limits_asked_def demo_limited_def)
qed

text \<open>
  An incremental backup runs with the copy of the policy that leaves out indexes and UDFs. The
  copy keeps every limit, but not the encryption and compression: whatever the routine's policy
  asks for, the library is given its own default, which neither encrypts nor compresses.
\<close>

theorem incremental_policy_drops_codecs:
  fixes d s ns r p tb sa
  defines "c \<equiv> makeBackupConfig d s ns r (CopySMDDisabled p) tb sa"
  shows "lbNoIndexes c \<and> lbNoUDFs c \<and> lbEncryption c = lbEncryption d \<and> lbCompression c = lbCompression d \<and>
    lbFileLimit c = lbFileLimit (makeBackupConfig d s ns r p tb sa) \<and>
    lbScanPolicy c = lbScanPolicy (makeBackupConfig d s ns r p tb sa)"
  unfolding c_def
  by (cases "bpTotalTimeout p"; cases "bpSocketTimeout p"; cases "bpFileLimit p";
      simp add: backup_config_codecs; simp add: backup_config_simps CopySMDDisabled_def)

end
