(* ===== verification/ClientPolicy.thy ===== *)
theory ClientPolicy
  imports LibConfig
begin

text \<open>
  \<open>ASClientPolicy\<close> and \<open>initTLS\<close> of \<open>pkg/model/aerospike_cluster.go\<close>: how the service connects to
  a cluster. Reading files, PEM and X.509 are the fields of \<open>tls_lib\<close>; the client's default policy
  is a parameter.
\<close>

section \<open>TLS\<close>

record pem_block =
  pemType :: string
  pemHeaders :: "(string \<times> string) list"
  pemBytes :: bytes

record tls_lib =
  tlReadFile :: "string \<Rightarrow> bytes option"
  tlSystemPool :: "bytes list option"
  tlDecode :: "bytes \<Rightarrow> pem_block option"
  tlIsEncrypted :: "pem_block \<Rightarrow> bool"
  tlDecrypt :: "pem_block \<Rightarrow> bytes \<Rightarrow> bytes option"
  tlEncode :: "pem_block \<Rightarrow> bytes"
  tlKeyPair :: "bytes \<Rightarrow> bytes \<Rightarrow> bool"

text \<open>\<open>X509KeyPair\<close> returns the empty certificate with an error, which is logged and appended.\<close>

datatype Certificate = EmptyCertificate | KeyPair bytes bytes

record TlsConfig =
  tcCertificates :: "Certificate list"
  tcRootCAs :: "bytes list"
  tcInsecureSkipVerify :: bool
  tcPreferServerCipherSuites :: bool
  tcMinVersion :: nat

definition VersionTLS12 :: nat where
  "VersionTLS12 = 771"

definition TrimNewline :: "bytes \<Rightarrow> bytes" where
  "TrimNewline s = (if HasSuffix s [CHR 0x0A] then butlast s else s)"

definition readFromFile :: "tls_lib \<Rightarrow> string \<Rightarrow> bytes option" where
  "readFromFile lib filePath = map_option TrimNewline (tlReadFile lib filePath)"

definition nonempty :: "string option \<Rightarrow> bool" where
  "nonempty s = (case s of None \<Rightarrow> False | Some t \<Rightarrow> 0 < length t)"

text \<open>
  The block that loads the client certificate. \<open>Ok None\<close> is the early \<open>return nil\<close> of \<open>initTLS\<close>;
  both file names are dereferenced when either is given.
\<close>

definition loadClientPool :: "tls_lib \<Rightarrow> TLS \<Rightarrow> (string, Certificate list option) outcome" where
  "loadClientPool lib t =
     (case tlsCertfile t of
        None \<Rightarrow> Panic NilDereference
      | Some certfile \<Rightarrow>
     (case readFromFile lib certfile of
        None \<Rightarrow> Ok None
      | Some certFileBytes \<Rightarrow>
     (case tlsKeyfile t of
        None \<Rightarrow> Panic NilDereference
      | Some keyfile \<Rightarrow>
     (case readFromFile lib keyfile of
        None \<Rightarrow> Ok None
      | Some keyFileBytes \<Rightarrow>
     (case (tlDecode lib keyFileBytes, tlDecode lib certFileBytes) of
        (Some keyBlock, Some certBlock) \<Rightarrow>
          (case (case tlsKeyfilePassword t of
                   None \<Rightarrow> Some keyBlock
                 | Some password \<Rightarrow>
                     if tlIsEncrypted lib keyBlock
                     then map_option (\<lambda>der. keyBlock\<lparr>pemBytes := der, pemHeaders := []\<rparr>)
                            (tlDecrypt lib keyBlock password)
                     else Some keyBlock) of
             None \<Rightarrow> Ok None
           | Some keyBlock \<Rightarrow>
               let keyPEM = tlEncode lib keyBlock; certPEM = tlEncode lib certBlock
               in Ok (Some [if tlKeyPair lib certPEM keyPEM then KeyPair certPEM keyPEM else EmptyCertificate]))
      | _ \<Rightarrow> Ok None)))))"

definition initTLS :: "tls_lib \<Rightarrow> TLS \<Rightarrow> (string, TlsConfig option) outcome" where
  "initTLS lib t =
     (let systemPool = (case tlSystemPool lib of None \<Rightarrow> [] | Some pool \<Rightarrow> pool) in
      case (case tlsCAFile t of
              None \<Rightarrow> Some systemPool
            | Some path \<Rightarrow>
                if 0 < length path
                then map_option (\<lambda>caCert. systemPool @ [caCert]) (readFromFile lib path)
                else Some systemPool) of
        None \<Rightarrow> Ok None
      | Some serverPool \<Rightarrow>
          and_then (if nonempty (tlsCertfile t) \<or> nonempty (tlsKeyfile t) then loadClientPool lib t else Ok (Some []))
            (\<lambda>clientPool. Ok (map_option (\<lambda>certs.
               \<lparr>tcCertificates = certs, tcRootCAs = serverPool, tcInsecureSkipVerify = False,
                tcPreferServerCipherSuites = True, tcMinVersion = VersionTLS12\<rparr>) clientPool)))"

section \<open>The client policy\<close>

datatype AuthMode = AuthModeInternal | AuthModeExternal | AuthModePKI

record AsClientPolicy =
  ascUser :: string
  ascPassword :: string
  ascAuthMode :: AuthMode
  ascTimeout :: int64
  ascUseServicesAlternate :: bool
  ascTlsConfig :: "TlsConfig option"
  ascConnectionQueueSize :: goint
  ascLimitConnectionsToQueueSize :: bool

text \<open>
  \<open>strings.ToUpper\<close> as far as a comparison with an ASCII word can tell: ASCII letters, and the two
  other code points (dotless i, long s) whose upper case is ASCII. Other bytes stay not ASCII.
\<close>

definition upper_char :: "char \<Rightarrow> char" where
  "upper_char c = (let n = of_char c :: nat in if 97 \<le> n \<and> n \<le> 122 then char_of (n - 32) else c)"

fun ToUpper :: "string \<Rightarrow> string" where
  "ToUpper (c # d # s) =
     (if c = CHR 0xC4 \<and> d = CHR 0xB1 then CHR ''I'' # ToUpper s
      else if c = CHR 0xC5 \<and> d = CHR 0xBF then CHR ''S'' # ToUpper s
      else upper_char c # ToUpper (d # s))"
| "ToUpper [c] = [upper_char c]"
| "ToUpper [] = []"

definition setAuthMode :: "string \<Rightarrow> AsClientPolicy \<Rightarrow> AsClientPolicy" where
  "setAuthMode mode policy =
     (if ToUpper mode = ''INTERNAL'' then policy\<lparr>ascAuthMode := AuthModeInternal\<rparr>
      else if ToUpper mode = ''EXTERNAL'' then policy\<lparr>ascAuthMode := AuthModeExternal\<rparr>
      else if ToUpper mode = ''PKI'' then policy\<lparr>ascAuthMode := AuthModePKI\<rparr>
      else policy)"

definition ValueOrZero :: "string option \<Rightarrow> string" where
  "ValueOrZero p = (case p of Some s \<Rightarrow> s | None \<Rightarrow> [])"

definition smax :: "goint \<Rightarrow> goint \<Rightarrow> goint" where
  "smax a b = (if sint a < sint b then b else a)"

text \<open>Building the policy may cache the password in the cluster, so the cluster is returned too.\<close>

definition ASClientPolicy ::
  "tls_lib \<Rightarrow> AsClientPolicy \<Rightarrow> AerospikeCluster \<Rightarrow> (string, AerospikeCluster \<times> AsClientPolicy) outcome" where
  "ASClientPolicy lib defaultPolicy c =
     (let (c, policy) =
            (case acCredentials c of
               None \<Rightarrow> (c, defaultPolicy)
             | Some cr \<Rightarrow>
                 let (c, password) = GetPassword (tlReadFile lib) c;
                     policy = defaultPolicy\<lparr>ascUser := ValueOrZero (crUser cr), ascPassword := ValueOrZero password\<rparr>
                 in (c, set_opt (crAuthMode cr) setAuthMode policy));
          policy = set_opt (acConnTimeout c) (\<lambda>n p. p\<lparr>ascTimeout := int64_of_int32 n * Millisecond\<rparr>) policy;
          policy = set_opt (acUseServicesAlternate c) (\<lambda>b p. p\<lparr>ascUseServicesAlternate := b\<rparr>) policy
      in and_then (case acTLS c of
                     None \<Rightarrow> Ok policy
                   | Some t \<Rightarrow> and_then (initTLS lib t) (\<lambda>tls. Ok (policy\<lparr>ascTlsConfig := tls\<rparr>))) (\<lambda>policy.
         let policy = set_opt (acMaxParallelScans c) (\<lambda>n p.
               if 0 < sint n then p\<lparr>ascConnectionQueueSize := smax 256 (n * 2)\<rparr> else p) policy
         in Ok (c, policy\<lparr>ascLimitConnectionsToQueueSize := False\<rparr>)))"

section \<open>What can go wrong\<close>

lemma GetPassword_frame [frame]:
  "acTLS (fst (GetPassword rf c)) = acTLS c" "acCredentials (fst (GetPassword rf c)) = acCredentials c"
  "acConnTimeout (fst (GetPassword rf c)) = acConnTimeout c" "acSeedNodes (fst (GetPassword rf c)) = acSeedNodes c"
  "acMaxParallelScans (fst (GetPassword rf c)) = acMaxParallelScans c"
  "acClusterLabel (fst (GetPassword rf c)) = acClusterLabel c"
  by (auto simp: GetPassword_def split: option.splits)

text \<open>The trusted certificates could be read, so \<open>initTLS\<close> gets past its first return.\<close>

definition ca_readable :: "tls_lib \<Rightarrow> TLS \<Rightarrow> bool" where
  "ca_readable lib t \<longleftrightarrow> (\<forall>path. tlsCAFile t = Some path \<longrightarrow> path \<noteq> [] \<longrightarrow> tlReadFile lib path \<noteq> None)"

lemma loadClientPool_Panic:
  "loadClientPool lib t = Panic p \<longleftrightarrow> p = NilDereference \<and>
     (tlsCertfile t = None \<or>
      (\<exists>certfile. tlsCertfile t = Some certfile \<and> tlReadFile lib certfile \<noteq> None \<and> tlsKeyfile t = None))"
  by (auto simp: loadClientPool_def readFromFile_def Let_def split: option.splits)

text \<open>A file name that is not there is dereferenced.\<close>

definition derefs_nil :: "tls_lib \<Rightarrow> TLS \<Rightarrow> bool" where
  "derefs_nil lib t \<longleftrightarrow>
     ca_readable lib t \<and> (nonempty (tlsCertfile t) \<or> nonempty (tlsKeyfile t)) \<and>
     (tlsCertfile t = None \<or>
      (\<exists>certfile. tlsCertfile t = Some certfile \<and> tlReadFile lib certfile \<noteq> None \<and> tlsKeyfile t = None))"

lemma initTLS_Panic: "initTLS lib t = Panic p \<longleftrightarrow> p = NilDereference \<and> derefs_nil lib t"
  by (cases "tlsCAFile t")
    (auto simp: initTLS_def Let_def ca_readable_def readFromFile_def derefs_nil_def and_then_Panic_iff
      loadClientPool_Panic split: option.split)

lemma initTLS_plain: "\<not> ca_readable lib t \<Longrightarrow> initTLS lib t = Ok None"
  by (auto simp: initTLS_def Let_def ca_readable_def readFromFile_def split: option.split)

lemma loadClientPool_no_Err [simp]: "loadClientPool lib t \<noteq> Err e"
  by (simp add: loadClientPool_def Let_def split: option.split)

lemma initTLS_no_Err [simp]: "initTLS lib t \<noteq> Err e"
  by (cases "tlsCAFile t") (auto simp: initTLS_def Let_def and_then_Err_iff split: option.split)

lemma initTLS_settings:
  "initTLS lib t = Ok (Some cfg) \<Longrightarrow> \<not> tcInsecureSkipVerify cfg \<and> tcMinVersion cfg = VersionTLS12"
  by (cases "tlsCAFile t") (auto simp: initTLS_def Let_def and_then_Ok_iff split: option.splits if_splits)

lemma ASClientPolicy_no_Err [simp]: "ASClientPolicy lib d c \<noteq> Err e"
  by (cases "acTLS c"; cases "acCredentials c")
    (simp_all add: ASClientPolicy_def Let_def outcome_simps frame split_beta)

lemma ASClientPolicy_Panic:
  "ASClientPolicy lib d c = Panic p \<longleftrightarrow> p = NilDereference \<and> (\<exists>t. acTLS c = Some t \<and> derefs_nil lib t)"
  by (cases "acTLS c"; cases "acCredentials c")
    (auto simp: ASClientPolicy_def Let_def outcome_simps frame split_beta initTLS_Panic)

lemma set_opt_split: "g (set_opt p f c) = (case p of None \<Rightarrow> g c | Some v \<Rightarrow> g (f v c))"
  by (simp add: set_opt_def split: option.split)

lemmas policy_fields =
  set_opt_field [where g = ascTlsConfig] set_opt_field [where g = ascUser] set_opt_field [where g = ascPassword]
  set_opt_field [where g = ascTimeout]

lemma setAuthMode_frame [frame]:
  "ascTlsConfig (setAuthMode m p) = ascTlsConfig p" "ascUser (setAuthMode m p) = ascUser p"
  "ascPassword (setAuthMode m p) = ascPassword p" "ascTimeout (setAuthMode m p) = ascTimeout p"
  by (simp_all add: setAuthMode_def)

lemma ASClientPolicy_tls:
  assumes "ASClientPolicy lib d c = Ok (c', policy)" and "acTLS c = Some t"
  shows "initTLS lib t = Ok (ascTlsConfig policy)"
  using assms
  by (cases "acCredentials c")
    (auto simp: ASClientPolicy_def Let_def outcome_simps frame split_beta policy_fields)

lemma ASClientPolicy_settings:
  assumes "ASClientPolicy lib d c = Ok (c', policy)"
  shows "c' = (case acCredentials c of None \<Rightarrow> c | Some _ \<Rightarrow> fst (GetPassword (tlReadFile lib) c))"
    and "acCredentials c = Some cr \<Longrightarrow>
      ascUser policy = ValueOrZero (crUser cr) \<and> ascPassword policy = ValueOrZero (snd (GetPassword (tlReadFile lib) c))"
    and "acConnTimeout c = Some n \<Longrightarrow> sint (ascTimeout policy) = sint n * 1000000"
    and "\<not> ascLimitConnectionsToQueueSize policy"
  using assms
  by (cases "acCredentials c"; cases "acTLS c";
      auto simp: ASClientPolicy_def Let_def outcome_simps frame split_beta policy_fields timeout_exact)+

lemma ASClientPolicy_plain:
  assumes "ASClientPolicy lib d c = Ok (c', policy)" and "acTLS c = None"
  shows "ascTlsConfig policy = ascTlsConfig d"
  using assms
  by (cases "acCredentials c")
    (auto simp: ASClientPolicy_def Let_def outcome_simps frame split_beta policy_fields)

section \<open>Properties\<close>

definition demo_tls :: TLS where
  "demo_tls = \<lparr>tlsCAFile = None, tlsCAPath = None, tlsName = None, tlsProtocols = None, tlsCipherSuite = None,
     tlsKeyfile = Some ''key.pem'', tlsKeyfilePassword = None, tlsCertfile = None\<rparr>"

definition demo_cluster :: AerospikeCluster where
  "demo_cluster = \<lparr>acPwd = None, acClusterLabel = None,
     acSeedNodes = [\<lparr>snHostName = ''localhost'', snPort = 3000, snTLSName = []\<rparr>],
     acConnTimeout = Some 500, acUseServicesAlternate = None,
     acCredentials = Some \<lparr>crUser = Some ''tester'', crPassword = Some ''psw'', crPasswordPath = None, crAuthMode = Some ''pki''\<rparr>,
     acTLS = Some demo_tls, acMaxParallelScans = Some 400\<rparr>"

definition demo_tls_lib :: tls_lib where
  "demo_tls_lib = \<lparr>tlReadFile = (\<lambda>path. None), tlSystemPool = None, tlDecode = (\<lambda>data. None),
     tlIsEncrypted = (\<lambda>b. False), tlDecrypt = (\<lambda>b pw. None), tlEncode = pemBytes, tlKeyPair = (\<lambda>c k. True)\<rparr>"

definition demo_client_policy :: AsClientPolicy where
  "demo_client_policy = \<lparr>ascUser = [], ascPassword = [], ascAuthMode = AuthModeInternal, ascTimeout = 30 * 1000000000,
     ascUseServicesAlternate = False, ascTlsConfig = None, ascConnectionQueueSize = 100,
     ascLimitConnectionsToQueueSize = True\<rparr>"

text \<open>
  C28: A connection uses TLS only as the cluster's settings allow: a cluster with TLS settings whose
  trusted certificates cannot be read is connected to without TLS, and a configuration that is
  used verifies the server and asks for TLS 1.2. Building the policy panics exactly when one file
  of the client's key pair is named and the other is missing from the settings, where the trusted
  certificates are readable and so is the certificate, if it is the one that is named; it never returns an error.
\<close>

theorem tls_of_connection:
  "(\<forall>e. ASClientPolicy lib d c \<noteq> Err e) \<and>
   (\<forall>p. ASClientPolicy lib d c = Panic p \<longleftrightarrow> p = NilDereference \<and> (\<exists>t. acTLS c = Some t \<and> derefs_nil lib t)) \<and>
   (\<forall>c' policy t. ASClientPolicy lib d c = Ok (c', policy) \<longrightarrow> acTLS c = Some t \<longrightarrow>
      (\<not> ca_readable lib t \<longrightarrow> ascTlsConfig policy = None) \<and>
      (\<forall>cfg. ascTlsConfig policy = Some cfg \<longrightarrow> \<not> tcInsecureSkipVerify cfg \<and> tcMinVersion cfg = VersionTLS12))"
proof -
  have "(\<not> ca_readable lib t \<longrightarrow> ascTlsConfig policy = None) \<and>
      (\<forall>cfg. ascTlsConfig policy = Some cfg \<longrightarrow> \<not> tcInsecureSkipVerify cfg \<and> tcMinVersion cfg = VersionTLS12)"
    if "ASClientPolicy lib d c = Ok (c', policy)" and "acTLS c = Some t" for c' policy t
    using ASClientPolicy_tls [OF that] initTLS_plain [of lib t] initTLS_settings [of lib t] by auto
  then show ?thesis by (simp add: ASClientPolicy_Panic)
qed

theorem tls_of_connection_witness:
  "ASClientPolicy demo_tls_lib demo_client_policy demo_cluster = Panic NilDereference \<and>
   (case ASClientPolicy demo_tls_lib demo_client_policy
           (demo_cluster\<lparr>acTLS := Some (demo_tls\<lparr>tlsCAFile := Some ''ca.pem''\<rparr>)\<rparr>) of
      Ok (c, policy) \<Rightarrow> ascTlsConfig policy = None | _ \<Rightarrow> False)"
proof
  have "acTLS demo_cluster = Some demo_tls" "derefs_nil demo_tls_lib demo_tls"
    by (simp_all add: demo_cluster_def demo_tls_def derefs_nil_def ca_readable_def nonempty_def)
  then show "ASClientPolicy demo_tls_lib demo_client_policy demo_cluster = Panic NilDereference"
    using tls_of_connection [of demo_tls_lib demo_client_policy demo_cluster] by auto
  let ?t = "demo_tls\<lparr>tlsCAFile := Some ''ca.pem''\<rparr>"
  have "\<not> derefs_nil demo_tls_lib ?t" "\<not> ca_readable demo_tls_lib ?t"
    by (simp_all add: derefs_nil_def ca_readable_def demo_tls_lib_def)
  then show "case ASClientPolicy demo_tls_lib demo_client_policy (demo_cluster\<lparr>acTLS := Some ?t\<rparr>) of
      Ok (c, policy) \<Rightarrow> ascTlsConfig policy = None | _ \<Rightarrow> False"
    using tls_of_connection [of demo_tls_lib demo_client_policy "demo_cluster\<lparr>acTLS := Some ?t\<rparr>"]
    by (auto split: outcome.split)
qed

end
