(* ===== verification/Clients.thy ===== *)
theory Clients
  imports ClientPolicy
begin

text \<open>
  \<open>pkg/service/client_manager.go\<close>: the clients of the clusters, shared and counted. A
  \<open>*backup.Client\<close> is an address; what connecting answers is a field of \<open>client_lib\<close>. The manager
  holds a mutex during each call, so the calls are atomic. The locale \<open>client_pool\<close> is what the
  users of the interface \<open>ClientManager\<close> rely on.
\<close>

section \<open>The manager\<close>

record clientInfo =
  ciClient :: nat
  ciCount :: goint

record BackupClient =
  bkConn :: nat
  bkScanLimiter :: "int64 option"
  bkID :: "string option"

text \<open>The number of the call is an argument of the answers, so that each call may answer differently.\<close>

record client_lib =
  clTls :: tls_lib
  clDefault :: AsClientPolicy
  clConnect :: "nat \<Rightarrow> AsClientPolicy \<Rightarrow> Host list \<Rightarrow> (string, nat) outcome"
  clNewClient :: "nat \<Rightarrow> nat \<Rightarrow> string option"

text \<open>
  The state of the manager (\<open>cmClients\<close>) and what it acts on: the objects of the configuration,
  the allocated clients and, in order, those whose connection was closed.
\<close>

record ClientManagerImpl =
  cmClients :: "(ptr, clientInfo) gomap"
  cmStore :: store
  cmCalls :: nat
  cmNext :: nat
  cmHeap :: "nat \<Rightarrow> BackupClient option"
  cmClosed :: "nat list"

definition NewClientManager :: "store \<Rightarrow> ClientManagerImpl" where
  "NewClientManager st =
     \<lparr>cmClients = [], cmStore = st, cmCalls = 0, cmNext = 0, cmHeap = (\<lambda>_. None), cmClosed = []\<rparr>"

definition put_cluster :: "ptr \<Rightarrow> AerospikeCluster \<Rightarrow> store \<Rightarrow> store" where
  "put_cluster p c st = (case p of None \<Rightarrow> st | Some a \<Rightarrow> st\<lparr>stClusters := (stClusters st)(a \<mapsto> c)\<rparr>)"

text \<open>The addresses of the clients are those of a counter: an allocated client is a new one.\<close>

definition createClient ::
  "client_lib \<Rightarrow> ClientManagerImpl \<Rightarrow> ptr \<Rightarrow> ClientManagerImpl \<times> (string, nat) outcome" where
  "createClient lib cm cluster =
     (case deref stClusters (cmStore cm) cluster of
        None \<Rightarrow> (cm, Panic NilDereference)
      | Some c \<Rightarrow>
     (case ASClientPolicy (clTls lib) (clDefault lib) c of
        Panic p \<Rightarrow> (cm, Panic p)
      | Err e \<Rightarrow> (cm, Err e)
      | Ok (c, policy) \<Rightarrow>
          let n = cmCalls cm;
              cm = cm\<lparr>cmStore := put_cluster cluster c (cmStore cm), cmCalls := n + 1\<rparr>
          in case clConnect lib n policy (ASClientHosts c) of
               Err e \<Rightarrow> (cm, Err (''failed to connect to aerospike cluster, '' @ e))
             | Panic p \<Rightarrow> (cm, Panic p)
             | Ok aeroClient \<Rightarrow>
                 (case clNewClient lib n aeroClient of
                    Some e \<Rightarrow> (cm, Err e)
                  | None \<Rightarrow>
                      (cm\<lparr>cmNext := cmNext cm + 1,
                          cmHeap := (cmHeap cm)(cmNext cm \<mapsto>
                            \<lparr>bkConn = aeroClient, bkScanLimiter = acMaxParallelScans c, bkID = acClusterLabel c\<rparr>)\<rparr>,
                       Ok (cmNext cm)))))"

definition GetClient ::
  "client_lib \<Rightarrow> ClientManagerImpl \<Rightarrow> ptr \<Rightarrow> ClientManagerImpl \<times> (string, nat) outcome" where
  "GetClient lib cm cluster =
     (case lookup (cmClients cm) cluster of
        Some info \<Rightarrow>
          (cm\<lparr>cmClients := insert_key cluster (info\<lparr>ciCount := ciCount info + 1\<rparr>) (cmClients cm)\<rparr>,
           Ok (ciClient info))
      | None \<Rightarrow>
          (case createClient lib cm cluster of
             (cm, Err e) \<Rightarrow> (cm, Err (''cannot create backup client: '' @ e))
           | (cm, Panic p) \<Rightarrow> (cm, Panic p)
           | (cm, Ok client) \<Rightarrow>
               (cm\<lparr>cmClients := insert_key cluster \<lparr>ciClient = client, ciCount = 1\<rparr> (cmClients cm)\<rparr>, Ok client)))"

text \<open>
  The loop of \<open>Close\<close>: \<open>None\<close> when no entry has the client, otherwise the map afterwards and
  whether the connection is to be closed.
\<close>

fun closeLoop :: "nat \<Rightarrow> (ptr, clientInfo) gomap \<Rightarrow> ((ptr, clientInfo) gomap \<times> bool) option" where
  "closeLoop client [] = None"
| "closeLoop client ((cluster, info) # rest) =
     (if ciClient info = client then
        let count = ciCount info - 1 in
        if count = 0 then Some (rest, True) else Some ((cluster, info\<lparr>ciCount := count\<rparr>) # rest, False)
      else case closeLoop client rest of
             None \<Rightarrow> None
           | Some (m, close) \<Rightarrow> Some ((cluster, info) # m, close))"

definition Close :: "ClientManagerImpl \<Rightarrow> nat \<Rightarrow> ClientManagerImpl" where
  "Close cm client =
     (case closeLoop client (cmClients cm) of
        None \<Rightarrow> cm\<lparr>cmClosed := cmClosed cm @ [client]\<rparr>
      | Some (m, close) \<Rightarrow>
          cm\<lparr>cmClients := m, cmClosed := (if close then cmClosed cm @ [client] else cmClosed cm)\<rparr>)"

section \<open>The interface\<close>

text \<open>
  \<open>inv w ls\<close>: the pool is consistent when \<open>ls\<close> are the clients handed out and not yet given back,
  one entry for each call. The count of a client is an \<open>int\<close>, which bounds the calls.
\<close>

locale client_pool =
  fixes get :: "'w \<Rightarrow> ptr \<Rightarrow> 'w \<times> ('e, nat) outcome"
    and close :: "'w \<Rightarrow> nat \<Rightarrow> 'w"
    and inv :: "'w \<Rightarrow> nat list \<Rightarrow> bool"
    and closed :: "'w \<Rightarrow> nat list"
  assumes get_ok: "inv w ls \<Longrightarrow> length ls + 1 < 2 ^ 64 \<Longrightarrow> get w p = (w', Ok c) \<Longrightarrow> inv w' (c # ls)"
    and get_other: "inv w ls \<Longrightarrow> get w p = (w', r) \<Longrightarrow> \<not> is_ok r \<Longrightarrow> inv w' ls"
    and close_ok: "inv w ls \<Longrightarrow> c \<in> set ls \<Longrightarrow> inv (close w c) (remove1 c ls)"
    and open_while_used: "inv w ls \<Longrightarrow> c \<in> set ls \<Longrightarrow> c \<notin> set (closed w)"
begin

text \<open>A call that takes a client and gives it back, whatever it does to the pool in between.\<close>

lemma bracket:
  assumes "inv w ls" and "length ls + 1 < 2 ^ 64" and "get w p = (w', Ok c)"
    and "inv w' (c # ls) \<Longrightarrow> inv w'' (c # ls)"
  shows "inv (close w'' c) ls"
  using close_ok [OF assms(4) [OF get_ok [OF assms(1-3)]], of c] by simp

end

section \<open>The manager keeps it\<close>

definition clients_of :: "ClientManagerImpl \<Rightarrow> nat list" where
  "clients_of cm = map (ciClient \<circ> snd) (cmClients cm)"

definition entry_ok :: "nat \<Rightarrow> nat list \<Rightarrow> nat list \<Rightarrow> clientInfo \<Rightarrow> bool" where
  "entry_ok bound gone ls info \<longleftrightarrow>
     ciCount info = of_nat (count_list ls (ciClient info)) \<and> ciClient info \<in> set ls \<and>
     ciClient info < bound \<and> ciClient info \<notin> set gone"

definition pool_inv :: "ClientManagerImpl \<Rightarrow> nat list \<Rightarrow> bool" where
  "pool_inv cm ls \<longleftrightarrow>
     wf_map (cmClients cm) \<and> distinct (clients_of cm) \<and> set ls \<subseteq> set (clients_of cm) \<and> length ls < 2 ^ 64 \<and>
     (\<forall>p info. (p, info) \<in> set (cmClients cm) \<longrightarrow> entry_ok (cmNext cm) (cmClosed cm) ls info) \<and>
     distinct (cmClosed cm) \<and> (\<forall>c \<in> set (cmClosed cm). c < cmNext cm) \<and>
     (\<forall>c < cmNext cm. c \<in> set ls \<or> c \<in> set (cmClosed cm))"

lemma pool_inv_new: "pool_inv (NewClientManager st) []"
  by (simp add: pool_inv_def NewClientManager_def clients_of_def)

lemma createClient_frame:
  assumes "createClient lib cm p = (cm', r)"
  shows "cmClients cm' = cmClients cm" and "cmClosed cm' = cmClosed cm"
    and "is_ok r \<Longrightarrow> r = Ok (cmNext cm) \<and> cmNext cm' = cmNext cm + 1"
    and "\<not> is_ok r \<Longrightarrow> cmNext cm' = cmNext cm"
  using assms by (auto simp: createClient_def Let_def is_ok_iff split: option.splits outcome.splits prod.splits)

lemma GetClient_new:
  assumes "lookup (cmClients cm) p = None" and "GetClient lib cm p = (cm', r)"
  shows "is_ok r \<Longrightarrow> r = Ok (cmNext cm) \<and>
      cmClients cm' = cmClients cm @ [(p, \<lparr>ciClient = cmNext cm, ciCount = 1\<rparr>)] \<and> cmNext cm' = cmNext cm + 1"
    and "\<not> is_ok r \<Longrightarrow> cmClients cm' = cmClients cm \<and> cmNext cm' = cmNext cm"
    and "cmClosed cm' = cmClosed cm"
proof -
  obtain cm1 r1 where c: "createClient lib cm p = (cm1, r1)" by (cases "createClient lib cm p") auto
  note f = createClient_frame [OF c]
  show "is_ok r \<Longrightarrow> r = Ok (cmNext cm) \<and>
      cmClients cm' = cmClients cm @ [(p, \<lparr>ciClient = cmNext cm, ciCount = 1\<rparr>)] \<and> cmNext cm' = cmNext cm + 1"
    using assms c f by (cases r1) (auto simp: GetClient_def keys_insert_new)
  show "\<not> is_ok r \<Longrightarrow> cmClients cm' = cmClients cm \<and> cmNext cm' = cmNext cm"
    using assms c f by (cases r1) (auto simp: GetClient_def)
  show "cmClosed cm' = cmClosed cm"
    using assms c f by (cases r1) (auto simp: GetClient_def)
qed

lemma count_list_0: "c \<notin> set ls \<Longrightarrow> count_list ls c = 0"
  by (induction ls) auto

lemma insert_same:
  "lookup m p = Some i \<Longrightarrow> ciClient j = ciClient i \<Longrightarrow>
     map (ciClient \<circ> snd) (insert_key p j m) = map (ciClient \<circ> snd) m"
  by (induction m) (auto split: if_splits)

lemma set_insert_key: "wf_map m \<Longrightarrow> set (insert_key p v m) = insert (p, v) {x \<in> set m. fst x \<noteq> p}"
proof (induction m)
  case (Cons x m)
  have "fst x = p \<Longrightarrow> {x \<in> set m. fst x \<noteq> p} = set m" using Cons.prems by (cases x) force
  then show ?case using Cons by (cases x) auto
qed simp

lemma distinct_entry:
  "distinct (map f m) \<Longrightarrow> x \<in> set m \<Longrightarrow> y \<in> set m \<Longrightarrow> f x = f y \<Longrightarrow> x = y"
  by (simp add: distinct_map inj_on_def)

lemma count_list_pos: "0 < count_list ls c \<longleftrightarrow> c \<in> set ls"
  by (induction ls) auto

lemma count_remove1: "count_list (remove1 c ls) x = (if x = c then count_list ls c - 1 else count_list ls x)"
  by (induction ls) (auto simp: count_list_0)

lemma of_nat_eq_1:
  assumes "n < 2 ^ 64"
  shows "(of_nat n :: 64 word) = 1 \<longleftrightarrow> n = 1"
  using assms word_of_nat_eq_iff [of n 1, where ?'a = 64] by (simp add: take_bit_nat_eq_self)

lemma pool_inv_failed:
  assumes "pool_inv cm ls" and "GetClient lib cm p = (cm', r)" and "\<not> is_ok r"
  shows "pool_inv cm' ls"
proof (cases "lookup (cmClients cm) p")
  case None
  note n = GetClient_new [OF None assms(2)]
  show ?thesis using assms(1) n(2) [OF assms(3)] n(3) by (simp add: pool_inv_def clients_of_def)
next
  case (Some info)
  then show ?thesis using assms(2,3) by (auto simp: GetClient_def)
qed

lemma pool_inv_taken:
  assumes i: "pool_inv cm ls" and g: "GetClient lib cm p = (cm', Ok c)" and len: "length ls + 1 < 2 ^ 64"
  shows "pool_inv cm' (c # ls)"
proof (cases "lookup (cmClients cm) p")
  case None
  note n = GetClient_new [OF None g, simplified]
  have c: "c = cmNext cm" using n(1) by simp
  have lt: "x < cmNext cm" if "x \<in> set (clients_of cm)" for x
    using i that by (force simp: pool_inv_def clients_of_def entry_ok_def)
  then have new: "c \<notin> set (clients_of cm)" "c \<notin> set ls" "c \<notin> set (cmClosed cm)"
    using i c by (auto simp: pool_inv_def)
  have cl: "clients_of cm' = clients_of cm @ [c]" using n(1) by (simp add: clients_of_def c)
  have wf: "wf_map (cmClients cm')"
    using i n(1) None by (auto simp: pool_inv_def wf_map_def lookup_None_iff)
  have old: "entry_ok (cmNext cm + 1) (cmClosed cm) (c # ls) j" if "(q, j) \<in> set (cmClients cm)" for q j
  proof -
    have "entry_ok (cmNext cm) (cmClosed cm) ls j" using i that by (auto simp: pool_inv_def)
    moreover have "ciClient j \<noteq> c" using new(1) that by (force simp: clients_of_def)
    ultimately show ?thesis by (simp add: entry_ok_def)
  qed
  have here_ok: "entry_ok (cmNext cm + 1) (cmClosed cm) (c # ls) \<lparr>ciClient = cmNext cm, ciCount = 1\<rparr>"
    using new by (simp add: entry_ok_def count_list_0 c)
  show ?thesis
    using i wf cl new len old here_ok n by (auto simp: pool_inv_def less_Suc_eq c)
next
  case (Some info)
  have c: "c = ciClient info"
    and cm': "cm' = cm\<lparr>cmClients := insert_key p (info\<lparr>ciCount := ciCount info + 1\<rparr>) (cmClients cm)\<rparr>"
    using g Some by (auto simp: GetClient_def)
  have wf: "wf_map (cmClients cm)" and d: "distinct (clients_of cm)" using i by (simp_all add: pool_inv_def)
  have here: "(p, info) \<in> set (cmClients cm)" using Some by (rule lookup_in_set)
  have cl: "clients_of cm' = clients_of cm" using Some by (simp add: clients_of_def cm' insert_same)
  have st: "set (cmClients cm') =
      insert (p, info\<lparr>ciCount := ciCount info + 1\<rparr>) {x \<in> set (cmClients cm). fst x \<noteq> p}"
    using wf by (simp add: cm' set_insert_key)
  have "entry_ok (cmNext cm) (cmClosed cm) ls info" using i here by (auto simp: pool_inv_def)
  then have here_ok: "entry_ok (cmNext cm) (cmClosed cm) (c # ls) (info\<lparr>ciCount := ciCount info + 1\<rparr>)"
    by (simp add: entry_ok_def c)
  have old: "entry_ok (cmNext cm) (cmClosed cm) (c # ls) j" if "(q, j) \<in> set (cmClients cm)" "q \<noteq> p" for q j
  proof -
    have "entry_ok (cmNext cm) (cmClosed cm) ls j" using i that(1) by (auto simp: pool_inv_def)
    moreover have "ciClient j \<noteq> c"
      using distinct_entry [OF d [unfolded clients_of_def] here that(1)] that(2) by (auto simp: c)
    ultimately show ?thesis by (simp add: entry_ok_def)
  qed
  have "entry_ok (cmNext cm') (cmClosed cm') (c # ls) j" if "(q, j) \<in> set (cmClients cm')" for q j
    using that here_ok old unfolding st by (auto simp: cm')
  moreover have "c \<in> set (clients_of cm)" using here by (force simp: clients_of_def c)
  moreover have "wf_map (cmClients cm')" using wf by (simp add: cm')
  ultimately show ?thesis using i len cl by (simp add: pool_inv_def cm')
qed

lemma closeLoop_at:
  assumes "c \<notin> (ciClient \<circ> snd) ` set xs" and "ciClient info = c"
  shows "closeLoop c (xs @ (p, info) # ys) =
    (if ciCount info = 1 then Some (xs @ ys, True)
     else Some (xs @ (p, info\<lparr>ciCount := ciCount info - 1\<rparr>) # ys, False))"
  using assms by (induction xs) (auto simp: Let_def split: prod.splits)

lemma pool_inv_released:
  assumes i: "pool_inv cm ls" and c: "c \<in> set ls"
  shows "pool_inv (Close cm c) (remove1 c ls)"
proof -
  have "c \<in> set (clients_of cm)" using i c by (auto simp: pool_inv_def)
  then obtain p info where "(p, info) \<in> set (cmClients cm)" and ci: "ciClient info = c"
    by (auto simp: clients_of_def)
  then obtain xs ys where m: "cmClients cm = xs @ (p, info) # ys" by (meson split_list)
  have d: "distinct (clients_of cm)" using i by (simp add: pool_inv_def)
  then have nx: "c \<notin> (ciClient \<circ> snd) ` set xs" and ny: "c \<notin> (ciClient \<circ> snd) ` set ys"
    by (auto simp: clients_of_def m ci comp_def)
  have cnt: "ciCount info = of_nat (count_list ls c)" using i by (auto simp: pool_inv_def m ci entry_ok_def)
  have pos: "0 < count_list ls c" using c by (simp add: count_list_pos)
  have small: "count_list ls c < 2 ^ 64"
    using i count_le_length [of ls c] by (simp add: pool_inv_def)
  have one: "ciCount info = 1 \<longleftrightarrow> count_list ls c = 1"
    using small by (simp add: cnt of_nat_eq_1)
  have rem: "count_list (remove1 c ls) x = (if x = c then count_list ls c - 1 else count_list ls x)" for x
    by (rule count_remove1)
  have e: "entry_ok (cmNext cm) (cmClosed cm) ls j" if "(q, j) \<in> set (cmClients cm)" for q j
    using i that by (auto simp: pool_inv_def)
  have inls: "x \<in> set (remove1 c ls) \<longleftrightarrow> x \<in> set ls \<and> (x = c \<longrightarrow> 1 < count_list ls c)" for x
    unfolding count_list_pos [symmetric] rem using pos by auto
  have others: "entry_ok (cmNext cm) cl (remove1 c ls) j"
    if "(q, j) \<in> set xs \<union> set ys" and "set cl \<subseteq> insert c (set (cmClosed cm))" for q j cl
  proof -
    have "ciClient j \<noteq> c" using that nx ny by force
    then show ?thesis using e [of q j] that by (auto simp: m entry_ok_def rem inls)
  qed
  have wf: "wf_map (cmClients cm)" using i by (simp add: pool_inv_def)
  have cover: "set ls \<subseteq> set (clients_of cm)" using i by (simp add: pool_inv_def)
  have len: "length (remove1 c ls) < 2 ^ 64"
    by (rule le_less_trans [of _ "length ls"]) (use i in \<open>simp_all add: pool_inv_def length_remove1\<close>)
  show ?thesis
  proof (cases "count_list ls c = 1")
    case True
    then have eq: "Close cm c = cm\<lparr>cmClients := xs @ ys, cmClosed := cmClosed cm @ [c]\<rparr>"
      by (simp add: Close_def m closeLoop_at [OF nx ci] one)
    have "c < cmNext cm" "c \<notin> set (cmClosed cm)" using e [of p info] by (simp_all add: m entry_ok_def ci)
    moreover have "set (remove1 c ls) \<subseteq> set (clients_of (Close cm c))"
      using cover True by (auto simp: inls eq clients_of_def m ci comp_def)
    moreover have "entry_ok (cmNext cm) (cmClosed cm @ [c]) (remove1 c ls) j" if "(q, j) \<in> set (xs @ ys)" for q j
      using that others [of q j "cmClosed cm @ [c]"] by auto
    ultimately show ?thesis
      using i wf d True len by (auto simp: eq pool_inv_def m clients_of_def wf_map_def inls)
  next
    case False
    let ?info = "info\<lparr>ciCount := ciCount info - 1\<rparr>"
    have eq: "Close cm c = cm\<lparr>cmClients := xs @ (p, ?info) # ys\<rparr>"
      using False by (simp add: Close_def m closeLoop_at [OF nx ci] one)
    have here_ok: "entry_ok (cmNext cm) (cmClosed cm) (remove1 c ls) ?info"
      using e [of p info] False pos by (auto simp: m entry_ok_def ci rem inls cnt of_nat_diff)
    have cl: "clients_of (Close cm c) = clients_of cm" by (simp add: eq clients_of_def m)
    have "entry_ok (cmNext cm) (cmClosed cm) (remove1 c ls) j" if "(q, j) \<in> set (xs @ (p, ?info) # ys)" for q j
      using that here_ok others [of q j "cmClosed cm"] by auto
    moreover have "set (remove1 c ls) \<subseteq> set (clients_of (Close cm c))" using cover by (auto simp: inls cl)
    moreover have "wf_map (cmClients (Close cm c))" using wf by (simp add: eq m wf_map_def)
    moreover have "\<forall>x < cmNext cm. x \<in> set (remove1 c ls) \<or> x \<in> set (cmClosed cm)"
      using i False pos by (auto simp: pool_inv_def inls)
    ultimately show ?thesis using i d len cl by (simp add: pool_inv_def eq)
  qed
qed

interpretation manager: client_pool "GetClient lib" Close pool_inv cmClosed for lib
proof
  show "pool_inv w ls \<Longrightarrow> length ls + 1 < 2 ^ 64 \<Longrightarrow> GetClient lib w p = (w', Ok c) \<Longrightarrow> pool_inv w' (c # ls)"
    for w ls p w' c
    by (rule pool_inv_taken)
  show "pool_inv w ls \<Longrightarrow> c \<in> set ls \<Longrightarrow> c \<notin> set (cmClosed w)" for w ls c
    by (force simp: pool_inv_def clients_of_def entry_ok_def)
qed (auto intro: pool_inv_failed pool_inv_released)

section \<open>Histories of calls\<close>

text \<open>
  A history of the callers: \<open>Acquire\<close> is a call of \<open>GetClient\<close>, \<open>Release\<close> one of \<open>Close\<close>. The list is that
  of the clients handed out and not given back yet.
\<close>

datatype client_op = Acquire ptr | Release nat

fun client_step :: "client_lib \<Rightarrow> client_op \<Rightarrow> ClientManagerImpl \<times> nat list \<Rightarrow> ClientManagerImpl \<times> nat list" where
  "client_step lib (Acquire p) (cm, ls) =
     (case GetClient lib cm p of (cm', Ok c) \<Rightarrow> (cm', c # ls) | (cm', _) \<Rightarrow> (cm', ls))"
| "client_step lib (Release c) (cm, ls) = (Close cm c, remove1 c ls)"

abbreviation client_history :: "client_lib \<Rightarrow> store \<Rightarrow> client_op list \<Rightarrow> ClientManagerImpl \<times> nat list" where
  "client_history lib st ops \<equiv> fold (client_step lib) ops (NewClientManager st, [])"

text \<open>
  The callers give back only what they were handed out, as those of the service do by \<open>defer\<close>: a
  second \<open>Close\<close> of a client nobody holds would close it again.
\<close>

fun only_held :: "client_op \<Rightarrow> nat list \<Rightarrow> bool" where
  "only_held (Release c) ls = (c \<in> set ls)"
| "only_held (Acquire p) ls = True"

fun given_back_once :: "client_lib \<Rightarrow> client_op list \<Rightarrow> ClientManagerImpl \<times> nat list \<Rightarrow> bool" where
  "given_back_once lib [] s = True"
| "given_back_once lib (x # ops) s = (only_held x (snd s) \<and> given_back_once lib ops (client_step lib x s))"

lemma client_step_inv:
  assumes "pool_inv (fst s) (snd s)" and "length (snd s) + 1 < 2 ^ 64" and "only_held x (snd s)"
  shows "pool_inv (fst (client_step lib x s)) (snd (client_step lib x s))"
proof (cases x)
  case (Acquire p)
  obtain cm ls where s: "s = (cm, ls)" by (cases s)
  obtain cm' r where g: "GetClient lib cm p = (cm', r)" by (cases "GetClient lib cm p")
  show ?thesis
  proof (cases r)
    case (Ok c)
    then show ?thesis using manager.get_ok [OF _ _ g [unfolded Ok]] assms by (simp add: Acquire s g)
  qed (use manager.get_other [OF _ g] assms in \<open>simp_all add: Acquire s g\<close>)
next
  case (Release c)
  then show ?thesis using manager.close_ok assms by (cases s) auto
qed

lemma client_step_length: "length (snd (client_step lib x s)) \<le> length (snd s) + 1"
  by (cases x; cases s) (auto simp: length_remove1 split: prod.splits outcome.splits)

lemma client_history_inv:
  assumes "pool_inv (fst s) (snd s)" and "length (snd s) + length ops < 2 ^ 64" and "given_back_once lib ops s"
  shows "pool_inv (fst (fold (client_step lib) ops s)) (snd (fold (client_step lib) ops s))"
  using assms
proof (induction ops arbitrary: s)
  case (Cons x ops)
  show ?case unfolding fold_simps
    by (rule Cons.IH) (use Cons.prems client_step_inv [of s x lib] client_step_length [of lib x s] in \<open>simp_all\<close>)
qed simp

lemma client_history_pool:
  "length ops < 2 ^ 64 \<Longrightarrow> given_back_once lib ops (NewClientManager st, []) \<Longrightarrow>
     pool_inv (fst (client_history lib st ops)) (snd (client_history lib st ops))"
  using client_history_inv [of "(NewClientManager st, [])" ops lib] by (simp add: pool_inv_new)

text \<open>
  C15: However many callers share the clients of the manager, as long as each gives back only what it
  was handed out: a client that is in use is never closed, a client that nobody uses any more has
  been closed, exactly once, and each cluster has at most one open client. Calls that fail do not
  change this.
\<close>

theorem clients_closed_when_unused:
  assumes "length ops < 2 ^ 64" and "client_history lib st ops = (cm, ls)"
    and "given_back_once lib ops (NewClientManager st, [])"
  shows "(\<forall>c < cmNext cm. c \<in> set ls \<longleftrightarrow> c \<notin> set (cmClosed cm)) \<and> distinct (cmClosed cm) \<and>
    (\<forall>c \<in> set ls. \<exists>!p. \<exists>info. (p, info) \<in> set (cmClients cm) \<and> ciClient info = c \<and>
       ciCount info = of_nat (count_list ls c)) \<and>
    distinct (map fst (cmClients cm))"
proof -
  have i: "pool_inv cm ls" using client_history_pool [OF assms(1,3)] by (simp add: assms(2))
  have d: "distinct (map (ciClient \<circ> snd) (cmClients cm))" using i by (simp add: pool_inv_def clients_of_def)
  have "\<exists>!p. \<exists>info. (p, info) \<in> set (cmClients cm) \<and> ciClient info = c \<and> ciCount info = of_nat (count_list ls c)"
    if "c \<in> set ls" for c
  proof -
    have "c \<in> set (clients_of cm)" using i that by (auto simp: pool_inv_def)
    then obtain p info where p: "(p, info) \<in> set (cmClients cm)" "ciClient info = c"
      by (auto simp: clients_of_def)
    then have "ciCount info = of_nat (count_list ls c)" using i by (auto simp: pool_inv_def entry_ok_def)
    moreover have "q = p" if "(q, j) \<in> set (cmClients cm)" "ciClient j = c" for q j
      using distinct_entry [OF d p(1) that(1)] p(2) that(2) by simp
    ultimately show ?thesis using p by blast
  qed
  moreover have "c \<notin> set (cmClosed cm)" if "c \<in> set ls" for c
    using manager.open_while_used [OF i that] .
  ultimately show ?thesis using i by (auto simp: pool_inv_def wf_map_def)
qed

definition demo_client_lib :: client_lib where
  "demo_client_lib = \<lparr>clTls = demo_tls_lib, clDefault = demo_client_policy,
     clConnect = (\<lambda>n policy hosts. if n = 0 then Err ''refused'' else Ok (n + 100)), clNewClient = (\<lambda>n conn. None)\<rparr>"

definition demo_client_store :: store where
  "demo_client_store = emptyStore\<lparr>stClusters := [7 \<mapsto> demo_cluster\<lparr>acTLS := None\<rparr>]\<rparr>"

definition demo_client_ops :: "client_op list" where
  "demo_client_ops = [Acquire (Some 7), Acquire (Some 7), Acquire (Some 7), Release 0, Acquire None]"

lemma demo_history:
  "case client_history demo_client_lib demo_client_store demo_client_ops of
     (cm, ls) \<Rightarrow> ls = [0] \<and> cmNext cm = 1 \<and> cmCalls cm = 2"
  "given_back_once demo_client_lib demo_client_ops (NewClientManager demo_client_store, [])"
  by code_simp+

theorem clients_closed_when_unused_witness:
  "case client_history demo_client_lib demo_client_store demo_client_ops of
     (cm, ls) \<Rightarrow> ls = [0] \<and> (\<exists>!p. \<exists>info. (p, info) \<in> set (cmClients cm) \<and> ciClient info = 0 \<and> ciCount info = 1) \<and>
       0 \<notin> set (cmClosed cm)"
proof -
  obtain cm ls where h: "client_history demo_client_lib demo_client_store demo_client_ops = (cm, ls)"
    by (cases "client_history demo_client_lib demo_client_store demo_client_ops")
  have "ls = [0]" "cmNext cm = 1" using demo_history(1) unfolding h by simp_all
  moreover have "length demo_client_ops < 2 ^ 64" by (simp add: demo_client_ops_def)
  ultimately show ?thesis unfolding h using clients_closed_when_unused [OF _ h demo_history(2)] by simp
qed

end
