(* ===== verification/Estimates.thy ===== *)
theory Estimates
  imports Clients
begin

text \<open>
  \<open>pkg/service/estimates.go\<close>: the progress of a running job, computed in \<open>float64\<close>. A
  \<open>float64\<close> is the rational it denotes; \<open>fl\<close> rounds to the nearest one, ties to even, with 53
  significant bits. The values that occur are far from overflow and underflow.
\<close>

section \<open>float64\<close>

definition pow2 :: "int \<Rightarrow> rat" where
  "pow2 k = (if 0 \<le> k then 2 ^ nat k else 1 / 2 ^ nat (- k))"

text \<open>The number of bits of a number, and the binary exponent of a positive rational.\<close>

function bits :: "int \<Rightarrow> int" where
  "bits n = (if n \<le> 0 then 0 else 1 + bits (n div 2))"
  by auto

termination by (relation "measure nat") auto

declare bits.simps [simp del]

definition exponent :: "rat \<Rightarrow> int" where
  "exponent q =
     (let (n, d) = quotient_of q; k = bits n - bits d in if pow2 k \<le> q then k else k - 1)"

definition round_even :: "rat \<Rightarrow> int" where
  "round_even x =
     (let f = \<lfloor>x\<rfloor>; r = x - of_int f in
      if r < 1 / 2 then f else if 1 / 2 < r then f + 1 else if even f then f else f + 1)"

definition fl_pos :: "rat \<Rightarrow> rat" where
  "fl_pos q = (let ulp = pow2 (exponent q - 52) in of_int (round_even (q / ulp)) * ulp)"

definition fl :: "rat \<Rightarrow> rat" where
  "fl q = (if q = 0 then 0 else if q < 0 then - fl_pos (- q) else fl_pos q)"

lemma pow2_pos [simp]: "0 < pow2 k"
  by (simp add: pow2_def)

lemma pow2_nonzero [simp]: "pow2 k \<noteq> 0"
  by (metis less_numeral_extra(3) pow2_pos)

lemma pow2_numeral: "pow2 (numeral n) = 2 ^ numeral n"
  by (simp add: pow2_def)

lemma pow2_add: "pow2 (a + b) = pow2 a * pow2 b"
proof -
  have "2 powi (a + b) = (2::rat) powi a * 2 powi b" by (rule power_int_add) simp
  moreover have "pow2 k = 2 powi k" for k by (simp add: pow2_def power_int_def field_simps)
  ultimately show ?thesis by simp
qed

lemma pow2_Suc: "pow2 (k + 1) = 2 * pow2 k"
  by (simp add: pow2_add) (simp add: pow2_def)

lemma pow2_mono: "a \<le> b \<Longrightarrow> pow2 a \<le> pow2 b"
proof -
  assume "a \<le> b"
  then have "pow2 b = pow2 a * pow2 (b - a)" using pow2_add [of a "b - a"] by simp
  moreover have "1 \<le> pow2 (b - a)" using \<open>a \<le> b\<close> by (simp add: pow2_def)
  ultimately show "pow2 a \<le> pow2 b" using pow2_pos [of a] by (simp add: mult_le_cancel_left1 less_le_not_le)
qed

lemma bits_nonneg: "0 \<le> bits n"
proof (induction n rule: bits.induct)
  case (1 n)
  then show ?case by (subst bits.simps) auto
qed

lemma bits_bounds: "0 < n \<Longrightarrow> pow2 (bits n - 1) \<le> of_int n \<and> of_int n < pow2 (bits n)"
proof (induction n rule: bits.induct)
  case (1 n)
  have b: "bits n = 1 + bits (n div 2)" using "1.prems" by (subst bits.simps) simp
  show ?case
  proof (cases "n div 2 = 0")
    case True
    then have "n = 1" using "1.prems" by auto
    moreover have "bits 0 = 0" by (simp add: bits.simps)
    ultimately show ?thesis by (simp add: bits.simps [of 1] pow2_def)
  next
    case False
    then have ih: "pow2 (bits (n div 2) - 1) \<le> of_int (n div 2) \<and> of_int (n div 2) < pow2 (bits (n div 2))"
      using "1.IH" "1.prems" by simp
    have p: "pow2 (bits n - 1) = 2 * pow2 (bits (n div 2) - 1)" "pow2 (bits n) = 2 * pow2 (bits (n div 2))"
      using pow2_Suc [of "bits (n div 2) - 1"] pow2_Suc [of "bits (n div 2)"] by (simp_all add: b add.commute)
    have "0 < bits (n div 2)" using False "1.prems" bits.simps [of "n div 2"] bits_nonneg [of "n div 2 div 2"] by auto
    then have whole: "pow2 (bits (n div 2)) = of_int (2 ^ nat (bits (n div 2)))" by (simp add: pow2_def)
    then have "n div 2 < 2 ^ nat (bits (n div 2))" using ih by (simp only: of_int_less_iff)
    then have "n < 2 * 2 ^ nat (bits (n div 2))" by linarith
    then have "(of_int n :: rat) < of_int (2 * 2 ^ nat (bits (n div 2)))" by (simp only: of_int_less_iff)
    moreover have "(2 :: rat) * of_int (n div 2) \<le> of_int n"
      by (metis of_int_le_iff of_int_mult of_int_numeral mult_div_mod_eq pos_mod_sign zero_less_numeral add_increasing2 order_refl)
    ultimately show ?thesis using ih unfolding p whole by simp
  qed
qed

lemma exponent_bounds:
  assumes "0 < q"
  shows "pow2 (exponent q) \<le> q \<and> q < pow2 (exponent q + 1)"
proof -
  obtain n d where nd: "quotient_of q = (n, d)" by (cases "quotient_of q")
  have d: "0 < d" and q: "q = of_int n / of_int d"
    using quotient_of_denom_pos [OF nd] quotient_of_div [OF nd] by simp_all
  have n: "0 < n" using assms d by (simp add: q zero_less_divide_iff)
  note nb = bits_bounds [OF n] and db = bits_bounds [OF d]
  have dp: "(0::rat) < of_int d" using d by simp
  let ?k = "bits n - bits d"
  have "q < pow2 (?k + 1)"
  proof -
    have "pow2 (bits n) = pow2 (?k + 1) * pow2 (bits d - 1)" by (simp add: pow2_add [symmetric])
    also have "\<dots> \<le> pow2 (?k + 1) * of_int d" using db by simp
    finally show ?thesis using nb dp by (simp add: q divide_less_eq)
  qed
  moreover have "pow2 (?k - 1) \<le> q"
  proof -
    have "pow2 (?k - 1) * of_int d \<le> pow2 (?k - 1) * pow2 (bits d)" using db by simp
    also have "\<dots> = pow2 (bits n - 1)" by (simp add: pow2_add [symmetric])
    finally show ?thesis using nb dp by (simp add: q le_divide_eq)
  qed
  moreover have "exponent q = (if pow2 ?k \<le> q then ?k else ?k - 1)" by (simp add: exponent_def nd Let_def)
  ultimately show ?thesis by auto
qed

lemma round_even_bounds: "of_int (round_even x) \<le> x + 1 / 2" "x - 1 / 2 \<le> of_int (round_even x)"
  by (simp_all add: round_even_def Let_def) linarith+

lemma round_even_floor: "\<lfloor>x\<rfloor> \<le> round_even x" "round_even x \<le> \<lfloor>x\<rfloor> + 1"
  by (simp_all add: round_even_def Let_def)

lemma round_even_of_int [simp]: "round_even (of_int m) = m"
  by (simp add: round_even_def)

lemma round_even_mono: "x \<le> y \<Longrightarrow> round_even x \<le> round_even y"
proof (cases "\<lfloor>x\<rfloor> = \<lfloor>y\<rfloor>")
  case True
  moreover assume "x \<le> y"
  ultimately show ?thesis by (simp add: round_even_def Let_def)
next
  case False
  moreover assume "x \<le> y"
  ultimately have "\<lfloor>x\<rfloor> + 1 \<le> \<lfloor>y\<rfloor>" using floor_mono [of x y] by linarith
  then show ?thesis using round_even_floor [of x] round_even_floor [of y] by linarith
qed

lemma fl_pos_bounds:
  assumes "0 < q"
  shows "pow2 (exponent q) \<le> fl_pos q \<and> fl_pos q \<le> pow2 (exponent q + 1)"
proof -
  let ?u = "pow2 (exponent q - 52)"
  have e: "pow2 (exponent q) = 2 ^ 52 * ?u" "pow2 (exponent q + 1) = 2 ^ 53 * ?u"
    using pow2_add [of 52 "exponent q - 52"] pow2_add [of 53 "exponent q - 52"] by (simp_all add: pow2_numeral add.commute)
  have "2 ^ 52 \<le> q / ?u" "q / ?u \<le> 2 ^ 53"
    using exponent_bounds [OF assms] unfolding e by (simp_all add: le_divide_eq divide_le_eq)
  then have "round_even (of_int (2 ^ 52)) \<le> round_even (q / ?u)" "round_even (q / ?u) \<le> round_even (of_int (2 ^ 53))"
    by (intro round_even_mono; simp)+
  then have "2 ^ 52 \<le> round_even (q / ?u)" "round_even (q / ?u) \<le> 2 ^ 53" by (simp_all only: round_even_of_int)
  then have "(of_int (2 ^ 52) :: rat) \<le> of_int (round_even (q / ?u))" "(of_int (round_even (q / ?u)) :: rat) \<le> of_int (2 ^ 53)"
    by (simp_all only: of_int_le_iff)
  then show ?thesis unfolding e fl_pos_def Let_def by simp
qed

lemma pow2_less_iff: "pow2 a < pow2 b \<longleftrightarrow> a < b"
  by (metis linorder_not_le order_le_less pow2_mono pow2_Suc pow2_pos less_add_one mult_2 less_add_same_cancel1
      zless_imp_add1_zle order_less_le_trans)

lemma fl_pos_mono:
  assumes "0 < p" and "p \<le> q"
  shows "fl_pos p \<le> fl_pos q"
proof (cases "exponent p = exponent q")
  case True
  have "round_even (p / pow2 (exponent q - 52)) \<le> round_even (q / pow2 (exponent q - 52))"
    using assms(2) by (intro round_even_mono) (simp add: divide_right_mono less_imp_le)
  then show ?thesis by (simp add: fl_pos_def Let_def True)
next
  case False
  have q: "0 < q" using assms by simp
  have "pow2 (exponent p) < pow2 (exponent q + 1)"
    using exponent_bounds [OF assms(1)] exponent_bounds [OF q] assms(2) by linarith
  then have "exponent p + 1 \<le> exponent q" using False by (simp add: pow2_less_iff)
  then have "pow2 (exponent p + 1) \<le> pow2 (exponent q)" by (rule pow2_mono)
  then show ?thesis using fl_pos_bounds [OF assms(1)] fl_pos_bounds [OF q] by linarith
qed

lemma fl_pos_error:
  assumes "0 < q"
  shows "\<bar>fl_pos q - q\<bar> \<le> q / 2 ^ 53"
proof -
  let ?u = "pow2 (exponent q - 52)"
  have "\<bar>of_int (round_even (q / ?u)) - q / ?u\<bar> \<le> 1 / 2"
    using round_even_bounds [of "q / ?u"] by linarith
  then have "\<bar>of_int (round_even (q / ?u)) - q / ?u\<bar> * ?u \<le> 1 / 2 * ?u" by (intro mult_right_mono) (simp_all add: less_imp_le)
  moreover have "\<bar>of_int (round_even (q / ?u)) - q / ?u\<bar> * ?u = \<bar>fl_pos q - q\<bar>"
    using abs_mult_pos [of ?u "of_int (round_even (q / ?u)) - q / ?u"]
    by (simp add: fl_pos_def Let_def less_imp_le left_diff_distrib)
  moreover have "1 / 2 * ?u = pow2 (exponent q) / 2 ^ 53"
    using pow2_add [of 52 "exponent q - 52"] by (simp add: pow2_numeral)
  moreover have "pow2 (exponent q) / 2 ^ 53 \<le> q / 2 ^ 53" using exponent_bounds [OF assms] by (simp add: divide_right_mono)
  ultimately show ?thesis by linarith
qed

lemma fl_pos_exact:
  assumes "0 < q" and "q = of_int m * pow2 k" and "exponent q - 52 \<le> k"
  shows "fl_pos q = q"
proof -
  let ?u = "pow2 (exponent q - 52)"
  have "pow2 k = pow2 (k - (exponent q - 52)) * ?u" by (simp add: pow2_add [symmetric])
  then have "q = (of_int m * pow2 (k - (exponent q - 52))) * ?u" using assms(2) by (simp only: mult.assoc)
  then have "q / ?u = of_int m * pow2 (k - (exponent q - 52))" by (metis nonzero_mult_div_cancel_right pow2_nonzero)
  also have "\<dots> = of_int (m * 2 ^ nat (k - (exponent q - 52)))" using assms(3) by (simp add: pow2_def)
  finally have r: "q / ?u = of_int (m * 2 ^ nat (k - (exponent q - 52)))" .
  have "fl_pos q = of_int (round_even (q / ?u)) * ?u" by (simp add: fl_pos_def Let_def)
  also have "\<dots> = q / ?u * ?u" unfolding r round_even_of_int ..
  finally show ?thesis by simp
qed

lemma fl_0 [simp]: "fl 0 = 0"
  by (simp add: fl_def)

lemma fl_mono: "0 \<le> p \<Longrightarrow> p \<le> q \<Longrightarrow> fl p \<le> fl q"
  using fl_pos_mono [of p q] fl_pos_bounds [of q] pow2_pos [of "exponent q"]
  by (auto simp: fl_def intro: order.trans [OF less_imp_le [OF pow2_pos]])

lemma fl_nonneg: "0 \<le> q \<Longrightarrow> 0 \<le> fl q"
  using fl_mono [of 0 q] by simp

lemma fl_error: "0 \<le> q \<Longrightarrow> \<bar>fl q - q\<bar> \<le> q / 2 ^ 53"
  using fl_pos_error [of q] by (auto simp: fl_def)

lemma fl_nat:
  assumes "n < 2 ^ 53"
  shows "fl (of_nat n) = of_nat n"
proof (cases "n = 0")
  case False
  then have q: "(0::rat) < of_nat n" by simp
  have "(of_nat n :: rat) < of_nat (2 ^ 53)" using assms by (simp only: of_nat_less_iff)
  then have "pow2 (exponent (of_nat n)) < pow2 53" using exponent_bounds [OF q] by (simp add: pow2_def)
  then have "exponent (of_nat n) - 52 \<le> 0" by (simp add: pow2_less_iff)
  then show ?thesis using fl_pos_exact [OF q, of "int n" 0] q by (simp add: fl_def pow2_def)
qed simp

text \<open>
  Go leaves the conversion of a float outside the range of the integer type to the platform:
  \<open>cast\<close> is what the platform answers.
\<close>

definition uint_of_float :: "(rat \<Rightarrow> 64 word) \<Rightarrow> rat \<Rightarrow> gouint" where
  "uint_of_float cast x = (if 0 \<le> x \<and> x < 2 ^ 64 then word_of_int \<lfloor>x\<rfloor> else cast x)"

definition int64_of_float :: "(rat \<Rightarrow> 64 word) \<Rightarrow> rat \<Rightarrow> int64" where
  "int64_of_float cast x =
     (let t = (if x < 0 then - \<lfloor>- x\<rfloor> else \<lfloor>x\<rfloor>) in
      if - (2 ^ 63) \<le> t \<and> t < 2 ^ 63 then word_of_int t else cast x)"

section \<open>Running jobs\<close>

text \<open>\<open>time.Since\<close> saturates; \<open>Add\<close> is exact on the times it is used for.\<close>

definition durationBetween :: "time \<Rightarrow> time \<Rightarrow> int64" where
  "durationBetween startTime now =
     (let d = unixNanos now - unixNanos startTime in
      if d < - (2 ^ 63) then word_of_int (- (2 ^ 63)) else if 2 ^ 63 \<le> d then word_of_int (2 ^ 63 - 1) else word_of_int d)"

definition addDuration :: "time \<Rightarrow> int64 \<Rightarrow> time" where
  "addDuration t d = Time (unixNanos t + sint d)"

definition calculateEstimatedEndTime :: "(rat \<Rightarrow> 64 word) \<Rightarrow> time \<Rightarrow> time \<Rightarrow> rat \<Rightarrow> time option" where
  "calculateEstimatedEndTime cast now startTime percentDone =
     (if percentDone < fl (1 / 100) then None
      else let elapsed = durationBetween startTime now;
               totalTime = int64_of_float cast (fl (fl (of_int (sint elapsed)) / percentDone))
           in Some (addDuration startTime totalTime))"

definition NewRunningJob :: "(rat \<Rightarrow> 64 word) \<Rightarrow> time \<Rightarrow> time \<Rightarrow> uint64 \<Rightarrow> uint64 \<Rightarrow> RunningJob option" where
  "NewRunningJob cast now startTime done_records records =
     (if records = 0 then None
      else let percentage = fl (fl (of_int (uint done_records)) / fl (of_int (uint records))) in
        Some \<lparr>rjTotalRecords = records, rjDoneRecords = done_records, rjStartTime = startTime,
              rjPercentageDone = uint_of_float cast (fl (percentage * 100)),
              rjEstimatedEndTime = calculateEstimatedEndTime cast now startTime percentage\<rparr>)"

lemma fl_1 [simp]: "fl 1 = 1" and fl_100 [simp]: "fl 100 = 100"
  using fl_nat [of 1] fl_nat [of 100] by simp_all

text \<open>The share of the records that are done is between 0 and 1, and 1 when all are done.\<close>

definition fraction :: "uint64 \<Rightarrow> uint64 \<Rightarrow> rat" where
  "fraction done_records records = fl (fl (of_int (uint done_records)) / fl (of_int (uint records)))"

lemma float_of_total_pos: "records \<noteq> 0 \<Longrightarrow> 1 \<le> fl (of_int (uint (records :: uint64)))"
proof -
  assume "records \<noteq> 0"
  then have "uint records \<noteq> 0" by (simp add: uint_0_iff)
  moreover have "0 \<le> uint records" by simp
  ultimately have "1 \<le> uint records" by linarith
  then have "(1 :: rat) \<le> of_int (uint records)" by (simp only: of_int_1_le_iff)
  from fl_mono [OF _ this] show ?thesis by simp
qed

lemma fraction_le_1:
  assumes "records \<noteq> 0" and "done_records \<le> records"
  shows "0 \<le> fraction done_records records" and "fraction done_records records \<le> 1"
proof -
  let ?d = "fl (of_int (uint done_records))" and ?t = "fl (of_int (uint records))"
  have d: "0 \<le> ?d" by (rule fl_nonneg) (simp only: of_int_0_le_iff unsigned_greater_eq)
  have t: "0 < ?t" using float_of_total_pos [OF assms(1)] by linarith
  have "?d \<le> ?t" 
    by (rule fl_mono) (use assms(2) in \<open>simp_all only: of_int_0_le_iff of_int_le_iff unsigned_greater_eq word_le_def\<close>)
  then have "0 \<le> ?d / ?t" "?d / ?t \<le> 1" using t d by (simp_all add: divide_le_eq)
  then show "0 \<le> fraction done_records records" "fraction done_records records \<le> 1"
    using fl_mono [of "?d / ?t" 1] fl_nonneg [of "?d / ?t"] unfolding fraction_def by simp_all
qed

lemma fraction_all: "records \<noteq> 0 \<Longrightarrow> fraction records records = 1"
  using float_of_total_pos [of records] by (simp add: fraction_def)

lemma percentage_le_100:
  assumes "0 \<le> f" and "f \<le> 1"
  shows "uint (uint_of_float cast (fl (f * 100))) = \<lfloor>fl (f * 100)\<rfloor>" and "\<lfloor>fl (f * 100)\<rfloor> \<le> 100"
proof -
  have r: "0 \<le> fl (f * 100)" "fl (f * 100) \<le> 100"
    using fl_mono [of "f * 100" 100] fl_nonneg [of "f * 100"] assms by simp_all
  show le: "\<lfloor>fl (f * 100)\<rfloor> \<le> 100" using r(2) by (simp add: floor_le_iff)
  have "0 \<le> \<lfloor>fl (f * 100)\<rfloor>" using r(1) by simp
  then show "uint (uint_of_float cast (fl (f * 100))) = \<lfloor>fl (f * 100)\<rfloor>"
    using r le by (simp add: uint_of_float_def uint_word_of_int)
qed

text \<open>The estimate is not before now: \<open>elapsed\<close> is exact in \<open>float64\<close> up to 104 days.\<close>

lemma estimate_not_past:
  assumes "startTime \<le> now" and "unixNanos now - unixNanos startTime < 2 ^ 53"
    and "f \<le> 1" and "calculateEstimatedEndTime cast now startTime f = Some t"
  shows "now \<le> t"
proof -
  let ?e = "unixNanos now - unixNanos startTime"
  have e0: "0 \<le> ?e" using assms(1) by (simp add: less_eq_time_def)
  have "durationBetween startTime now = word_of_int ?e"
    using e0 assms(2) by (simp add: durationBetween_def del: of_int_diff)
  then have el: "sint (durationBetween startTime now) = ?e" using e0 assms(2) sint_word_of_int_64 [of ?e] by simp
  have fe: "fl (of_int ?e) = of_int ?e" using fl_nat [of "nat ?e"] e0 assms(2) by simp
  have "\<bar>fl (1 / 100) - 1 / 100\<bar> \<le> (1 / 100) / 2 ^ 53" by (rule fl_error) simp
  moreover have "(1 / 100) / 2 ^ 53 \<le> (1 / 10100 :: rat)" by simp
  ultimately have hund: "1 / 101 \<le> fl (1 / 100)" by linarith
  have f: "fl (1 / 100) \<le> f" and t: "t = addDuration startTime (int64_of_float cast (fl (of_int ?e / f)))"
    using assms(4) unfolding calculateEstimatedEndTime_def Let_def el fe by (simp_all split: if_splits)
  have f0: "0 < f" "1 / 101 \<le> f" using f hund by linarith+
  have "of_int ?e \<le> (of_int ?e :: rat) / f"
    using e0 assms(3) f0 by (simp add: le_divide_eq mult_left_le)
  then have low: "of_int ?e \<le> fl (of_int ?e / f)" using fl_mono [of "of_int ?e" "of_int ?e / f"] e0 fe by simp
  have "E / f \<le> E * 101" if "0 \<le> E" for E :: rat
  proof -
    have "E * 1 \<le> E * (101 * f)" using that f0 by (intro mult_left_mono) simp_all
    then show ?thesis using f0 by (simp add: divide_le_eq mult.assoc)
  qed
  then have "(of_int ?e :: rat) / f \<le> of_int ?e * 101" using e0 by (metis of_int_0_le_iff)
  moreover have "(of_int ?e :: rat) < 2 ^ 53" using assms(2) by (metis of_int_less_iff of_int_numeral of_int_power)
  ultimately have "(of_int ?e :: rat) / f \<le> 2 ^ 53 * 101"
    by (meson order.trans less_imp_le mult_right_mono zero_le_numeral)
  then have "fl (of_int ?e / f) < 2 ^ 62" using fl_error [of "of_int ?e / f"] e0 f0 by simp
  then have "\<lfloor>fl (of_int ?e / f)\<rfloor> < 2 ^ 63" by (simp add: floor_less_iff)
  moreover have "?e \<le> \<lfloor>fl (of_int ?e / f)\<rfloor>" using low by (simp add: le_floor_iff)
  ultimately have "?e \<le> sint (int64_of_float cast (fl (of_int ?e / f)))"
    using e0 low by (simp add: int64_of_float_def Let_def sint_word_of_int_64)
  then show ?thesis by (simp add: t addDuration_def less_eq_time_def)
qed

section \<open>Status of the jobs\<close>

text \<open>The statistics of the library's handlers, as the getters return them.\<close>

record LibBackupStats =
  bsStartTime :: time
  bsTotalRecords :: uint64
  bsReadRecords :: uint64
  bsFileCount :: uint64
  bsBytesWritten :: uint64
  bsSIndexes :: "32 word"
  bsUDFs :: "32 word"
  bsIsEmpty :: bool

record LibRestoreStats =
  lsReadRecords :: uint64
  lsRecordsInserted :: uint64
  lsSIndexes :: "32 word"
  lsUDFs :: "32 word"
  lsRecordsFresher :: uint64
  lsRecordsSkipped :: uint64
  lsRecordsExisted :: uint64
  lsRecordsExpired :: uint64
  lsTotalBytesRead :: uint64

text \<open>
  \<open>stats\<close> is what \<open>GetStats\<close> of a handler answers while the status is made; a nil handler panics.
  The start time is that of any handler: the first in some order of the map.
\<close>

fun sumHandlers ::
  "(nat \<Rightarrow> LibBackupStats) \<Rightarrow> (string, ptr) gomap \<Rightarrow> uint64 \<Rightarrow> uint64 \<Rightarrow> ('e, uint64 \<times> uint64) outcome" where
  "sumHandlers stats [] records done_records = Ok (records, done_records)"
| "sumHandlers stats ((ns, handler) # rest) records done_records =
     (case handler of
        None \<Rightarrow> Panic NilDereference
      | Some h \<Rightarrow> sumHandlers stats rest (records + bsTotalRecords (stats h)) (done_records + bsReadRecords (stats h)))"

definition getAnyHandler ::
  "((string, ptr) gomap \<Rightarrow> (string, ptr) gomap) \<Rightarrow> (string, ptr) gomap \<Rightarrow> ptr" where
  "getAnyHandler pick m = (case permuted pick m of [] \<Rightarrow> None | (ns, h) # rest \<Rightarrow> h)"

definition currentBackupStatus ::
  "((string, ptr) gomap \<Rightarrow> (string, ptr) gomap) \<Rightarrow> (rat \<Rightarrow> 64 word) \<Rightarrow> time \<Rightarrow> (nat \<Rightarrow> LibBackupStats) \<Rightarrow>
   (string, ptr) gomap \<Rightarrow> ('e, RunningJob option) outcome" where
  "currentBackupStatus pick cast now stats handlers =
     (if length handlers = 0 then Ok None
      else and_then (sumHandlers stats handlers 0 0) (\<lambda>(records, done_records).
        case getAnyHandler pick handlers of
          None \<Rightarrow> Panic NilDereference
        | Some h \<Rightarrow> Ok (NewRunningJob cast now (bsStartTime (stats h)) done_records records)))"

record jobInfo =
  jiHandlers :: "nat list"
  jiStatus :: JobStatus
  jiErr :: "string option"
  jiTotalRecords :: uint64
  jiStartTime :: time
  jiLabel :: string

definition addStats :: "LibRestoreStats \<Rightarrow> RestoreJobStatus \<Rightarrow> RestoreJobStatus" where
  "addStats s status = status
     \<lparr>ReadRecords := ReadRecords status + lsReadRecords s,
      InsertedRecords := InsertedRecords status + lsRecordsInserted s,
      IndexCount := IndexCount status + ucast (lsSIndexes s),
      rsUDFCount := rsUDFCount status + ucast (lsUDFs s),
      FresherRecords := FresherRecords status + lsRecordsFresher s,
      SkippedRecords := SkippedRecords status + lsRecordsSkipped s,
      ExistedRecords := ExistedRecords status + lsRecordsExisted s,
      ExpiredRecords := ExpiredRecords status + lsRecordsExpired s,
      TotalBytes := TotalBytes status + lsTotalBytesRead s\<rparr>"

definition emptyStatus :: "JobStatus \<Rightarrow> RestoreJobStatus" where
  "emptyStatus s =
     \<lparr>ReadRecords = 0, TotalBytes = 0, ExpiredRecords = 0, SkippedRecords = 0, IgnoredRecords = 0,
      InsertedRecords = 0, ExistedRecords = 0, FresherRecords = 0, IndexCount = 0, rsUDFCount = 0,
      CurrentRestore = None, jsStatus = s, jsError = []\<rparr>"

definition restoreJobStatus ::
  "(rat \<Rightarrow> 64 word) \<Rightarrow> time \<Rightarrow> (nat \<Rightarrow> LibRestoreStats) \<Rightarrow> jobInfo \<Rightarrow> RestoreJobStatus" where
  "restoreJobStatus cast now stats job =
     (let status = fold (\<lambda>h. addStats (stats h)) (jiHandlers job) (emptyStatus (jiStatus job));
          status = (if jiStatus job = JobStatusRunning
                    then status\<lparr>CurrentRestore := NewRunningJob cast now (jiStartTime job) (ReadRecords status) (jiTotalRecords job)\<rparr>
                    else status)
      in case jiErr job of None \<Rightarrow> status | Some err \<Rightarrow> status\<lparr>jsError := err\<rparr>)"

lemma fold_addStats:
  "ReadRecords (fold (\<lambda>h. addStats (stats h)) hs s) = ReadRecords s + sum_list (map (lsReadRecords \<circ> stats) hs)"
  "InsertedRecords (fold (\<lambda>h. addStats (stats h)) hs s) = InsertedRecords s + sum_list (map (lsRecordsInserted \<circ> stats) hs)"
  "TotalBytes (fold (\<lambda>h. addStats (stats h)) hs s) = TotalBytes s + sum_list (map (lsTotalBytesRead \<circ> stats) hs)"
  "IgnoredRecords (fold (\<lambda>h. addStats (stats h)) hs s) = IgnoredRecords s"
  "jsStatus (fold (\<lambda>h. addStats (stats h)) hs s) = jsStatus s"
  "jsError (fold (\<lambda>h. addStats (stats h)) hs s) = jsError s"
  "CurrentRestore (fold (\<lambda>h. addStats (stats h)) hs s) = CurrentRestore s"
  by (induction hs arbitrary: s) (simp_all add: addStats_def algebra_simps)

lemma restoreJobStatus_fields:
  "jsStatus (restoreJobStatus cast now stats job) = jiStatus job"
  "jsError (restoreJobStatus cast now stats job) = (case jiErr job of None \<Rightarrow> [] | Some e \<Rightarrow> e)"
  "ReadRecords (restoreJobStatus cast now stats job) = sum_list (map (lsReadRecords \<circ> stats) (jiHandlers job))"
  "InsertedRecords (restoreJobStatus cast now stats job) = sum_list (map (lsRecordsInserted \<circ> stats) (jiHandlers job))"
  "IgnoredRecords (restoreJobStatus cast now stats job) = 0"
  "CurrentRestore (restoreJobStatus cast now stats job) =
     (if jiStatus job = JobStatusRunning
      then NewRunningJob cast now (jiStartTime job) (ReadRecords (restoreJobStatus cast now stats job)) (jiTotalRecords job)
      else None)"
  by (simp_all add: restoreJobStatus_def Let_def fold_addStats emptyStatus_def split: option.split)

section \<open>Properties\<close>

text \<open>
  C21: The progress reported for a job of which no more records are done than there are is between
  0 and 100, and 100 when all are done. There is no report when there are no records. An estimate
  of the end, which is made from one percent on, is never in the past, as long as the job has not
  run for more than 104 days (beyond that, \<open>float64\<close> no longer holds the elapsed nanoseconds).
\<close>

theorem progress_bounds:
  assumes "NewRunningJob cast now startTime done_records records = Some job" and "done_records \<le> records"
  shows "rjPercentageDone job \<le> 100 \<and> (done_records = records \<longrightarrow> rjPercentageDone job = 100) \<and> records \<noteq> 0 \<and>
    (\<forall>t. rjEstimatedEndTime job = Some t \<longrightarrow> startTime \<le> now \<longrightarrow>
       unixNanos now - unixNanos startTime < 2 ^ 53 \<longrightarrow> now \<le> t)"
proof -
  have nz: "records \<noteq> 0" and job: "rjPercentageDone job = uint_of_float cast (fl (fraction done_records records * 100))"
    "rjEstimatedEndTime job = calculateEstimatedEndTime cast now startTime (fraction done_records records)"
    using assms(1) by (auto simp: NewRunningJob_def fraction_def Let_def split: if_splits)
  note f = fraction_le_1 [OF nz assms(2)]
  have "uint (rjPercentageDone job) \<le> uint (100 :: gouint)"
    using percentage_le_100(1) [OF f, of cast] percentage_le_100(2) [OF f] by (simp add: job)
  then have "rjPercentageDone job \<le> 100" unfolding word_le_def .
  moreover have "rjPercentageDone job = 100" if "done_records = records"
    unfolding job that fraction_all [OF nz] by (simp add: uint_of_float_def)
  ultimately show ?thesis using estimate_not_past [OF _ _ f(2)] nz unfolding job(2) by blast
qed

theorem progress_bounds_witness:
  "(\<exists>job. NewRunningJob (\<lambda>_. 0) (Time 1000) (Time 0) 50 100 = Some job \<and> rjPercentageDone job \<le> 100 \<and>
     rjEstimatedEndTime job = Some (Time 2000)) \<and>
   (\<exists>job. NewRunningJob (\<lambda>_. 0) (Time 1000) (Time 0) 29 100 = Some job \<and> rjPercentageDone job = 28)"
proof
  have "rjEstimatedEndTime (the (NewRunningJob (\<lambda>_. 0) (Time 1000) (Time 0) 50 100)) = Some (Time 2000) \<and>
      NewRunningJob (\<lambda>_. 0) (Time 1000) (Time 0) 50 100 \<noteq> None"
    by code_simp
  then obtain job where job: "NewRunningJob (\<lambda>_. 0) (Time 1000) (Time 0) 50 100 = Some job"
      "rjEstimatedEndTime job = Some (Time 2000)"
    by auto
  moreover have "rjPercentageDone job \<le> 100" using progress_bounds [OF job(1)] by simp
  ultimately show "\<exists>job. NewRunningJob (\<lambda>_. 0) (Time 1000) (Time 0) 50 100 = Some job \<and> rjPercentageDone job \<le> 100 \<and>
     rjEstimatedEndTime job = Some (Time 2000)" by blast
  have "rjPercentageDone (the (NewRunningJob (\<lambda>_. 0) (Time 1000) (Time 0) 29 100)) = 28 \<and>
      NewRunningJob (\<lambda>_. 0) (Time 1000) (Time 0) 29 100 \<noteq> None"
    by code_simp
  then show "\<exists>job. NewRunningJob (\<lambda>_. 0) (Time 1000) (Time 0) 29 100 = Some job \<and> rjPercentageDone job = 28"
    by auto
qed

end
