(* ===== verification/Jobs.thy ===== *)
theory Jobs
  imports Estimates
begin

text \<open>
  \<open>pkg/service/jobs_holder.go\<close>: the restore jobs and their updates. A goroutine of a restore
  touches the jobs only through these calls, each under the holder's lock, so what a goroutine does
  to them is a list of updates, and what several do is an interleaving of their lists.
\<close>

section \<open>The holder\<close>

type_synonym RestoreJobID = goint
type_synonym RestoreJobsHolder = "(RestoreJobID, jobInfo) gomap"

text \<open>The id is what \<open>rand.Int\<close> answers.\<close>

definition newJob :: "RestoreJobID \<Rightarrow> time \<Rightarrow> string \<Rightarrow> RestoreJobsHolder \<Rightarrow> RestoreJobsHolder" where
  "newJob jobID now label h = insert_key jobID
     \<lparr>jiHandlers = [], jiStatus = JobStatusRunning, jiErr = None, jiTotalRecords = 0, jiStartTime = now, jiLabel = label\<rparr> h"

definition with_job :: "(jobInfo \<Rightarrow> jobInfo) \<Rightarrow> RestoreJobID \<Rightarrow> RestoreJobsHolder \<Rightarrow> RestoreJobsHolder" where
  "with_job f jobID h = (case lookup h jobID of Some job \<Rightarrow> insert_key jobID (f job) h | None \<Rightarrow> h)"

definition addHandler :: "nat \<Rightarrow> RestoreJobID \<Rightarrow> RestoreJobsHolder \<Rightarrow> RestoreJobsHolder" where
  "addHandler handler = with_job (\<lambda>job. job\<lparr>jiHandlers := jiHandlers job @ [handler]\<rparr>)"

definition addTotalRecords :: "uint64 \<Rightarrow> RestoreJobID \<Rightarrow> RestoreJobsHolder \<Rightarrow> RestoreJobsHolder" where
  "addTotalRecords t = with_job (\<lambda>job. job\<lparr>jiTotalRecords := jiTotalRecords job + t\<rparr>)"

definition setDone :: "RestoreJobID \<Rightarrow> RestoreJobsHolder \<Rightarrow> RestoreJobsHolder" where
  "setDone = with_job (\<lambda>job. job\<lparr>jiStatus := JobStatusDone\<rparr>)"

definition setFailed :: "string \<Rightarrow> RestoreJobID \<Rightarrow> RestoreJobsHolder \<Rightarrow> RestoreJobsHolder" where
  "setFailed err = with_job (\<lambda>job. job\<lparr>jiStatus := JobStatusFailed, jiErr := Some err\<rparr>)"

definition getStatus ::
  "(rat \<Rightarrow> 64 word) \<Rightarrow> time \<Rightarrow> (nat \<Rightarrow> LibRestoreStats) \<Rightarrow> RestoreJobID \<Rightarrow> RestoreJobsHolder \<Rightarrow> (string, RestoreJobStatus) outcome" where
  "getStatus cast now stats jobID h =
     (case lookup h jobID of
        Some job \<Rightarrow> Ok (restoreJobStatus cast now stats job)
      | None \<Rightarrow> Err (''job with ID '' @ FormatInt jobID @ '' not found''))"

section \<open>Updates of a job\<close>

datatype job_update = AddHandler nat | AddTotal uint64 | SetDone | SetFailed string

fun apply_update :: "RestoreJobID \<Rightarrow> job_update \<Rightarrow> RestoreJobsHolder \<Rightarrow> RestoreJobsHolder" where
  "apply_update jobID (AddHandler handler) h = addHandler handler jobID h"
| "apply_update jobID (AddTotal t) h = addTotalRecords t jobID h"
| "apply_update jobID SetDone h = setDone jobID h"
| "apply_update jobID (SetFailed err) h = setFailed err jobID h"

lemmas update_defs = addHandler_def addTotalRecords_def setDone_def setFailed_def

lemma with_job_lookup:
  "lookup (with_job f jobID h) x = (if x = jobID then map_option f (lookup h jobID) else lookup h x)"
  by (simp add: with_job_def split: option.split)

text \<open>What a list of updates makes of the job it is for; other jobs are left alone.\<close>

fun update_job :: "job_update \<Rightarrow> jobInfo \<Rightarrow> jobInfo" where
  "update_job (AddHandler handler) job = job\<lparr>jiHandlers := jiHandlers job @ [handler]\<rparr>"
| "update_job (AddTotal t) job = job\<lparr>jiTotalRecords := jiTotalRecords job + t\<rparr>"
| "update_job SetDone job = job\<lparr>jiStatus := JobStatusDone\<rparr>"
| "update_job (SetFailed err) job = job\<lparr>jiStatus := JobStatusFailed, jiErr := Some err\<rparr>"

lemma apply_update_lookup:
  "lookup (apply_update jobID u h) x = (if x = jobID then map_option (update_job u) (lookup h jobID) else lookup h x)"
  by (cases u) (simp_all add: update_defs with_job_lookup update_job.simps [abs_def] cong: map_option_cong)

lemma apply_updates_lookup:
  "lookup (fold (apply_update jobID) us h) x =
     (if x = jobID then map_option (fold update_job us) (lookup h jobID) else lookup h x)"
  by (induction us arbitrary: h) (auto simp: apply_update_lookup option.map_comp comp_def option.map_ident option.map_id)

fun handlers_of :: "job_update list \<Rightarrow> nat list" where
  "handlers_of [] = []"
| "handlers_of (AddHandler handler # us) = handler # handlers_of us"
| "handlers_of (u # us) = handlers_of us"

fun total_of :: "job_update list \<Rightarrow> uint64" where
  "total_of [] = 0"
| "total_of (AddTotal t # us) = t + total_of us"
| "total_of (u # us) = total_of us"

fun settles :: "job_update \<Rightarrow> bool" where
  "settles SetDone = True"
| "settles (SetFailed err) = True"
| "settles u = False"

lemma updates_unsettled:
  assumes "\<forall>u \<in> set us. \<not> settles u"
  shows "fold update_job us job =
    job\<lparr>jiHandlers := jiHandlers job @ handlers_of us, jiTotalRecords := jiTotalRecords job + total_of us\<rparr>"
  using assms
proof (induction us arbitrary: job)
  case (Cons u us)
  then show ?case by (cases u) (simp_all add: add.assoc)
qed simp

lemma handlers_of_append: "handlers_of (us @ vs) = handlers_of us @ handlers_of vs"
  by (induction us rule: handlers_of.induct) simp_all

lemma total_of_append: "total_of (us @ vs) = total_of us + total_of vs"
  by (induction us rule: total_of.induct) (simp_all add: add.assoc)

section \<open>Threads\<close>

text \<open>
  A trace of several threads tags each event with the thread it is of; each thread's events are in
  the thread's order. The scheduler is a parameter: it answers a trace, and \<open>interleaved\<close> is that
  trace when it is one of the given threads, and the threads one after the other otherwise.
\<close>

definition thread :: "nat \<Rightarrow> (nat \<times> 'a) list \<Rightarrow> 'a list" where
  "thread i tr = map snd (filter (\<lambda>x. fst x = i) tr)"

definition is_interleaving :: "(nat \<times> 'a) list \<Rightarrow> 'a list list \<Rightarrow> bool" where
  "is_interleaving tr ts \<longleftrightarrow>
     list_all (\<lambda>x. fst x < length ts) tr \<and> list_all (\<lambda>i. thread i tr = ts ! i) [0..<length ts]"

definition in_turn :: "'a list list \<Rightarrow> (nat \<times> 'a) list" where
  "in_turn ts = concat (map (\<lambda>(i, es). map (Pair i) es) (enumerate 0 ts))"

definition interleaved :: "('a list list \<Rightarrow> (nat \<times> 'a) list) \<Rightarrow> 'a list list \<Rightarrow> (nat \<times> 'a) list" where
  "interleaved sched ts = (if is_interleaving (sched ts) ts then sched ts else in_turn ts)"

lemma thread_append: "thread i (xs @ ys) = thread i xs @ thread i ys"
  by (simp add: thread_def)

lemma thread_tagged: "thread i (map (Pair j) es) = (if i = j then es else [])"
  by (induction es) (auto simp: thread_def)

lemma thread_in_turn:
  "thread i (concat (map (\<lambda>(i, es). map (Pair i) es) (enumerate n ts))) =
     (if n \<le> i \<and> i < n + length ts then ts ! (i - n) else [])"
proof (induction ts arbitrary: n)
  case Nil
  then show ?case by (auto simp: thread_def)
next
  case (Cons es ts)
  have "thread i (concat (map (\<lambda>(i, es). map (Pair i) es) (enumerate n (es # ts)))) =
      thread i (map (Pair n) es) @ thread i (concat (map (\<lambda>(i, es). map (Pair i) es) (enumerate (Suc n) ts)))"
    by (simp add: thread_append)
  then show ?case unfolding Cons by (auto simp: thread_tagged nth_Cons')
qed

lemma in_turn_interleaving: "is_interleaving (in_turn ts) ts"
proof -
  have "fst x < length ts" if "x \<in> set (in_turn ts)" for x
    using that by (auto simp: in_turn_def in_set_enumerate_eq)
  then show ?thesis
    using thread_in_turn [of _ 0 ts] by (simp add: is_interleaving_def list_all_iff in_turn_def)
qed

lemma interleaved_ok: "is_interleaving (interleaved sched ts) ts"
  by (simp add: interleaved_def in_turn_interleaving)

lemma interleaved_attainable: "is_interleaving tr ts \<Longrightarrow> interleaved (\<lambda>_. tr) ts = tr"
  by (simp add: interleaved_def)

lemma is_interleaving_thread: "is_interleaving tr ts \<Longrightarrow> i < length ts \<Longrightarrow> thread i tr = ts ! i"
  by (simp add: is_interleaving_def list_all_iff)

text \<open>The events of a trace are those of its threads, as a multiset.\<close>

lemma mset_threads:
  "\<forall>x \<in> set tr. fst x < n \<Longrightarrow> mset (map snd tr) = (\<Sum>i<n. mset (thread i tr))"
proof (induction tr)
  case Nil
  then show ?case by (simp add: thread_def)
next
  case (Cons x tr)
  have t: "mset (thread i (x # tr)) = (if fst x = i then {#snd x#} else {#}) + mset (thread i tr)" for i
    by (simp add: thread_def)
  have "(\<Sum>i<n. if fst x = i then {#snd x#} else {#}) = {#snd x#}"
    using Cons.prems by (simp add: sum.delta)
  then show ?case using Cons by (simp add: t sum.distrib)
qed

lemma mset_interleaving:
  assumes "is_interleaving tr ts"
  shows "mset (map snd tr) = mset (concat ts)"
proof -
  have "mset (map snd tr) = (\<Sum>i<length ts. mset (thread i tr))"
    by (rule mset_threads) (use assms in \<open>simp add: is_interleaving_def list_all_iff\<close>)
  also have "\<dots> = (\<Sum>i<length ts. mset (ts ! i))"
    by (rule sum.cong) (use assms in \<open>auto simp: is_interleaving_def list_all_iff\<close>)
  also have "\<dots> = mset (concat ts)"
    by (simp add: mset_concat sum_list_sum_nth atLeast0LessThan)
  finally show ?thesis .
qed

text \<open>Sums and collections of updates do not depend on the interleaving.\<close>

lemma total_of_mset: "mset us = mset vs \<Longrightarrow> total_of us = total_of vs"
proof -
  have "total_of ws = (\<Sum>u\<in>#mset ws. case u of AddTotal t \<Rightarrow> t | _ \<Rightarrow> 0)" for ws
    by (induction ws rule: total_of.induct) simp_all
  then show "mset us = mset vs \<Longrightarrow> total_of us = total_of vs" by simp
qed

lemma handlers_of_mset: "mset us = mset vs \<Longrightarrow> mset (handlers_of us) = mset (handlers_of vs)"
proof -
  have "mset (handlers_of ws) = (\<Sum>u\<in>#mset ws. case u of AddHandler h \<Rightarrow> {#h#} | _ \<Rightarrow> {#})" for ws
    by (induction ws rule: handlers_of.induct) simp_all
  then show "mset us = mset vs \<Longrightarrow> mset (handlers_of us) = mset (handlers_of vs)" by simp
qed

end
