(* ===== verification/Restore.thy ===== *)
theory Restore
  imports Jobs "HOL-Library.Sublist"
begin

text \<open>
  \<open>pkg/service/restore_data.go\<close> and \<open>restore_config.go\<close>: restoring a backup by its path, restoring
  a routine to a point in time, and reading the cluster configuration that belongs to a point in
  time. A restore runs in goroutines; what the library answers to them is in \<open>restore_env\<close>, and the
  scheduler and the order of the collected errors are choices.
\<close>

section \<open>What a restore relies on\<close>

datatype restore_event = JobUpdate job_update | Started string nat | Finished nat

text \<open>
  \<open>rvWait\<close> is \<open>handler.Wait\<close>; \<open>rvUnwrap\<close> is what \<open>MaybeUnwrap\<close> of the collected errors is, as a
  text; \<open>rvTimeText\<close> prints a time, \<open>rvUrlParse\<close> is \<open>url.Parse\<close> with the host and the path of the
  result.
\<close>

record restore_env =
  rvStorage :: storage_lib
  rvLib :: backup_lib
  rvClients :: client_lib
  rvCodec :: codec
  rvWait :: "nat \<Rightarrow> string option"
  rvUnwrap :: "string list \<Rightarrow> string option"
  rvTimeText :: "time \<Rightarrow> string"
  rvUrlParse :: "string \<Rightarrow> (string, string \<times> string) outcome"
  rvSched :: "restore_event list list \<Rightarrow> (nat \<times> restore_event) list"
  rvErrOrder :: "string list \<Rightarrow> string list"

text \<open>The state: the jobs, and the manager of the clients with the store of the configuration.\<close>

record restore_state =
  rsJobs :: RestoreJobsHolder
  rsClients :: ClientManagerImpl

type_synonym BackendsHolder = "(string, BackupBackend) gomap"
type_synonym 'e incremental_finder = "TimeBounds \<Rightarrow> string \<Rightarrow> ('e, BackupDetails list) outcome"

definition GetReader :: "string \<Rightarrow> BackendsHolder \<Rightarrow> BackupBackend option" where
  "GetReader routineName data = lookup data routineName"

fun backendText :: "(time \<Rightarrow> string) \<Rightarrow> backend_error \<Rightarrow> string" where
  "backendText timeText (Io e) = ioText e"
| "backendText timeText (BadMetadata e) = e"
| "backendText timeText (CannotReadFullList e) = ''cannot read full backup list: '' @ backendText timeText e"
| "backendText timeText (BackupNotFound t) = ''backup not found: '' @ timeText t"

section \<open>Restore by path\<close>

definition recordsInBackup :: "restore_env \<Rightarrow> store \<Rightarrow> RestoreRequest \<Rightarrow> (string, uint64) outcome" where
  "recordsInBackup env st request =
     and_then (map_err ioText (ReadFile (rvStorage env) (deref stStorages st (rrSourceStorage request))
                 (Join [rrBackupDataPath request, metadataFile]))) (\<lambda>bytes.
     and_then (NewMetadataFromBytes (rvCodec env) bytes) (\<lambda>metadata.
     Ok (RecordCount metadata)))"

text \<open>
  \<open>Restore\<close> makes the job and answers its id; the goroutine it starts is \<open>restoreSync\<close>, with the
  number of records read before. A panic of a goroutine ends the process.
\<close>

definition Restore ::
  "restore_env \<Rightarrow> RestoreJobID \<Rightarrow> time \<Rightarrow> RestoreRequest \<Rightarrow> restore_state \<Rightarrow>
   (string, RestoreJobID \<times> uint64 \<times> restore_state) outcome" where
  "Restore env jobID now request s =
     (let s = s\<lparr>rsJobs := newJob jobID now (rrBackupDataPath request) (rsJobs s)\<rparr> in
      case recordsInBackup env (cmStore (rsClients s)) request of
        Panic p \<Rightarrow> Panic p
      | Err e \<Rightarrow> Ok (jobID, 0, s)
      | Ok totalRecords \<Rightarrow> Ok (jobID, totalRecords, s))"

definition restoreSync ::
  "restore_env \<Rightarrow> RestoreJobID \<Rightarrow> uint64 \<Rightarrow> RestoreRequest \<Rightarrow> restore_state \<Rightarrow> (string, restore_state) outcome" where
  "restoreSync env jobID totalRecords request s =
     (case GetClient (rvClients env) (rsClients s) (rrDestinationCuster request) of
        (cm, Panic p) \<Rightarrow> Panic p
      | (cm, Err e) \<Rightarrow> Ok \<lparr>rsJobs = setFailed e jobID (rsJobs s), rsClients = cm\<rparr>
      | (cm, Ok client) \<Rightarrow>
          (case RestoreRun (rvLib env) (rvStorage env) (cmStore cm) client request of
             Panic p \<Rightarrow> Panic p
           | Err e \<Rightarrow>
               Ok \<lparr>rsJobs = setFailed (''failed to start restore operation: '' @ e) jobID (rsJobs s),
                   rsClients = Close cm client\<rparr>
           | Ok handler \<Rightarrow>
               (let jobs = addHandler handler jobID (addTotalRecords totalRecords jobID (rsJobs s)) in
                case rvWait env handler of
                  Some e \<Rightarrow>
                    Ok \<lparr>rsJobs = setFailed (''failed restore operation: '' @ e) jobID jobs, rsClients = Close cm client\<rparr>
                | None \<Rightarrow> Ok \<lparr>rsJobs = setDone jobID jobs, rsClients = Close cm client\<rparr>)))"

section \<open>Restore to a point in time\<close>

definition toRestoreRequest :: "store \<Rightarrow> Config \<Rightarrow> RestoreTimestampRequest \<Rightarrow> ('e, RestoreRequest) outcome" where
  "toRestoreRequest st config request =
     (case lookup (cfBackupRoutines config) (rtRoutine request) of
        None \<Rightarrow> Panic NilDereference
      | Some p \<Rightarrow>
     (case deref_routine st p of
        None \<Rightarrow> Panic NilDereference
      | Some routine \<Rightarrow>
          Ok (NewRestoreRequest (rtDestinationCuster request) (rtPolicy request) (brStorage routine) (rtSecretAgent request))))"

definition restoreFromPath ::
  "restore_env \<Rightarrow> store \<Rightarrow> Config \<Rightarrow> nat \<Rightarrow> RestoreTimestampRequest \<Rightarrow> string \<Rightarrow> (string, nat) outcome" where
  "restoreFromPath env st config client request backupPath =
     and_then (toRestoreRequest st config request) (\<lambda>restoreRequest.
     map_err (\<lambda>e. ''could not start restore from backup at '' @ backupPath @ '': '' @ e)
       (RestoreRun (rvLib env) (rvStorage env) st client (restoreRequest\<lparr>rrBackupDataPath := backupPath\<rparr>)))"

text \<open>
  The reader the goroutine is given is a \<open>BackupListReader\<close>: the operation of it that is called is
  an argument, with the text of its errors.

  The loop that restores the backups in order: each is started, its handler noted, and waited for
  before the next. \<open>start\<close> is \<open>restoreFromPath\<close> at the request.
\<close>

fun restoreLoop ::
  "(string \<Rightarrow> (string, nat) outcome) \<Rightarrow> (nat \<Rightarrow> string option) \<Rightarrow> BackupDetails list \<Rightarrow>
   restore_event list \<times> (string, unit) outcome" where
  "restoreLoop start wait [] = ([], Ok ())"
| "restoreLoop start wait (b # bs) =
     (case start (Key b) of
        Err e \<Rightarrow> ([], Err e)
      | Panic p \<Rightarrow> ([], Panic p)
      | Ok handler \<Rightarrow>
          (case wait handler of
             Some e \<Rightarrow> ([Started (Key b) handler, JobUpdate (AddHandler handler)], Err e)
           | None \<Rightarrow>
               (case restoreLoop start wait bs of
                  (es, r) \<Rightarrow> (Started (Key b) handler # JobUpdate (AddHandler handler) # Finished handler # es, r))))"

definition restoreNamespace ::
  "restore_env \<Rightarrow> store \<Rightarrow> Config \<Rightarrow> nat \<Rightarrow> ('e \<Rightarrow> string) \<Rightarrow> 'e incremental_finder \<Rightarrow> RestoreTimestampRequest \<Rightarrow> BackupDetails \<Rightarrow>
   restore_event list \<times> (string, unit) outcome" where
  "restoreNamespace env st config client errText findIncremental request fullBackup =
     (case NewTimeBounds (Some (Created fullBackup)) (Some (rtTime request)) of
        Panic p \<Rightarrow> ([], Panic p)
      | Err e \<Rightarrow> ([], Err ''fromTime should be less than toTime'')
      | Ok bounds \<Rightarrow>
     (case findIncremental bounds (Namespace fullBackup) of
        Panic p \<Rightarrow> ([], Panic p)
      | Err e \<Rightarrow>
          ([], Err (''could not find incremental backups for namespace '' @ Namespace fullBackup @ '': '' @
                    errText e))
      | Ok incrementalBackups \<Rightarrow>
          (let allBackups = fullBackup # incrementalBackups in
           case restoreLoop (restoreFromPath env st config client request) (rvWait env) allBackups of
             (es, r) \<Rightarrow> (map (\<lambda>b. JobUpdate (AddTotal (RecordCount b))) allBackups @ es, r))))"

fun firstPanic :: "('e, 'a) outcome list \<Rightarrow> panic option" where
  "firstPanic [] = None"
| "firstPanic (Panic p # rs) = Some p"
| "firstPanic (r # rs) = firstPanic rs"

text \<open>The errors of the namespaces, each with the text it is wrapped in.\<close>

fun namespaceErrors :: "string \<Rightarrow> (BackupDetails \<times> (string, unit) outcome) list \<Rightarrow> string list" where
  "namespaceErrors routine [] = []"
| "namespaceErrors routine ((b, Err e) # rs) =
     (''failed to restore routine '' @ routine @ '', namespace '' @ Namespace b @ '' by timestamp: '' @ e) #
     namespaceErrors routine rs"
| "namespaceErrors routine ((b, r) # rs) = namespaceErrors routine rs"

fun updatesOf :: "restore_event list \<Rightarrow> job_update list" where
  "updatesOf [] = []"
| "updatesOf (JobUpdate u # es) = u # updatesOf es"
| "updatesOf (e # es) = updatesOf es"

text \<open>
  One goroutine per namespace; the trace of them is the scheduler's. The job is settled when all
  have ended.
\<close>

definition restoreByTimeSync ::
  "restore_env \<Rightarrow> Config \<Rightarrow> ('e \<Rightarrow> string) \<Rightarrow> 'e incremental_finder \<Rightarrow> RestoreTimestampRequest \<Rightarrow> RestoreJobID \<Rightarrow> BackupDetails list \<Rightarrow>
   restore_state \<Rightarrow> (string, restore_state \<times> (nat \<times> restore_event) list) outcome" where
  "restoreByTimeSync env config errText findIncremental request jobID fullBackups s =
     (case GetClient (rvClients env) (rsClients s) (rtDestinationCuster request) of
        (cm, Panic p) \<Rightarrow> Panic p
      | (cm, Err e) \<Rightarrow> Ok (\<lparr>rsJobs = setFailed e jobID (rsJobs s), rsClients = cm\<rparr>, [])
      | (cm, Ok client) \<Rightarrow>
          (let runs = map (restoreNamespace env (cmStore cm) config client errText findIncremental request) fullBackups in
           case firstPanic (map snd runs) of
             Some p \<Rightarrow> Panic p
           | None \<Rightarrow>
               (let tr = interleaved (rvSched env) (map fst runs);
                    jobs = fold (apply_update jobID) (updatesOf (map snd tr)) (rsJobs s);
                    multiError = permuted (rvErrOrder env) (namespaceErrors (rtRoutine request) (zip fullBackups (map snd runs)));
                    jobs = (case rvUnwrap env multiError of
                              Some err \<Rightarrow> setFailed err jobID jobs
                            | None \<Rightarrow> setDone jobID jobs)
                in Ok (\<lparr>rsJobs = jobs, rsClients = Close cm client\<rparr>, tr))))"

text \<open>\<open>RestoreByTime\<close> answers the id of the job; the goroutine gets the reader and the full backups.\<close>

definition RestoreByTime ::
  "restore_env \<Rightarrow> BackendsHolder \<Rightarrow> RestoreJobID \<Rightarrow> time \<Rightarrow> RestoreTimestampRequest \<Rightarrow> restore_state \<Rightarrow>
   (string, RestoreJobID \<times> BackupBackend \<times> BackupDetails list \<times> restore_state) outcome" where
  "RestoreByTime env backends jobID now request s =
     (case GetReader (rtRoutine request) backends of
        None \<Rightarrow> Err (''backend not found: routine '' @ rtRoutine request)
      | Some reader \<Rightarrow>
          and_then (map_err (\<lambda>e. ''restore failed: '' @ backendText (rvTimeText env) e)
             (FindLastFullBackup (rvCodec env) (rvStorage env) (cmStore (rsClients s)) reader (rtTime request)))
            (\<lambda>fullBackups.
          Ok (jobID, reader, fullBackups, s\<lparr>rsJobs := newJob jobID now (rtRoutine request) (rsJobs s)\<rparr>)))"

section \<open>Configuration of the cluster\<close>

definition ParseS3Path :: "restore_env \<Rightarrow> string \<Rightarrow> (string, string \<times> string) outcome" where
  "ParseS3Path env s =
     and_then (rvUrlParse env s) (\<lambda>(host, path).
       Ok (host, if HasPrefix path ''/'' then drop 1 path else path))"

definition calculateConfigurationBackupPath :: "restore_env \<Rightarrow> string \<Rightarrow> (string, string) outcome" where
  "calculateConfigurationBackupPath env backupKey =
     and_then (ParseS3Path env backupKey) (\<lambda>(bucket, path).
       let base = Dir (Dir path) in Ok (Join [base, ConfigurationBackupDirectory]))"

definition RetrieveConfiguration ::
  "restore_env \<Rightarrow> ((string \<times> bytes) list \<Rightarrow> (string, bytes) outcome) \<Rightarrow> BackendsHolder \<Rightarrow> store \<Rightarrow> string \<Rightarrow> time \<Rightarrow>
   (string, bytes) outcome" where
  "RetrieveConfiguration env zip_entries backends st routine toTime =
     (case GetReader routine backends of
        None \<Rightarrow> Err (''backend not found: routine '' @ routine)
      | Some reader \<Rightarrow>
          and_then (map_err (\<lambda>e. ''failed retrieve configuration: '' @ backendText (rvTimeText env) e)
             (FindLastFullBackup (rvCodec env) (rvStorage env) st reader toTime)) (\<lambda>fullBackups.
          case fullBackups of
            [] \<Rightarrow> Panic (ExplicitPanic ''index out of range'')
          | lastFullBackup # rest \<Rightarrow>
              and_then (calculateConfigurationBackupPath env (Key lastFullBackup)) (\<lambda>configPath.
              map_err (backendText (rvTimeText env))
                (ReadClusterConfiguration zip_entries (rvStorage env) st reader configPath))))"

section \<open>One namespace\<close>

fun started :: "restore_event list \<Rightarrow> string list" where
  "started [] = []"
| "started (Started path handler # es) = path # started es"
| "started (e # es) = started es"

fun finished :: "restore_event list \<Rightarrow> nat list" where
  "finished [] = []"
| "finished (Finished handler # es) = handler # finished es"
| "finished (e # es) = finished es"

fun handlersStarted :: "restore_event list \<Rightarrow> nat list" where
  "handlersStarted [] = []"
| "handlersStarted (Started path handler # es) = handler # handlersStarted es"
| "handlersStarted (e # es) = handlersStarted es"

text \<open>A restore is started only when the one before it has finished.\<close>

fun one_at_a_time :: "nat option \<Rightarrow> restore_event list \<Rightarrow> bool" where
  "one_at_a_time running [] = True"
| "one_at_a_time running (Started path handler # es) = (running = None \<and> one_at_a_time (Some handler) es)"
| "one_at_a_time running (Finished handler # es) = (running = Some handler \<and> one_at_a_time None es)"
| "one_at_a_time running (JobUpdate u # es) = one_at_a_time running es"

lemma updates_prefix [simp]:
  "started (map (\<lambda>b. JobUpdate (f b)) bs @ es) = started es"
  "finished (map (\<lambda>b. JobUpdate (f b)) bs @ es) = finished es"
  "handlersStarted (map (\<lambda>b. JobUpdate (f b)) bs @ es) = handlersStarted es"
  "one_at_a_time running (map (\<lambda>b. JobUpdate (f b)) bs @ es) = one_at_a_time running es"
  "updatesOf (map (\<lambda>b. JobUpdate (f b)) bs @ es) = map f bs @ updatesOf es"
  by (induction bs) auto

definition complete :: "BackupDetails list \<Rightarrow> restore_event list \<Rightarrow> bool" where
  "complete bs es \<longleftrightarrow> started es = map Key bs \<and> finished es = handlersStarted es"

text \<open>What the loop does: the backups in order, one at a time; all of them exactly when it succeeds.\<close>

lemma restoreLoop_shape:
  assumes "restoreLoop start wait bs = (es, r)" and "\<forall>p. r \<noteq> Panic p"
  shows "one_at_a_time None es \<and> prefix (started es) (map Key bs) \<and>
    (\<forall>u \<in> set (updatesOf es). \<not> settles u) \<and> handlers_of (updatesOf es) = handlersStarted es \<and>
    total_of (updatesOf es) = 0 \<and> (r = Ok () \<longleftrightarrow> complete bs es)"
  using assms
proof (induction bs arbitrary: es r)
  case Nil
  then show ?case by (auto simp: complete_def)
next
  case (Cons b bs)
  show ?case
  proof (cases "start (Key b)")
    case (Ok handler)
    show ?thesis
    proof (cases "wait handler")
      case None
      obtain es' r' where l: "restoreLoop start wait bs = (es', r')" by (cases "restoreLoop start wait bs")
      then have "es = Started (Key b) handler # JobUpdate (AddHandler handler) # Finished handler # es'" "r = r'"
        using Cons.prems(1) Ok None by simp_all
      then show ?thesis using Cons.IH [OF l] Cons.prems(2) by (auto simp: complete_def)
    next
      case (Some e)
      then show ?thesis using Cons.prems(1) Ok by (auto simp: complete_def)
    qed
  qed (use Cons.prems in \<open>auto simp: complete_def\<close>)
qed

lemma total_of_AddTotal: "total_of (map (\<lambda>b. AddTotal (f b)) bs @ us) = sum_list (map f bs) + total_of us"
  by (induction bs) (simp_all add: add.assoc)

lemma handlers_of_AddTotal: "handlers_of (map (\<lambda>b. AddTotal (f b)) bs @ us) = handlers_of us"
  by (induction bs) simp_all

text \<open>
  The backups of a namespace are the full backup and what the reader finds in the bounds; \<open>None\<close>
  when the goroutine gives up before any is started.
\<close>

definition backupsOf :: "'e incremental_finder \<Rightarrow> RestoreTimestampRequest \<Rightarrow> BackupDetails \<Rightarrow> BackupDetails list option" where
  "backupsOf findIncremental request full =
     (case NewTimeBounds (Some (Created full)) (Some (rtTime request)) of
        Ok bounds \<Rightarrow>
          (case findIncremental bounds (Namespace full) of Ok bs \<Rightarrow> Some (full # bs) | _ \<Rightarrow> None)
      | _ \<Rightarrow> None)"

lemma restoreNamespace_shape:
  assumes "restoreNamespace env st config client errText findIncremental request full = (es, r)" and "\<forall>p. r \<noteq> Panic p"
  shows "one_at_a_time None es \<and> (\<forall>u \<in> set (updatesOf es). \<not> settles u) \<and>
    handlers_of (updatesOf es) = handlersStarted es \<and>
    (case backupsOf findIncremental request full of
       None \<Rightarrow> es = [] \<and> (\<exists>e. r = Err e)
     | Some bs \<Rightarrow> prefix (started es) (map Key bs) \<and> total_of (updatesOf es) = sum_list (map RecordCount bs) \<and>
         (r = Ok () \<longleftrightarrow> complete bs es))"
proof (cases "NewTimeBounds (Some (Created full)) (Some (rtTime request))")
  case (Ok bounds)
  show ?thesis
  proof (cases "findIncremental bounds (Namespace full)")
    case (Ok incr)
    obtain es' where l: "restoreLoop (restoreFromPath env st config client request) (rvWait env) (full # incr) = (es', r)"
      and es: "es = map (\<lambda>b. JobUpdate (AddTotal (RecordCount b))) (full # incr) @ es'"
      using assms(1) \<open>NewTimeBounds _ _ = Ok bounds\<close> Ok
      by (auto simp: restoreNamespace_def Let_def simp del: restoreLoop.simps split: prod.splits)
    have b: "backupsOf findIncremental request full = Some (full # incr)"
      by (simp add: backupsOf_def \<open>NewTimeBounds _ _ = Ok bounds\<close> Ok)
    show ?thesis
      using restoreLoop_shape [OF l assms(2)] unfolding es b
      by (auto simp: complete_def total_of_AddTotal [where us = "updatesOf es'"] handlers_of_AddTotal
          simp del: list.simps(9))
  qed (use assms Ok in \<open>auto simp: restoreNamespace_def backupsOf_def\<close>)
qed (use assms in \<open>auto simp: restoreNamespace_def backupsOf_def\<close>)

end
