(* ===== verification/RestoreProps.thy ===== *)
theory RestoreProps
  imports Restore
begin

text \<open>
  What a restore to a point in time does to the job and in which order it applies the backups,
  whatever the scheduler of its goroutines does; and where it looks for the configuration.
\<close>

section \<open>Traces of the goroutines\<close>

lemma updatesOf_append: "updatesOf (es @ fs) = updatesOf es @ updatesOf fs"
  by (induction es rule: updatesOf.induct) simp_all

lemma updatesOf_concat: "updatesOf (concat ts) = concat (map updatesOf ts)"
  by (induction ts) (simp_all add: updatesOf_append)

lemma mset_updatesOf: "mset es = mset fs \<Longrightarrow> mset (updatesOf es) = mset (updatesOf fs)"
proof -
  have "mset (updatesOf gs) = (\<Sum>e\<in>#mset gs. case e of JobUpdate u \<Rightarrow> {#u#} | _ \<Rightarrow> {#})" for gs
    by (induction gs rule: updatesOf.induct) simp_all
  then show "mset es = mset fs \<Longrightarrow> mset (updatesOf es) = mset (updatesOf fs)" by simp
qed

lemma total_of_concat: "total_of (concat us) = sum_list (map total_of us)"
  by (induction us) (simp_all add: total_of_append)

lemma handlers_of_concat: "handlers_of (concat us) = concat (map handlers_of us)"
  by (induction us) (simp_all add: handlers_of_append)

lemma firstPanic_None: "firstPanic rs = None \<longleftrightarrow> (\<forall>r \<in> set rs. \<forall>p. r \<noteq> Panic p)"
proof (induction rs)
  case (Cons r rs)
  then show ?case by (cases r) auto
qed simp

lemma namespaceErrors_Nil:
  "\<forall>(b, r) \<in> set brs. \<forall>p. r \<noteq> Panic p \<Longrightarrow> namespaceErrors routine brs = [] \<longleftrightarrow> (\<forall>(b, r) \<in> set brs. r = Ok ())"
  by (induction routine brs rule: namespaceErrors.induct) auto

text \<open>What \<open>MaybeUnwrap\<close> of the Prometheus library promises: an error exactly when one was collected.\<close>

definition unwraps :: "(string list \<Rightarrow> string option) \<Rightarrow> bool" where
  "unwraps u \<longleftrightarrow> (\<forall>es. u es = None \<longleftrightarrow> es = [])"

section \<open>The whole restore\<close>

text \<open>\<open>restoredAll\<close>: every namespace was restored completely in the trace.\<close>

definition restoredAll ::
  "'e incremental_finder \<Rightarrow> RestoreTimestampRequest \<Rightarrow> BackupDetails list \<Rightarrow> (nat \<times> restore_event) list \<Rightarrow> bool" where
  "restoredAll findIncremental request fulls tr \<longleftrightarrow>
     (\<forall>i < length fulls. \<exists>bs. backupsOf findIncremental request (fulls ! i) = Some bs \<and> complete bs (thread i tr))"

lemma sync_cases:
  assumes "restoreByTimeSync env config errText findIncremental request jobID fulls s = Ok (s', tr)"
  obtains (no_client) cm e where "GetClient (rvClients env) (rsClients s) (rtDestinationCuster request) = (cm, Err e)"
      and "s' = \<lparr>rsJobs = setFailed e jobID (rsJobs s), rsClients = cm\<rparr>" and "tr = []"
  | (restored) cm client runs jobs where
      "GetClient (rvClients env) (rsClients s) (rtDestinationCuster request) = (cm, Ok client)"
      and "runs = map (restoreNamespace env (cmStore cm) config client errText findIncremental request) fulls"
      and "\<forall>r \<in> set (map snd runs). \<forall>p. r \<noteq> Panic p"
      and "tr = interleaved (rvSched env) (map fst runs)"
      and "jobs = fold (apply_update jobID) (updatesOf (map snd tr)) (rsJobs s)"
      and "s' = \<lparr>rsJobs = (case rvUnwrap env (permuted (rvErrOrder env)
                    (namespaceErrors (rtRoutine request) (zip fulls (map snd runs)))) of
                  Some err \<Rightarrow> setFailed err jobID jobs | None \<Rightarrow> setDone jobID jobs),
                rsClients = Close cm client\<rparr>"
proof -
  obtain cm r where g: "GetClient (rvClients env) (rsClients s) (rtDestinationCuster request) = (cm, r)"
    by (cases "GetClient (rvClients env) (rsClients s) (rtDestinationCuster request)")
  show thesis
  proof (cases r)
    case (Ok client)
    let ?runs = "map (restoreNamespace env (cmStore cm) config client errText findIncremental request) fulls"
    have f: "firstPanic (map snd ?runs) = None"
      using assms g Ok by (auto simp: restoreByTimeSync_def Let_def split: option.splits)
    show thesis
      by (rule restored [OF g [unfolded Ok] refl f [unfolded firstPanic_None] _ refl])
        (use assms g Ok f in \<open>auto simp: restoreByTimeSync_def Let_def\<close>)
  qed (use assms g no_client in \<open>auto simp: restoreByTimeSync_def\<close>)
qed

text \<open>Each thread of the trace is the run of its namespace.\<close>

lemma restored_threads:
  assumes "runs = map (restoreNamespace env st config client errText findIncremental request) fulls"
    and "tr = interleaved sched (map fst runs)" and "i < length fulls"
  shows "restoreNamespace env st config client errText findIncremental request (fulls ! i) = (thread i tr, snd (runs ! i))"
proof -
  have "is_interleaving tr (map fst runs)" unfolding assms(2) by (rule interleaved_ok)
  then have "thread i tr = fst (runs ! i)" using assms(1,3) by (simp add: is_interleaving_thread)
  then show ?thesis using assms(1,3) by simp
qed

lemma restored_no_Panic:
  assumes "runs = map (restoreNamespace env st config client errText findIncremental request) fulls"
    and "\<forall>r \<in> set (map snd runs). \<forall>p. r \<noteq> Panic p" and "i < length fulls"
  shows "\<forall>p. snd (runs ! i) \<noteq> Panic p"
proof -
  have "i < length runs" using assms(1,3) by simp
  then have "snd (runs ! i) \<in> set (map snd runs)" by simp
  then show ?thesis using assms(2) by blast
qed

lemma restored_updates:
  assumes "runs = map (restoreNamespace env st config client errText findIncremental request) fulls"
    and "\<forall>r \<in> set (map snd runs). \<forall>p. r \<noteq> Panic p" and "tr = interleaved sched (map fst runs)"
  shows "\<forall>u \<in> set (updatesOf (map snd tr)). \<not> settles u"
    and "mset (handlers_of (updatesOf (map snd tr))) = mset (concat (map (handlersStarted \<circ> fst) runs))"
    and "total_of (updatesOf (map snd tr)) =
      sum_list (map (\<lambda>full. case backupsOf findIncremental request full of None \<Rightarrow> 0 | Some bs \<Rightarrow> sum_list (map RecordCount bs)) fulls)"
proof -
  have shape: "one_at_a_time None es \<and> (\<forall>u \<in> set (updatesOf es). \<not> settles u) \<and>
    handlers_of (updatesOf es) = handlersStarted es \<and>
    (case backupsOf findIncremental request full of
       None \<Rightarrow> es = [] \<and> (\<exists>e. r = Err e)
     | Some bs \<Rightarrow> prefix (started es) (map Key bs) \<and> total_of (updatesOf es) = sum_list (map RecordCount bs) \<and>
         (r = Ok () \<longleftrightarrow> complete bs es))"
    if "full \<in> set fulls" and "restoreNamespace env st config client errText findIncremental request full = (es, r)" for full es r
    using restoreNamespace_shape [OF that(2)] assms(1,2) that by force
  have "is_interleaving tr (map fst runs)" unfolding assms(3) by (rule interleaved_ok)
  then have m: "mset (map snd tr) = mset (concat (map fst runs))" by (rule mset_interleaving)
  have u: "mset (updatesOf (map snd tr)) = mset (concat (map (updatesOf \<circ> fst) runs))"
    using mset_updatesOf [OF m] by (simp add: updatesOf_concat)
  have "\<not> settles x" if e: "x \<in> set (concat (map (updatesOf \<circ> fst) runs))" for x
  proof -
    obtain r where "r \<in> set runs" "x \<in> set (updatesOf (fst r))" using e by auto
    then obtain full where f: "full \<in> set fulls"
      "x \<in> set (updatesOf (fst (restoreNamespace env st config client errText findIncremental request full)))"
      unfolding assms(1) by auto
    show ?thesis using shape [OF f(1) surjective_pairing] f(2) by blast
  qed
  then show "\<forall>u \<in> set (updatesOf (map snd tr)). \<not> settles u" using mset_eq_setD [OF u] by blast
  have "map (handlers_of \<circ> (updatesOf \<circ> fst)) runs = map (handlersStarted \<circ> fst) runs"
    using shape [OF _ surjective_pairing] unfolding assms(1) by simp
  then show "mset (handlers_of (updatesOf (map snd tr))) = mset (concat (map (handlersStarted \<circ> fst) runs))"
    using handlers_of_mset [OF u] by (simp only: handlers_of_concat map_map)
  have "total_of (updatesOf (fst (restoreNamespace env st config client errText findIncremental request full))) =
      (case backupsOf findIncremental request full of None \<Rightarrow> 0 | Some bs \<Rightarrow> sum_list (map RecordCount bs))"
    if "full \<in> set fulls" for full
    using shape [OF that surjective_pairing] by (cases "backupsOf findIncremental request full") simp_all
  then have t: "map (total_of \<circ> (updatesOf \<circ> fst)) runs = map (\<lambda>full. case backupsOf findIncremental request full of
      None \<Rightarrow> 0 | Some bs \<Rightarrow> sum_list (map RecordCount bs)) fulls"
    unfolding assms(1) by simp
  show "total_of (updatesOf (map snd tr)) =
      sum_list (map (\<lambda>full. case backupsOf findIncremental request full of None \<Rightarrow> 0 | Some bs \<Rightarrow> sum_list (map RecordCount bs)) fulls)"
    using total_of_mset [OF u] t by (simp add: total_of_concat)
qed

section \<open>The order of the backups\<close>

text \<open>
  What the interface of the lists gives the restore of a namespace: the backups applied are those
  of one namespace, in the order of their creation, none later than the time asked for.
\<close>

context backup_list_reader
begin

lemma backups_in_order:
  assumes "backupsOf find_incr request full = Some bs"
  shows "sorted (map Created bs)" and "hd bs = full" and "x \<in> set bs \<Longrightarrow> Namespace x = Namespace full"
    and "x \<in> set bs \<Longrightarrow> Created x \<le> rtTime request"
proof -
  obtain bounds incr where b: "NewTimeBounds (Some (Created full)) (Some (rtTime request)) = Ok bounds"
    and i: "find_incr bounds (Namespace full) = Ok incr" and bs: "bs = full # incr"
    using assms by (auto simp: backupsOf_def split: outcome.splits)
  have bd: "bounds = \<lparr>FromTime = Some (Created full), ToTime = Some (rtTime request)\<rparr>" "Created full \<le> rtTime request"
    using b by (auto simp: NewTimeBounds_def split: if_splits)
  note p = incr_found_props [OF i]
  have "Created full \<le> Created x \<and> Created x \<le> rtTime request \<and> Namespace x = Namespace full" if "x \<in> set incr" for x
    using p(2) [OF that] by (simp add: bd(1) Contains_iff lower_ok_def upper_ok_def)
  then show "sorted (map Created bs)" "hd bs = full" "x \<in> set bs \<Longrightarrow> Namespace x = Namespace full"
    "x \<in> set bs \<Longrightarrow> Created x \<le> rtTime request"
    using p(1) bd(2) by (auto simp: bs)
qed

end

lemma thread_Nil [simp]: "thread i [] = []"
  by (simp add: thread_def)

section \<open>Properties\<close>

text \<open>
  C5: A restore to a point in time applies to each namespace its full backup first and then its
  incremental backups in the order of their creation, none of them later than the time asked for.
  Each is started only when the one before it has finished, and when one fails, the later ones
  are not started. This holds for every scheduling of the goroutines of the namespaces.
\<close>

theorem restore_by_time_order:
  assumes "restoreByTimeSync env config errText
             (FindIncrementalBackupsForNamespace pick (rvCodec env) (rvStorage env) st reader) request jobID fulls s = Ok (s', tr)"
    and "i < length fulls" and "started (thread i tr) \<noteq> []"
  shows "\<exists>bs. backupsOf (FindIncrementalBackupsForNamespace pick (rvCodec env) (rvStorage env) st reader) request (fulls ! i) = Some bs \<and>
    prefix (started (thread i tr)) (map Key bs) \<and> one_at_a_time None (thread i tr) \<and>
    hd bs = fulls ! i \<and> sorted (map Created bs) \<and>
    (\<forall>x \<in> set bs. Namespace x = Namespace (fulls ! i) \<and> Created x \<le> rtTime request)"
  using assms(1)
proof (cases rule: sync_cases)
  case no_client
  then show ?thesis using assms(3) by simp
next
  case (restored cm client runs jobs)
  let ?f = "FindIncrementalBackupsForNamespace pick (rvCodec env) (rvStorage env) st reader"
  note run = restored_threads [OF restored(2,4) assms(2)]
  note shape = restoreNamespace_shape [OF run restored_no_Panic [OF restored(2,3) assms(2)]]
  obtain bs where bs: "backupsOf ?f request (fulls ! i) = Some bs"
    using shape assms(3) by (cases "backupsOf ?f request (fulls ! i)") auto
  note order = backend.backups_in_order [OF bs]
  show ?thesis using shape order bs by (intro exI [of _ bs]) simp
qed

text \<open>What the runs of the namespaces and the trace say of each other.\<close>

lemma restored_outcome:
  assumes runs: "runs = map (restoreNamespace env st config client errText findIncremental request) fulls"
    and nopanic: "\<forall>r \<in> set (map snd runs). \<forall>p. r \<noteq> Panic p"
    and tr: "tr = interleaved sched (map fst runs)" and unwraps: "unwraps unwrap"
  shows "unwrap (permuted pick (namespaceErrors routine (zip fulls (map snd runs)))) = None \<longleftrightarrow> restoredAll findIncremental request fulls tr"
    and "map (handlersStarted \<circ> fst) runs = map (\<lambda>i. handlersStarted (thread i tr)) [0..<length fulls]"
proof -
  have len: "length runs = length fulls" using runs by simp
  have run: "restoreNamespace env st config client errText findIncremental request (fulls ! i) = (thread i tr, snd (runs ! i))"
    if "i < length fulls" for i
    using restored_threads [OF runs tr that] .
  note np = restored_no_Panic [OF runs nopanic]
  have "snd (runs ! i) = Ok () \<longleftrightarrow> (\<exists>bs. backupsOf findIncremental request (fulls ! i) = Some bs \<and> complete bs (thread i tr))"
    if "i < length fulls" for i
    using restoreNamespace_shape [OF run [OF that] np [OF that]]
    by (cases "backupsOf findIncremental request (fulls ! i)") auto
  then have all: "restoredAll findIncremental request fulls tr \<longleftrightarrow> (\<forall>i < length fulls. snd (runs ! i) = Ok ())"
    by (auto simp: restoredAll_def)
  have "\<forall>p. r \<noteq> Panic p" if "(b, r) \<in> set (zip fulls (map snd runs))" for b r
    using bspec [OF nopanic set_zip_rightD [OF that]] .
  then have "\<forall>(b, r) \<in> set (zip fulls (map snd runs)). \<forall>p. r \<noteq> Panic p" by blast
  from namespaceErrors_Nil [OF this, of routine]
  have "namespaceErrors routine (zip fulls (map snd runs)) = [] \<longleftrightarrow> (\<forall>i < length fulls. snd (runs ! i) = Ok ())"
    using len by (simp add: all_set_conv_all_nth split_beta)
  then show "unwrap (permuted pick (namespaceErrors routine (zip fulls (map snd runs)))) = None \<longleftrightarrow> restoredAll findIncremental request fulls tr"
    using unwraps unfolding unwraps_def all by (metis length_0_conv length_permuted)
  show "map (handlersStarted \<circ> fst) runs = map (\<lambda>i. handlersStarted (thread i tr)) [0..<length fulls]"
  proof (rule nth_equalityI)
    fix i
    assume "i < length (map (handlersStarted \<circ> fst) runs)"
    then have i: "i < length fulls" using len by simp
    have "fst (runs ! i) = thread i tr"
      using run [OF i] runs i by (metis fst_conv nth_map)
    then show "map (handlersStarted \<circ> fst) runs ! i = map (\<lambda>i. handlersStarted (thread i tr)) [0..<length fulls] ! i"
      using i len by simp
  qed (simp add: len)
qed

text \<open>
  C17: When the goroutine of a restore to a point in time has ended, its job is settled: it is done
  exactly when every namespace was restored completely, and failed with an error otherwise. The
  job's handlers are those of the restores that were started, each once, and its total is the sum
  of the records of all backups to apply, whatever the scheduling.
\<close>

theorem restore_by_time_settles:
  assumes "restoreByTimeSync env config errText findIncremental request jobID fulls s = Ok (s', tr)"
    and "unwraps (rvUnwrap env)" and "lookup (rsJobs s) jobID = Some job"
    and "jiHandlers job = []" and "jiTotalRecords job = 0" and "jiErr job = None"
    and "fulls \<noteq> []"
  shows "\<exists>job'. lookup (rsJobs s') jobID = Some job' \<and>
    (jiStatus job' = JobStatusDone \<longleftrightarrow> restoredAll findIncremental request fulls tr) \<and>
    (jiStatus job' = JobStatusFailed \<longleftrightarrow> jiErr job' \<noteq> None) \<and> jiStatus job' \<noteq> JobStatusRunning \<and>
    mset (jiHandlers job') = mset (concat (map (\<lambda>i. handlersStarted (thread i tr)) [0..<length fulls])) \<and>
    (tr \<noteq> [] \<longrightarrow> jiTotalRecords job' = sum_list (map (\<lambda>full. case backupsOf findIncremental request full of
       None \<Rightarrow> 0 | Some bs \<Rightarrow> sum_list (map RecordCount bs)) fulls)) \<and>
    (\<forall>x. x \<noteq> jobID \<longrightarrow> lookup (rsJobs s') x = lookup (rsJobs s) x)"
  using assms(1)
proof (cases rule: sync_cases)
  case (no_client cm e)
  have "\<not> complete bs []" if "backupsOf findIncremental request (fulls ! 0) = Some bs" for bs
    using that by (auto simp: complete_def backupsOf_def split: outcome.splits)
  then have "\<not> restoredAll findIncremental request fulls tr" using assms(7) no_client by (auto simp: restoredAll_def)
  then show ?thesis using assms(3,4) no_client
    by (auto simp: setFailed_def with_job_lookup concat_eq_Nil_conv)
next
  case (restored cm client runs jobs)
  note u = restored_updates [OF restored(2,3,4)]
  let ?us = "updatesOf (map snd tr)"
  let ?err = "rvUnwrap env (permuted (rvErrOrder env) (namespaceErrors (rtRoutine request) (zip fulls (map snd runs))))"
  note out = restored_outcome(1) [OF restored(2,3,4) assms(2), of "rvErrOrder env" "rtRoutine request"]
    restored_outcome(2) [OF restored(2,3,4) assms(2)]
  have j: "lookup jobs jobID = Some (fold update_job ?us job)" "x \<noteq> jobID \<Longrightarrow> lookup jobs x = lookup (rsJobs s) x" for x
    using assms(3) by (simp_all add: restored(5) apply_updates_lookup)
  have fu: "fold update_job ?us job = job\<lparr>jiHandlers := handlers_of ?us, jiTotalRecords := total_of ?us\<rparr>"
    using updates_unsettled [OF u(1), of job] assms(4,5) by simp
  have h: "mset (handlers_of ?us) = mset (concat (map (\<lambda>i. handlersStarted (thread i tr)) [0..<length fulls]))"
    using u(2) out(2) by simp
  show ?thesis
    using j fu h out(1) assms(6) restored(6) u(3)
    by (cases ?err) (auto simp: setFailed_def setDone_def with_job_lookup)
qed

text \<open>
  A restore gives back the client it took, also when it fails: the pool of clients is the one
  before, for both kinds of restore.
\<close>

theorem restore_releases_client:
  assumes "pool_inv (rsClients s) ls" and "length ls + 1 < 2 ^ 64"
  shows "(restoreByTimeSync env config errText findIncremental request jobID fulls s = Ok (s1, tr) \<longrightarrow> pool_inv (rsClients s1) ls) \<and>
    (restoreSync env jobID n path_request s = Ok s2 \<longrightarrow> pool_inv (rsClients s2) ls)"
proof (intro conjI impI)
  have bracket: "pool_inv (Close cm client) ls" if "GetClient lib (rsClients s) p = (cm, Ok client)" for lib p cm client
    using manager.bracket [OF assms that] by simp
  have failed: "pool_inv cm ls" if "GetClient lib (rsClients s) p = (cm, Err e)" for lib p cm e
    using manager.get_other [OF assms(1) that] by simp
  show "pool_inv (rsClients s1) ls"
    if "restoreByTimeSync env config errText findIncremental request jobID fulls s = Ok (s1, tr)"
    using that by (cases rule: sync_cases) (auto dest: bracket failed)
  show "pool_inv (rsClients s2) ls" if "restoreSync env jobID n path_request s = Ok s2"
    using that unfolding restoreSync_def Let_def
    by (auto dest: bracket failed split: prod.splits outcome.splits option.splits)
qed

section \<open>A concrete restore\<close>

definition demo_env :: restore_env where
  "demo_env = \<lparr>rvStorage = demo_lib, rvLib = demo_backup_lib,
     rvClients = demo_client_lib\<lparr>clConnect := (\<lambda>n policy hosts. Ok 100)\<rparr>, rvCodec = demo_yaml,
     rvWait = (\<lambda>h. None), rvUnwrap = (\<lambda>es. if es = [] then None else Some (concat es)),
     rvTimeText = (\<lambda>t. ''t''), rvUrlParse = (\<lambda>s. Ok ([], s)), rvSched = (\<lambda>ts. []), rvErrOrder = (\<lambda>es. es)\<rparr>"

definition demo_restore_store :: store where
  "demo_restore_store = demo_store\<lparr>stClusters := [7 \<mapsto> demo_cluster\<lparr>acTLS := None\<rparr>]\<rparr>"

definition demo_restore_config :: Config where
  "demo_restore_config = NewConfig\<lparr>cfBackupRoutines := [(''r'', Some 0)]\<rparr>"

definition demo_restore_state :: restore_state where
  "demo_restore_state = \<lparr>rsJobs = newJob 5 (Time 0) ''r'' [], rsClients = NewClientManager demo_restore_store\<rparr>"

definition demo_time_request :: RestoreTimestampRequest where
  "demo_time_request = \<lparr>rtDestinationCuster = Some 7, rtPolicy = restorePolicyToModel (Some demo_restore_policy),
     rtSecretAgent = None, rtTime = timeUnixMilli 30, rtRoutine = ''r''\<rparr>"

abbreviation "demo_finder \<equiv> FindIncrementalBackupsForNamespace (\<lambda>xs. xs) (rvCodec demo_env) (rvStorage demo_env)
  demo_restore_store demo_backend"

definition demo_fulls :: "BackupDetails list" where
  "demo_fulls = [toDetails demo_backend (fullBackupsPath demo_backend) True (demo_metadata 20 ''ns'')]"

lemma demo_sync:
  "case restoreByTimeSync demo_env demo_restore_config (backendText (\<lambda>t. ''t'')) demo_finder demo_time_request 5
      demo_fulls demo_restore_state of
     Ok (s', tr) \<Rightarrow> started (thread 0 tr) = [''r/backup/20/data/ns'', ''r/incremental/20/data/ns'']
   | _ \<Rightarrow> False"
  by code_simp

theorem restore_by_time_order_witness:
  "\<exists>s' tr (bs :: BackupDetails list). restoreByTimeSync demo_env demo_restore_config (backendText (\<lambda>t. ''t'')) demo_finder demo_time_request 5
      demo_fulls demo_restore_state = Ok (s', tr) \<and>
    started (thread 0 tr) = [''r/backup/20/data/ns'', ''r/incremental/20/data/ns''] \<and>
    prefix (started (thread 0 tr)) (map Key bs) \<and> sorted (map Created bs)"
proof -
  obtain s' tr where r: "restoreByTimeSync demo_env demo_restore_config (backendText (\<lambda>t. ''t'')) demo_finder demo_time_request 5
      demo_fulls demo_restore_state = Ok (s', tr)"
    and t: "started (thread 0 tr) = [''r/backup/20/data/ns'', ''r/incremental/20/data/ns'']"
    using demo_sync by (auto split: outcome.splits prod.splits)
  have "0 < length demo_fulls" "started (thread 0 tr) \<noteq> []" using t by (simp_all add: demo_fulls_def)
  from restore_by_time_order [OF r this] obtain bs :: "BackupDetails list" where
    b: "prefix (started (thread 0 tr)) (map Key bs)" "sorted (map Created bs)" by auto
  show ?thesis by (rule exI [of _ s'], rule exI [of _ tr], rule exI [of _ bs]) (use r t b in simp)
qed

lemma demo_job: "lookup (rsJobs demo_restore_state) 5 = Some \<lparr>jiHandlers = [], jiStatus = JobStatusRunning, jiErr = None,
    jiTotalRecords = 0, jiStartTime = Time 0, jiLabel = ''r''\<rparr>"
  by (simp add: demo_restore_state_def newJob_def)

theorem restore_by_time_settles_witness:
  "\<exists>s' tr job'. restoreByTimeSync demo_env demo_restore_config (backendText (\<lambda>t. ''t'')) demo_finder demo_time_request 5
      demo_fulls demo_restore_state = Ok (s', tr) \<and>
    lookup (rsJobs s') 5 = Some job' \<and> jiStatus job' \<noteq> JobStatusRunning \<and>
    (jiStatus job' = JobStatusDone \<longleftrightarrow> restoredAll demo_finder demo_time_request demo_fulls tr)"
proof -
  obtain s' tr where r: "restoreByTimeSync demo_env demo_restore_config (backendText (\<lambda>t. ''t'')) demo_finder demo_time_request 5
      demo_fulls demo_restore_state = Ok (s', tr)"
    using demo_sync by (auto split: outcome.splits prod.splits)
  have "unwraps (rvUnwrap demo_env)" "demo_fulls \<noteq> []" by (simp_all add: unwraps_def demo_env_def demo_fulls_def)
  from restore_by_time_settles [OF r this(1) demo_job _ _ _ this(2)] show ?thesis using r by auto
qed

theorem restore_releases_client_witness:
  "\<exists>s' tr. restoreByTimeSync demo_env demo_restore_config (backendText (\<lambda>t. ''t'')) demo_finder demo_time_request 5
      demo_fulls demo_restore_state = Ok (s', tr) \<and> pool_inv (rsClients s') []"
proof -
  obtain s' tr where r: "restoreByTimeSync demo_env demo_restore_config (backendText (\<lambda>t. ''t'')) demo_finder demo_time_request 5
      demo_fulls demo_restore_state = Ok (s', tr)"
    using demo_sync by (auto split: outcome.splits prod.splits)
  have "pool_inv (rsClients demo_restore_state) []" by (simp add: demo_restore_state_def pool_inv_new)
  from restore_releases_client [OF this, of demo_env demo_restore_config "backendText (\<lambda>t. ''t'')" demo_finder
      demo_time_request 5 demo_fulls s' tr] show ?thesis using r by auto
qed

section \<open>The configuration of the cluster\<close>

lemma join_slash_snoc: "ws \<noteq> [] \<Longrightarrow> join_slash (ws @ [w]) = join_slash ws @ CHR ''/'' # w"
  by (induction ws rule: join_slash.induct) simp_all

lemma split_slash_end: "split_slash (s @ [CHR ''/'']) = split_slash s @ [[]]"
  by (induction s) (auto split: list.splits)

lemma Clean_end:
  assumes "ws \<noteq> []" and "\<forall>w \<in> set ws. plain w"
  shows "Clean (join_slash ws @ [CHR ''/'']) = join_slash ws"
proof -
  have "\<forall>w \<in> set ws. CHR ''/'' \<notin> set w" using assms(2) by (auto simp: plain_def)
  then have "split_slash (join_slash ws @ [CHR ''/'']) = ws @ [[]]"
    using assms(1) by (simp add: split_slash_end split_join_slash)
  then show ?thesis
    using assms hd_join_slash [OF assms] join_slash_eq_Nil [OF assms(2)]
    by (simp add: Clean_def foldl_push_plain hd_append del: push.simps) (simp add: foldl_push_plain)
qed

lemma Dir_join_plain:
  assumes "ws \<noteq> []" and "\<forall>w \<in> set ws. plain w" and "plain w"
  shows "Dir (join_slash (ws @ [w])) = join_slash ws"
proof -
  have "CHR ''/'' \<notin> set (rev w)" using assms(3) by (simp add: plain_def)
  then have "dropWhile (\<lambda>c. c \<noteq> CHR ''/'') (rev w @ CHR ''/'' # rev (join_slash ws)) = CHR ''/'' # rev (join_slash ws)"
    by (subst dropWhile_append2) auto
  then show ?thesis using assms by (simp add: Dir_def join_slash_snoc Clean_end)
qed

lemma formatTime_plain: "plain (formatTime t)"
proof -
  have d: "is_digit c" if "c \<in> set (nat_string n)" for c n using that by (rule nat_string_digits)
  have "CHR ''/'' \<notin> set (nat_string n)" "CHR ''.'' \<notin> set (nat_string n)" for n
    using d [of "CHR ''/''" n] d [of "CHR ''.''" n] by (auto simp: is_digit_def)
  then have "nat_string n \<noteq> ''.''" "nat_string n \<noteq> ''..''" "CHR ''/'' \<notin> set (nat_string n)" for n
    by (metis list.set_intros(1))+
  then show ?thesis by (simp add: plain_def formatTime_def FormatInt_def)
qed

lemma plain_dirs: "plain FullBackupDirectory" "plain DataDirectory" "plain ConfigurationBackupDirectory"
  by (simp_all add: plain_def directory_defs)

text \<open>
  C27: The configuration files that belong to a point in time are looked for in the directory they
  were written to: the directory computed from the key of the full backup is the one of
  \<open>getConfigurationFile\<close> for the routine and the time of the backup. Names must be plain path
  elements, and \<open>url.Parse\<close> must leave the key as it is, as it does for keys of unreserved
  characters.
\<close>

theorem configuration_found:
  assumes "plain name" and "plain ns"
    and "rvUrlParse env (getFullPath (Join [name, FullBackupDirectory]) policy ns t) =
      Ok ([], getFullPath (Join [name, FullBackupDirectory]) policy ns t)"
  shows "\<exists>dir. calculateConfigurationBackupPath env (getFullPath (Join [name, FullBackupDirectory]) policy ns t) = Ok dir \<and>
    (\<forall>i. getConfigurationFile (Join [name, FullBackupDirectory]) policy t i = Join [dir, getConfigFileName i])"
proof -
  define ws where "ws = (if RemoveFullBackup (bpRemoveFiles policy) then [name, FullBackupDirectory]
     else [name, FullBackupDirectory, formatTime t])"
  have pw: "ws \<noteq> []" "\<forall>w \<in> set ws. plain w" using assms(1) by (simp_all add: ws_def plain_dirs formatTime_plain)
  have root: "Join [name, FullBackupDirectory] = join_slash [name, FullBackupDirectory]"
    by (rule Join_plain) (simp_all add: assms(1) plain_dirs)
  let ?key = "getFullPath (Join [name, FullBackupDirectory]) policy ns t"
  have key: "?key = join_slash (ws @ [DataDirectory, ns])"
    unfolding root by (simp add: getFullPath_def ws_def)
  have two: "join_slash (ws @ [DataDirectory, ns]) = join_slash ((ws @ [DataDirectory]) @ [ns])" by simp
  have dir: "Dir (Dir ?key) = join_slash ws"
    unfolding key two using pw assms(2) plain_dirs
    by (simp add: Dir_join_plain [of "ws @ [DataDirectory]"] Dir_join_plain del: append_assoc)
  have ne: "\<not> HasPrefix ?key ''/''"
  proof -
    have "hd ?key \<noteq> CHR ''/''" "?key \<noteq> []"
      using pw assms(2) plain_dirs hd_join_slash [of "ws @ [DataDirectory, ns]"]
        join_slash_eq_Nil [of "ws @ [DataDirectory, ns]"] by (auto simp: key)
    then show ?thesis by (cases ?key) (auto simp: HasPrefix_def)
  qed
  have "Join [join_slash ws, ConfigurationBackupDirectory] = Clean (join_slash (ws @ [ConfigurationBackupDirectory]))"
    using pw join_slash_eq_Nil [OF pw(2)] by (simp add: Join_def join_slash_snoc)
  also have "\<dots> = join_slash (ws @ [ConfigurationBackupDirectory])"
    by (rule Clean_join_plain) (use pw plain_dirs in auto)
  finally have j: "Join [join_slash ws, ConfigurationBackupDirectory] = join_slash (ws @ [ConfigurationBackupDirectory])" .
  have "calculateConfigurationBackupPath env ?key = Ok (join_slash (ws @ [ConfigurationBackupDirectory]))"
    using assms(3) ne dir j by (simp add: calculateConfigurationBackupPath_def ParseS3Path_def Let_def)
  moreover have "getConfigurationFile (Join [name, FullBackupDirectory]) policy t i =
      Join [join_slash (ws @ [ConfigurationBackupDirectory]), getConfigFileName i]" for i
    unfolding root by (simp add: getConfigurationFile_def ws_def Let_def)
  ultimately show ?thesis by blast
qed

theorem configuration_found_witness:
  "calculateConfigurationBackupPath demo_env ''r/backup/20/data/ns'' = Ok ''r/backup/20/configuration''"
proof -
  let ?p = "backupPolicyToModel newBackupPolicy" and ?t = "timeUnixMilli 20"
  have "plain ''r''" "plain ''ns''" by (simp_all add: plain_def)
  moreover have "rvUrlParse demo_env x = Ok ([], x)" for x by (simp add: demo_env_def)
  ultimately obtain dir where d: "calculateConfigurationBackupPath demo_env (getFullPath (Join [''r'', FullBackupDirectory]) ?p ''ns'' ?t) = Ok dir"
    using configuration_found [of "''r''" "''ns''" demo_env ?p ?t] by blast
  have k: "getFullPath (Join [''r'', FullBackupDirectory]) ?p ''ns'' ?t = ''r/backup/20/data/ns''" by code_simp
  have "calculateConfigurationBackupPath demo_env ''r/backup/20/data/ns'' = Ok ''r/backup/20/configuration''" by code_simp
  then show ?thesis using d unfolding k by simp
qed

end
