(* ===== verification/Retry.thy ===== *)
theory Retry
  imports RestoreProps
begin

text \<open>
  \<open>pkg/service/retry_service.go\<close>: running a function again after an interval, up to a number of
  times. \<open>retry\<close> holds the service's mutex while it runs the function. A timer that fires starts a
  goroutine that calls \<open>retry\<close> and waits for the mutex, as a new caller does; stopping a timer has
  no effect on a goroutine it has already started.
\<close>

section \<open>The service\<close>

text \<open>
  A call of \<open>retry\<close> is the function, as a number, and the remaining number of retries. The state
  holds the call the armed timer will make and the calls that wait for the mutex.
\<close>

type_synonym retry_call = "nat \<times> int32"

record RetryService =
  rtTimer :: "retry_call option"
  rtWaiting :: "retry_call list"

definition NewRetryService :: RetryService where
  "NewRetryService = \<lparr>rtTimer = None, rtWaiting = []\<rparr>"

definition clearTimer :: "RetryService \<Rightarrow> RetryService" where
  "clearTimer r = r\<lparr>rtTimer := None\<rparr>"

text \<open>The body of \<open>retry\<close> once it has the mutex; \<open>failed\<close> is whether the function returned an error.\<close>

definition retry :: "nat \<Rightarrow> int32 \<Rightarrow> bool \<Rightarrow> RetryService \<Rightarrow> RetryService" where
  "retry f n failed r =
     (let r = clearTimer r in
      if \<not> failed then r
      else if n = 0 then r
      else r\<lparr>rtTimer := Some (f, n - 1)\<rparr>)"

text \<open>
  What happens to the service: a caller arrives, the timer fires, a waiting call gets the mutex.
  \<open>None\<close> is an event that is not possible in the state.
\<close>

datatype retry_event = Call nat int32 | Fire | Attempt nat bool

fun retry_step :: "retry_event \<Rightarrow> RetryService \<Rightarrow> RetryService option" where
  "retry_step (Call f n) r = Some (r\<lparr>rtWaiting := rtWaiting r @ [(f, n)]\<rparr>)"
| "retry_step Fire r =
     (case rtTimer r of
        None \<Rightarrow> None
      | Some c \<Rightarrow> Some (r\<lparr>rtTimer := None, rtWaiting := rtWaiting r @ [c]\<rparr>))"
| "retry_step (Attempt i failed) r =
     (if i < length (rtWaiting r)
      then Some (retry (fst (rtWaiting r ! i)) (snd (rtWaiting r ! i)) failed
             (r\<lparr>rtWaiting := take i (rtWaiting r) @ drop (Suc i) (rtWaiting r)\<rparr>))
      else None)"

fun retry_run :: "retry_event list \<Rightarrow> RetryService \<Rightarrow> RetryService option" where
  "retry_run [] r = Some r"
| "retry_run (e # es) r = (case retry_step e r of None \<Rightarrow> None | Some r \<Rightarrow> retry_run es r)"

section \<open>Attempts\<close>

definition budget :: "retry_call \<Rightarrow> nat" where
  "budget c = Suc (unat (snd c))"

definition budgets :: "RetryService \<Rightarrow> nat" where
  "budgets r = sum_list (map budget (rtWaiting r)) + (case rtTimer r of None \<Rightarrow> 0 | Some c \<Rightarrow> budget c)"

fun called :: "retry_event list \<Rightarrow> nat" where
  "called [] = 0"
| "called (Call f n # es) = budget (f, n) + called es"
| "called (e # es) = called es"

fun attempts :: "retry_event list \<Rightarrow> nat" where
  "attempts [] = 0"
| "attempts (Attempt i failed # es) = Suc (attempts es)"
| "attempts (e # es) = attempts es"

lemma unat_minus_1: "n \<noteq> 0 \<Longrightarrow> Suc (unat (n - 1)) = unat (n :: int32)"
  by (metis Suc_pred' unat_minus_one unat_gt_0)

lemma sum_list_remove_nth:
  "i < length xs \<Longrightarrow> sum_list (map f (take i xs @ drop (Suc i) xs)) + f (xs ! i) = (sum_list (map f xs) :: nat)"
  by (subst (3) id_take_nth_drop [of i]) (simp_all)

lemma budget_step:
  assumes "retry_step e r = Some r'"
  shows "budgets r' + attempts [e] \<le> budgets r + called [e]"
proof (cases e)
  case (Attempt i failed)
  let ?c = "rtWaiting r ! i" and ?rest = "take i (rtWaiting r) @ drop (Suc i) (rtWaiting r)"
  have i: "i < length (rtWaiting r)" and r': "r' = retry (fst ?c) (snd ?c) failed (r\<lparr>rtWaiting := ?rest\<rparr>)"
    using assms by (simp_all add: Attempt split: if_splits)
  have s: "sum_list (map budget ?rest) + budget ?c = sum_list (map budget (rtWaiting r))"
    by (rule sum_list_remove_nth [OF i])
  have "budgets r' + 1 \<le> sum_list (map budget ?rest) + budget ?c"
    using unat_minus_1 [of "snd ?c"]
    by (auto simp: r' retry_def clearTimer_def budgets_def budget_def Let_def)
  then show ?thesis using s by (simp add: Attempt budgets_def)
qed (use assms in \<open>auto simp: budgets_def split: option.splits\<close>)

lemma budget_run: "retry_run es r = Some r' \<Longrightarrow> budgets r' + attempts es \<le> budgets r + called es"
proof (induction es arbitrary: r)
  case (Cons e es)
  obtain r1 where r1: "retry_step e r = Some r1" "retry_run es r1 = Some r'"
    using Cons.prems by (auto split: option.splits)
  have "attempts (e # es) = attempts [e] + attempts es" "called (e # es) = called [e] + called es"
    by (cases e; simp)+
  then show ?case using Cons.IH [OF r1(2)] budget_step [OF r1(1)] by linarith
qed simp

text \<open>
  C20: However callers and timers interleave, a function is attempted at most once more than the
  number of retries it was given, for each call: the attempts end. A service with an armed timer
  or a waiting call still has attempts left.
\<close>

theorem attempts_bounded:
  assumes "retry_run es NewRetryService = Some r"
  shows "attempts es + budgets r \<le> called es \<and> (budgets r = 0 \<longleftrightarrow> rtTimer r = None \<and> rtWaiting r = [])"
  using budget_run [OF assms]
  by (cases "rtWaiting r"; cases "rtTimer r") (auto simp: budgets_def budget_def NewRetryService_def)

theorem attempts_bounded_witness:
  "\<exists>r. retry_run [Call 1 2, Attempt 0 True, Fire, Attempt 0 True, Fire, Attempt 0 True] NewRetryService = Some r \<and>
     attempts [Call 1 2, Attempt 0 True, Fire, Attempt 0 True, Fire, Attempt 0 True] + budgets r \<le> 3 \<and>
     rtTimer r = None \<and> rtWaiting r = []"
proof -
  let ?es = "[Call 1 2, Attempt 0 True, Fire, Attempt 0 True, Fire, Attempt 0 True]"
  have "retry_run ?es NewRetryService = Some NewRetryService" by code_simp
  from attempts_bounded [OF this] show ?thesis using \<open>retry_run ?es NewRetryService = Some NewRetryService\<close>
    by (simp add: budget_def NewRetryService_def)
qed

text \<open>The events of one call whose function always fails and whose timers all fire.\<close>

function failing_run :: "int32 \<Rightarrow> retry_event list" where
  "failing_run n = (if n = 0 then [Attempt 0 True] else Attempt 0 True # Fire # failing_run (n - 1))"
  by auto

termination
proof (relation "measure unat")
  show "(n - 1, n) \<in> measure unat" if "n \<noteq> 0" for n :: int32
    using unat_minus_1 [OF that] by simp
qed simp

declare failing_run.simps [simp del]

text \<open>
  One call whose function keeps failing, with every timer left to fire, makes exactly one
  attempt more than the number of retries, and then nothing is pending.
\<close>

theorem failing_call_attempts:
  "retry_run (Call f n # failing_run n) NewRetryService = Some NewRetryService \<and>
   attempts (Call f n # failing_run n) = unat n + 1"
proof -
  have "retry_run (failing_run n) \<lparr>rtTimer = None, rtWaiting = [(f, n)]\<rparr> = Some NewRetryService \<and>
      attempts (failing_run n) = unat n + 1"
  proof (induction n rule: failing_run.induct)
    case (1 n)
    show ?case
    proof (cases "n = 0")
      case True
      then show ?thesis
        by (simp add: failing_run.simps [of 0] retry_def clearTimer_def NewRetryService_def)
    next
      case False
      then show ?thesis using "1.IH" unat_minus_1 [OF False]
        by (simp add: failing_run.simps [of n] retry_def clearTimer_def)
    qed
  qed
  then show ?thesis by (simp add: NewRetryService_def)
qed

end
