(* ===== verification/RoutineHandler.thy ===== *)
theory RoutineHandler
  imports Retry
begin

text \<open>
  \<open>pkg/service/backup_routine_handler.go\<close>, \<open>backup_job.go\<close> and \<open>aerospike_service.go\<close>: the full and
  incremental backups of a routine. A run takes the state of the handler, the pool of clients and
  the list of what was done so far, and answers a state in every case, because deferred calls run
  after errors and panics too.
\<close>

section \<open>What a run relies on\<close>

text \<open>
  A node of the cluster with the answers of the management library for it; \<open>hvWait\<close> and \<open>hvStats\<close>
  are the library's handlers; \<open>hvOrder\<close> is the order in which the map of handlers is ranged over.
\<close>

record cluster_node =
  cnActive :: bool
  cnGenerateConf :: "(string, unit) outcome"
  cnToConfFile :: "(string, bytes) outcome"

record run_env =
  hvStorage :: storage_lib
  hvLib :: backup_lib
  hvClients :: client_lib
  hvCodec :: codec
  hvWait :: "nat \<Rightarrow> string option"
  hvStats :: "nat \<Rightarrow> LibBackupStats"
  hvRandomNode :: "(string, unit) outcome"
  hvRequestInfo :: "(string, (string, string) gomap) outcome"
  hvNodes :: "cluster_node list"
  hvOrder :: "(string, ptr) gomap \<Rightarrow> (string, ptr) gomap"

datatype metric = FullRuns | IncrRuns | FullSkipped | IncrSkipped | FullFailures | IncrFailures

datatype handler_event =
    BackupStarted (evFull: bool) (evNamespace: string) (evFolder: string) (evBounds: TimeBounds) (evHandler: nat)
  | MetadataWritten string BackupMetadata
  | ConfigurationWritten string
  | FolderDeleted string
  | Counted metric

record BackupRoutineHandler =
  bhBackend :: BackupBackend
  bhFullPolicy :: BackupPolicy
  bhIncrPolicy :: BackupPolicy
  bhRoutine :: ptr
  bhRoutineName :: string
  bhNamespaces :: "string list"
  bhStorage :: ptr
  bhSecretAgent :: ptr
  bhState :: BackupState
  bhFullHandlers :: "(string, ptr) gomap"
  bhIncrHandlers :: "(string, ptr) gomap"

record routine_state =
  hsHandler :: BackupRoutineHandler
  hsPool :: ClientManagerImpl
  hsEvents :: "handler_event list"

definition newBackupRoutineHandler ::
  "time \<Rightarrow> time \<Rightarrow> time \<Rightarrow> codec \<Rightarrow> storage_lib \<Rightarrow> conf \<Rightarrow> string \<Rightarrow> BackupBackend option \<Rightarrow>
   (backend_error, BackupRoutineHandler) outcome" where
  "newBackupRoutineHandler now1 now2 now3 yaml lib config routineName backupBackend =
     (case lookup (cfBackupRoutines (snd config)) routineName of
        None \<Rightarrow> Panic NilDereference
      | Some p \<Rightarrow>
     (case deref_routine (fst config) p of
        None \<Rightarrow> Panic NilDereference
      | Some backupRoutine \<Rightarrow>
     (case deref stPolicies (fst config) (brBackupPolicy backupRoutine) of
        None \<Rightarrow> Panic NilDereference
      | Some backupPolicy \<Rightarrow>
     (case backupBackend of
        None \<Rightarrow> Panic NilDereference
      | Some backend \<Rightarrow>
          and_then (readState now1 now2 now3 yaml lib (fst config) backend) (\<lambda>state. Ok
            \<lparr>bhBackend = backend, bhFullPolicy = backupPolicy, bhIncrPolicy = CopySMDDisabled backupPolicy,
             bhRoutine = p, bhRoutineName = routineName, bhNamespaces = brNamespaces backupRoutine,
             bhStorage = brStorage backupRoutine, bhSecretAgent = brSecretAgent backupRoutine,
             bhState = state, bhFullHandlers = [], bhIncrHandlers = []\<rparr>)))))"

section \<open>Steps with a state\<close>

type_synonym ('s, 'a) step = "'s \<times> (string, 'a) outcome"

definition bind_step :: "('s, 'a) step \<Rightarrow> ('a \<Rightarrow> 's \<Rightarrow> ('s, 'b) step) \<Rightarrow> ('s, 'b) step" where
  "bind_step r f = (case r of (s, Ok x) \<Rightarrow> f x s | (s, Err e) \<Rightarrow> (s, Err e) | (s, Panic p) \<Rightarrow> (s, Panic p))"

text \<open>\<open>deferred f\<close> runs \<open>f\<close> however the function ends.\<close>

definition deferred :: "('s \<Rightarrow> 's) \<Rightarrow> ('s, 'a) step \<Rightarrow> ('s, 'a) step" where
  "deferred f r = (f (fst r), snd r)"

text \<open>An error that is only logged.\<close>

definition logged :: "('s, 'a) step \<Rightarrow> ('s, unit) step" where
  "logged r = (case r of (s, Panic p) \<Rightarrow> (s, Panic p) | (s, x) \<Rightarrow> (s, Ok ()))"

lemma bind_step_simps [simp]:
  "bind_step (s, Ok x) f = f x s" "bind_step (s, Err e) f = (s, Err e)" "bind_step (s, Panic p) f = (s, Panic p)"
  by (simp_all add: bind_step_def)

lemma logged_simps [simp]:
  "logged (s, Ok x) = (s, Ok ())" "logged (s, Err e) = (s, Ok ())" "logged (s, Panic p) = (s, Panic p)"
  by (simp_all add: logged_def)

abbreviation update_handler :: "(BackupRoutineHandler \<Rightarrow> BackupRoutineHandler) \<Rightarrow> routine_state \<Rightarrow> routine_state" where
  "update_handler f s \<equiv> s\<lparr>hsHandler := f (hsHandler s)\<rparr>"

definition emit :: "handler_event \<Rightarrow> routine_state \<Rightarrow> routine_state" where
  "emit e s = s\<lparr>hsEvents := hsEvents s @ [e]\<rparr>"

definition setInProgress :: "bool \<Rightarrow> routine_state \<Rightarrow> routine_state" where
  "setInProgress b = update_handler (\<lambda>h. h\<lparr>bhBackend := (bhBackend h)\<lparr>fullBackupInProgress := b\<rparr>\<rparr>)"

abbreviation inProgress :: "routine_state \<Rightarrow> bool" where
  "inProgress s \<equiv> fullBackupInProgress (bhBackend (hsHandler s))"

abbreviation the_store :: "routine_state \<Rightarrow> store" where
  "the_store s \<equiv> cmStore (hsPool s)"

definition clearFull :: "routine_state \<Rightarrow> routine_state" where
  "clearFull = update_handler (\<lambda>h. h\<lparr>bhFullHandlers := []\<rparr>)"

definition clearIncr :: "routine_state \<Rightarrow> routine_state" where
  "clearIncr = update_handler (\<lambda>h. h\<lparr>bhIncrHandlers := []\<rparr>)"

definition closeClient :: "nat \<Rightarrow> routine_state \<Rightarrow> routine_state" where
  "closeClient client s = s\<lparr>hsPool := Close (hsPool s) client\<rparr>"

text \<open>\<open>GetClient(h.backupRoutine.SourceCluster)\<close>: the routine object is read when the run starts.\<close>

definition takeClient :: "run_env \<Rightarrow> routine_state \<Rightarrow> (routine_state, nat) step" where
  "takeClient env s =
     (case deref_routine (the_store s) (bhRoutine (hsHandler s)) of
        None \<Rightarrow> (s, Panic NilDereference)
      | Some routine \<Rightarrow>
          (case GetClient (hvClients env) (hsPool s) (brSourceCluster routine) of
             (cm, r) \<Rightarrow> (s\<lparr>hsPool := cm\<rparr>, r)))"

section \<open>The cluster\<close>

fun Split :: "char \<Rightarrow> string \<Rightarrow> string list" where
  "Split sep [] = [[]]"
| "Split sep (c # cs) =
     (if c = sep then [] # Split sep cs
      else case Split sep cs of [] \<Rightarrow> [[c]] | w # ws \<Rightarrow> (c # w) # ws)"

definition getAllNamespacesOfCluster :: "run_env \<Rightarrow> (string, string list) outcome" where
  "getAllNamespacesOfCluster env =
     and_then (map_err (\<lambda>e. ''failed to get node: '' @ e) (hvRandomNode env)) (\<lambda>_.
     and_then (map_err (\<lambda>e. ''failed to get cluster info: '' @ e) (hvRequestInfo env)) (\<lambda>infoRes.
     Ok (Split (CHR '';'') (case lookup infoRes ''namespaces'' of None \<Rightarrow> [] | Some s \<Rightarrow> s))))"

definition getNamespacesToBackup :: "run_env \<Rightarrow> string list \<Rightarrow> (string, string list) outcome" where
  "getNamespacesToBackup env namespaces =
     (if length namespaces = 0 then getAllNamespacesOfCluster env else Ok namespaces)"

text \<open>
  \<open>getClusterConfiguration\<close>: the active nodes whose configuration can be read and printed. A
  panic while printing is recovered (\<open>TryAndRecover\<close>), one while reading is not.
\<close>

fun nodeConfigurations :: "cluster_node list \<Rightarrow> (string, bytes list) outcome" where
  "nodeConfigurations [] = Ok []"
| "nodeConfigurations (node # nodes) =
     (if \<not> cnActive node then nodeConfigurations nodes
      else case cnGenerateConf node of
             Panic p \<Rightarrow> Panic p
           | Err e \<Rightarrow> nodeConfigurations nodes
           | Ok conf \<Rightarrow>
               (case cnToConfFile node of
                  Ok configAsString \<Rightarrow> and_then (nodeConfigurations nodes) (\<lambda>outputs. Ok (configAsString # outputs))
                | _ \<Rightarrow> nodeConfigurations nodes))"

definition getClusterConfiguration :: "run_env \<Rightarrow> (string, bytes list) outcome" where
  "getClusterConfiguration env = nodeConfigurations (hvNodes env)"

section \<open>Writing and deleting\<close>

definition handlerMetadata :: "LibBackupStats \<Rightarrow> time \<Rightarrow> string \<Rightarrow> BackupMetadata" where
  "handlerMetadata stats created namespace =
     \<lparr>Created = created, From = zeroTime, Namespace = namespace, RecordCount = bsReadRecords stats,
      ByteCount = bsBytesWritten stats, FileCount = bsFileCount stats,
      SecondaryIndexCount = ucast (bsSIndexes stats), UDFCount = ucast (bsUDFs stats)\<rparr>"

definition handlerWriteMetadata ::
  "run_env \<Rightarrow> LibBackupStats \<Rightarrow> time \<Rightarrow> string \<Rightarrow> string \<Rightarrow> routine_state \<Rightarrow> (routine_state, unit) step" where
  "handlerWriteMetadata env stats created namespace backupFolder s =
     (let metadata = handlerMetadata stats created namespace in
      case writeBackupMetadata (hvCodec env) (hvStorage env) (the_store s) (bhBackend (hsHandler s)) backupFolder metadata of
        Ok _ \<Rightarrow> (emit (MetadataWritten backupFolder metadata) s, Ok ())
      | Err e \<Rightarrow> (s, Err (backendText (\<lambda>_. []) e))
      | Panic p \<Rightarrow> (s, Panic p))"

definition deleteFolder :: "run_env \<Rightarrow> string \<Rightarrow> routine_state \<Rightarrow> (routine_state, unit) step" where
  "deleteFolder env path s =
     (case DeleteFolder (hvStorage env) (deref stStorages (the_store s) (bhStorage (hsHandler s))) path of
        Ok _ \<Rightarrow> (emit (FolderDeleted path) s, Ok ())
      | Err e \<Rightarrow> (s, Ok ())
      | Panic p \<Rightarrow> (s, Panic p))"

fun writeConfLoop :: "run_env \<Rightarrow> time \<Rightarrow> nat \<Rightarrow> bytes list \<Rightarrow> routine_state \<Rightarrow> (routine_state, unit) step" where
  "writeConfLoop env now i [] s = (s, Ok ())"
| "writeConfLoop env now i (conf # infos) s =
     (let h = hsHandler s; confFilePath = getConfigurationFile (fullBackupsPath (bhBackend h)) (bhFullPolicy h) now i in
      case WriteFile (hvStorage env) (deref stStorages (the_store s) (bhStorage h)) confFilePath conf of
        Ok _ \<Rightarrow> writeConfLoop env now (i + 1) infos (emit (ConfigurationWritten confFilePath) s)
      | Err e \<Rightarrow> writeConfLoop env now (i + 1) infos s
      | Panic p \<Rightarrow> (s, Panic p))"

definition writeClusterConfiguration :: "run_env \<Rightarrow> time \<Rightarrow> routine_state \<Rightarrow> (routine_state, unit) step" where
  "writeClusterConfiguration env now s =
     (case getClusterConfiguration env of
        Panic p \<Rightarrow> (s, Panic p)
      | Err e \<Rightarrow> (s, Err e)
      | Ok infos \<Rightarrow> writeConfLoop env now 0 infos s)"

section \<open>Full backups\<close>

text \<open>\<open>runBackup\<close> is the call of \<open>BackupRun\<close> with the fields of the handler.\<close>

definition runBackup ::
  "run_env \<Rightarrow> BackupPolicy \<Rightarrow> nat \<Rightarrow> TimeBounds \<Rightarrow> string \<Rightarrow> string \<Rightarrow> routine_state \<Rightarrow> (string, nat) outcome" where
  "runBackup env policy client timebounds namespace backupFolder s =
     (let h = hsHandler s in
      case deref_routine (the_store s) (bhRoutine h) of
        None \<Rightarrow> Panic NilDereference
      | Some routine \<Rightarrow>
          BackupRun (hvLib env) (hvStorage env) routine policy client (deref stStorages (the_store s) (bhStorage h))
            (deref stAgents (the_store s) (bhSecretAgent h)) timebounds namespace backupFolder)"

fun startFullLoop ::
  "run_env \<Rightarrow> time \<Rightarrow> nat \<Rightarrow> TimeBounds \<Rightarrow> string list \<Rightarrow> routine_state \<Rightarrow> (routine_state, unit) step" where
  "startFullLoop env upperBound client timebounds [] s = (s, Ok ())"
| "startFullLoop env upperBound client timebounds (namespace # namespaces) s =
     (let h = hsHandler s;
          backupFolder = getFullPath (fullBackupsPath (bhBackend h)) (bhFullPolicy h) namespace upperBound in
      case runBackup env (bhFullPolicy h) client timebounds namespace backupFolder s of
        Panic p \<Rightarrow> (s, Panic p)
      | Err e \<Rightarrow>
          (emit (Counted FullFailures) s,
           Err (''could not start backup of namespace '' @ namespace @ '', routine '' @ bhRoutineName h @ '': '' @ e))
      | Ok handler \<Rightarrow>
          startFullLoop env upperBound client timebounds namespaces
            (update_handler (\<lambda>h. h\<lparr>bhFullHandlers := insert_key namespace (Some handler) (bhFullHandlers h)\<rparr>)
              (emit (BackupStarted True namespace backupFolder timebounds handler) s)))"

definition startFullBackupForAllNamespaces :: "run_env \<Rightarrow> time \<Rightarrow> nat \<Rightarrow> routine_state \<Rightarrow> (routine_state, unit) step" where
  "startFullBackupForAllNamespaces env upperBound client s =
     (let s = clearFull s; h = hsHandler s;
          timebounds = \<lparr>FromTime = None, ToTime = (if IsSealed (bhFullPolicy h) then Some upperBound else None)\<rparr> in
      case getNamespacesToBackup env (bhNamespaces h) of
        Panic p \<Rightarrow> (s, Panic p)
      | Err e \<Rightarrow> (s, Err e)
      | Ok namespaces \<Rightarrow> startFullLoop env upperBound client timebounds namespaces s)"

fun waitFullLoop :: "run_env \<Rightarrow> time \<Rightarrow> (string, ptr) gomap \<Rightarrow> routine_state \<Rightarrow> (routine_state, unit) step" where
  "waitFullLoop env backupTimestamp [] s = (s, Ok ())"
| "waitFullLoop env backupTimestamp ((namespace, handler) # rest) s =
     (case handler of
        None \<Rightarrow> (s, Panic NilDereference)
      | Some bh \<Rightarrow>
     (case hvWait env bh of
        Some e \<Rightarrow>
          (emit (Counted FullFailures) s,
           Err (''error during backup namespace '' @ namespace @ '', routine '' @ bhRoutineName (hsHandler s) @ '': '' @ e))
      | None \<Rightarrow>
          (let h = hsHandler s;
               backupFolder = getFullPath (fullBackupsPath (bhBackend h)) (bhFullPolicy h) namespace backupTimestamp in
           bind_step (handlerWriteMetadata env (hvStats env bh) backupTimestamp namespace backupFolder s) (\<lambda>_.
           waitFullLoop env backupTimestamp rest))))"

definition waitForFullBackups :: "run_env \<Rightarrow> time \<Rightarrow> routine_state \<Rightarrow> (routine_state, unit) step" where
  "waitForFullBackups env backupTimestamp s =
     waitFullLoop env backupTimestamp (permuted (hvOrder env) (bhFullHandlers (hsHandler s))) s"

definition runFullBackupInternal :: "run_env \<Rightarrow> time \<Rightarrow> routine_state \<Rightarrow> (routine_state, unit) step" where
  "runFullBackupInternal env now s =
     (if inProgress s then (s, Ok ())
      else deferred (setInProgress False)
       (bind_step (takeClient env (setInProgress True s)) (\<lambda>client s.
          deferred (\<lambda>s. clearFull (closeClient client s))
           (bind_step (startFullBackupForAllNamespaces env now client s) (\<lambda>_ s.
            bind_step (waitForFullBackups env now s) (\<lambda>_ s.
              let s = emit (Counted FullRuns) s;
                  s = update_handler (\<lambda>h. h\<lparr>bhState := SetLastFullRun now (bhState h)\<rparr>) s;
                  h = hsHandler s
              in bind_step (if RemoveIncrementalBackup (bpRemoveFiles (bhFullPolicy h))
                            then deleteFolder env (incrementalBackupsPath (bhBackend h)) s else (s, Ok ())) (\<lambda>_ s.
                 writeClusterConfiguration env now s)))))))"

section \<open>Incremental backups\<close>

fun startIncrLoop ::
  "run_env \<Rightarrow> time \<Rightarrow> nat \<Rightarrow> TimeBounds \<Rightarrow> string list \<Rightarrow> routine_state \<Rightarrow> (routine_state, unit) step" where
  "startIncrLoop env upperBound client timebounds [] s = (s, Ok ())"
| "startIncrLoop env upperBound client timebounds (namespace # namespaces) s =
     (let h = hsHandler s;
          backupFolder = getIncrementalPathForNamespace (incrementalBackupsPath (bhBackend h)) namespace upperBound in
      case runBackup env (bhIncrPolicy h) client timebounds namespace backupFolder s of
        Panic p \<Rightarrow> (s, Panic p)
      | Err e \<Rightarrow>
          startIncrLoop env upperBound client timebounds namespaces
            (update_handler (\<lambda>h. h\<lparr>bhIncrHandlers := insert_key namespace None (bhIncrHandlers h)\<rparr>)
              (emit (Counted IncrFailures) s))
      | Ok handler \<Rightarrow>
          startIncrLoop env upperBound client timebounds namespaces
            (update_handler (\<lambda>h. h\<lparr>bhIncrHandlers := insert_key namespace (Some handler) (bhIncrHandlers h)\<rparr>)
              (emit (BackupStarted False namespace backupFolder timebounds handler) s)))"

definition incrementalBounds :: "BackupRoutineHandler \<Rightarrow> time \<Rightarrow> TimeBounds option" where
  "incrementalBounds h upperBound =
     (case NewTimeBoundsFrom (LastRun (bhState h)) of
        None \<Rightarrow> None
      | Some timebounds \<Rightarrow>
          Some (if IsSealed (bhFullPolicy h) then timebounds\<lparr>ToTime := Some upperBound\<rparr> else timebounds))"

definition startIncrementalBackupForAllNamespaces ::
  "run_env \<Rightarrow> nat \<Rightarrow> time \<Rightarrow> routine_state \<Rightarrow> (routine_state, unit) step" where
  "startIncrementalBackupForAllNamespaces env client upperBound s =
     (case incrementalBounds (hsHandler s) upperBound of
        None \<Rightarrow> (s, Panic NilDereference)
      | Some timebounds \<Rightarrow>
          (let s = clearIncr s in
           case getNamespacesToBackup env (bhNamespaces (hsHandler s)) of
             Panic p \<Rightarrow> (s, Panic p)
           | Err e \<Rightarrow> (s, Ok ())
           | Ok namespaces \<Rightarrow> startIncrLoop env upperBound client timebounds namespaces s))"

text \<open>The loop answers whether there was a backup that is not empty (\<open>hasBackup\<close>).\<close>

fun waitIncrLoop ::
  "run_env \<Rightarrow> time \<Rightarrow> (string, ptr) gomap \<Rightarrow> bool \<Rightarrow> routine_state \<Rightarrow> (routine_state, bool) step" where
  "waitIncrLoop env backupTimestamp [] hasBackup s = (s, Ok hasBackup)"
| "waitIncrLoop env backupTimestamp ((namespace, handler) # rest) hasBackup s =
     (case handler of
        None \<Rightarrow> (s, Panic NilDereference)
      | Some bh \<Rightarrow>
          (let s = (case hvWait env bh of Some e \<Rightarrow> emit (Counted IncrFailures) s | None \<Rightarrow> s);
               backupFolder = getIncrementalPathForNamespace (incrementalBackupsPath (bhBackend (hsHandler s))) namespace
                                backupTimestamp in
           if bsIsEmpty (hvStats env bh)
           then bind_step (deleteFolder env backupFolder s) (\<lambda>_. waitIncrLoop env backupTimestamp rest hasBackup)
           else bind_step (logged (handlerWriteMetadata env (hvStats env bh) backupTimestamp namespace backupFolder s)) (\<lambda>_.
                waitIncrLoop env backupTimestamp rest True)))"

definition waitForIncrementalBackups :: "run_env \<Rightarrow> time \<Rightarrow> routine_state \<Rightarrow> (routine_state, unit) step" where
  "waitForIncrementalBackups env backupTimestamp s =
     bind_step (waitIncrLoop env backupTimestamp (permuted (hvOrder env) (bhIncrHandlers (hsHandler s))) False s)
       (\<lambda>hasBackup s.
          if \<not> hasBackup
          then deleteFolder env (getIncrementalPath (incrementalBackupsPath (bhBackend (hsHandler s))) backupTimestamp) s
          else (s, Ok ()))"

definition runIncrementalBackup :: "run_env \<Rightarrow> time \<Rightarrow> routine_state \<Rightarrow> (routine_state, unit) step" where
  "runIncrementalBackup env now s =
     (if LastFullRunIsEmpty (bhState (hsHandler s)) then (s, Ok ())
      else if inProgress s then (s, Ok ())
      else if 0 < length (bhIncrHandlers (hsHandler s)) then (s, Ok ())
      else logged (bind_step (takeClient env s) (\<lambda>client s.
          deferred (\<lambda>s. clearIncr (closeClient client s))
           (bind_step (startIncrementalBackupForAllNamespaces env client now s) (\<lambda>_ s.
            bind_step (waitForIncrementalBackups env now s) (\<lambda>_ s.
              (update_handler (\<lambda>h. h\<lparr>bhState := SetLastIncrRun now (bhState h)\<rparr>) (emit (Counted IncrRuns) s), Ok ())))))))"

definition GetCurrentStat ::
  "((string, ptr) gomap \<Rightarrow> (string, ptr) gomap) \<Rightarrow> (rat \<Rightarrow> 64 word) \<Rightarrow> time \<Rightarrow> (nat \<Rightarrow> LibBackupStats) \<Rightarrow>
   BackupRoutineHandler \<Rightarrow> ('e, CurrentBackups) outcome" where
  "GetCurrentStat pick cast now stats h =
     and_then (currentBackupStatus pick cast now stats (bhFullHandlers h)) (\<lambda>full.
     and_then (currentBackupStatus pick cast now stats (bhIncrHandlers h)) (\<lambda>incr.
     Ok \<lparr>cbFull = full, cbIncremental = incr\<rparr>))"

section \<open>Jobs of the scheduler\<close>

datatype job_type = FullJob | IncrementalJob | OtherJob string

record backupJob =
  bjType :: job_type
  bjIsRunning :: bool

definition newBackupJob :: "job_type \<Rightarrow> backupJob" where
  "newBackupJob jobType = \<lparr>bjType = jobType, bjIsRunning = False\<rparr>"

definition incrementSkippedCounters :: "job_type \<Rightarrow> routine_state \<Rightarrow> routine_state" where
  "incrementSkippedCounters jobType s =
     (case jobType of
        FullJob \<Rightarrow> emit (Counted FullSkipped) s
      | IncrementalJob \<Rightarrow> emit (Counted IncrSkipped) s
      | OtherJob t \<Rightarrow> s)"

text \<open>
  \<open>runFullBackup\<close> hands \<open>runFullBackupInternal\<close> to the retry service; the answer has what the
  service is left with. \<open>f\<close> is the number the run is known by to the service.
\<close>

definition runFullBackup ::
  "run_env \<Rightarrow> nat \<Rightarrow> time \<Rightarrow> RetryService \<Rightarrow> routine_state \<Rightarrow> (routine_state \<times> RetryService) \<times> (string, unit) outcome" where
  "runFullBackup env f now service s =
     (case runFullBackupInternal env now s of
        (s, Panic p) \<Rightarrow> ((s, clearTimer service), Panic p)
      | (s, r) \<Rightarrow> ((s, retry f (GetMaxRetriesOrDefault (bhFullPolicy (hsHandler s))) (\<not> is_ok r) service), Ok ()))"

definition Execute ::
  "run_env \<Rightarrow> nat \<Rightarrow> time \<Rightarrow> backupJob \<Rightarrow> RetryService \<Rightarrow> routine_state \<Rightarrow>
   (backupJob \<times> RetryService \<times> routine_state) \<times> (string, unit) outcome" where
  "Execute env f now j service s =
     (if bjIsRunning j then ((j, service, incrementSkippedCounters (bjType j) s), Ok ())
      else let j = j\<lparr>bjIsRunning := True\<rparr>;
               ((s, service), r) =
                 (case bjType j of
                    FullJob \<Rightarrow> runFullBackup env f now service s
                  | IncrementalJob \<Rightarrow> (case runIncrementalBackup env now s of (s, r) \<Rightarrow> ((s, service), r))
                  | OtherJob t \<Rightarrow> ((s, service), Ok ()))
           in ((j\<lparr>bjIsRunning := False\<rparr>, service, s), r))"

end
