(* ===== verification/RoutineProps.thy ===== *)
theory RoutineProps
  imports RoutineHandler
begin

text \<open>
  What the runs of a routine keep and what they guarantee: the lock, the handlers and the client
  are released however a run ends; the state records a full backup only when it is complete; and no
  incremental backup is taken before a full one.
\<close>

section \<open>What the steps keep\<close>

text \<open>
  What the steps of a run leave alone: everything but its own map of handlers, and the events
  only grow. Every event they add is one of a full run (\<open>full\<close>), or of an incremental one, with
  the time bounds \<open>tb\<close>.
\<close>

definition static :: "bool \<Rightarrow> BackupRoutineHandler \<Rightarrow> _" where
  "static full h = (bhBackend h, bhFullPolicy h, bhIncrPolicy h, bhRoutine h, bhRoutineName h, bhNamespaces h, bhStorage h,
     bhSecretAgent h, bhState h, if full then bhIncrHandlers h else bhFullHandlers h)"

fun event_of :: "bool \<Rightarrow> TimeBounds \<Rightarrow> handler_event \<Rightarrow> bool" where
  "event_of full tb (BackupStarted b ns folder tb' h) \<longleftrightarrow> b = full \<and> tb' = tb"
| "event_of full tb (Counted m) \<longleftrightarrow> m = (if full then FullFailures else IncrFailures)"
| "event_of full tb e \<longleftrightarrow> True"

definition kept :: "bool \<Rightarrow> TimeBounds \<Rightarrow> routine_state \<Rightarrow> routine_state \<Rightarrow> bool" where
  "kept full tb s s' \<longleftrightarrow>
     hsPool s' = hsPool s \<and> static full (hsHandler s') = static full (hsHandler s) \<and>
     (\<exists>es. hsEvents s' = hsEvents s @ es \<and> list_all (event_of full tb) es)"

lemma kept_refl [simp]: "kept full tb s s"
  by (simp add: kept_def)

lemma kept_trans: "kept full tb s t \<Longrightarrow> kept full tb t u \<Longrightarrow> kept full tb s u"
  unfolding kept_def by auto

lemma kept_emit [simp]: "event_of full tb e \<Longrightarrow> kept full tb s (emit e s)"
  by (simp add: kept_def emit_def)

lemma kept_maps [simp]:
  "kept True tb s (s\<lparr>hsHandler := (hsHandler s)\<lparr>bhFullHandlers := m\<rparr>\<rparr>)"
  "kept False tb s (s\<lparr>hsHandler := (hsHandler s)\<lparr>bhIncrHandlers := m\<rparr>\<rparr>)"
  "kept True tb s (clearFull s)" "kept False tb s (clearIncr s)"
  by (simp_all add: kept_def static_def clearFull_def clearIncr_def)

lemma kept_started [simp]:
  "event_of True tb e \<Longrightarrow> kept True tb s ((emit e s)\<lparr>hsHandler := (hsHandler (emit e s))\<lparr>bhFullHandlers := m\<rparr>\<rparr>)"
  "event_of False tb e \<Longrightarrow> kept False tb s ((emit e s)\<lparr>hsHandler := (hsHandler (emit e s))\<lparr>bhIncrHandlers := m\<rparr>\<rparr>)"
  by (simp_all add: kept_def static_def emit_def)

lemma kept_handler:
  assumes "kept full tb s s'"
  shows "bhBackend (hsHandler s') = bhBackend (hsHandler s)" "bhFullPolicy (hsHandler s') = bhFullPolicy (hsHandler s)"
    "bhIncrPolicy (hsHandler s') = bhIncrPolicy (hsHandler s)" "bhRoutine (hsHandler s') = bhRoutine (hsHandler s)"
    "bhState (hsHandler s') = bhState (hsHandler s)" "bhStorage (hsHandler s') = bhStorage (hsHandler s)"
    "bhSecretAgent (hsHandler s') = bhSecretAgent (hsHandler s)" "bhNamespaces (hsHandler s') = bhNamespaces (hsHandler s)"
    "bhRoutineName (hsHandler s') = bhRoutineName (hsHandler s)"
    "hsPool s' = hsPool s" "set (hsEvents s) \<subseteq> set (hsEvents s')"
  using assms by (auto simp: kept_def static_def)

lemma kept_other:
  "kept True tb s s' \<Longrightarrow> bhIncrHandlers (hsHandler s') = bhIncrHandlers (hsHandler s)"
  "kept False tb s s' \<Longrightarrow> bhFullHandlers (hsHandler s') = bhFullHandlers (hsHandler s)"
  by (auto simp: kept_def static_def)

lemma runBackup_kept: "kept full tb s s' \<Longrightarrow> runBackup env policy c w ns folder s' = runBackup env policy c w ns folder s"
  unfolding runBackup_def Let_def by (simp only: kept_handler [of full tb s s'])

lemma kept_bind:
  "kept full tb s (fst r) \<Longrightarrow> (\<And>x t. r = (t, Ok x) \<Longrightarrow> kept full tb t (fst (f x t))) \<Longrightarrow> kept full tb s (fst (bind_step r f))"
  by (cases r; cases "snd r") (auto intro: kept_trans)

lemma fst_logged [simp]: "fst (logged r) = fst r"
  by (cases r; cases "snd r") auto

lemma kept_write: "kept full tb s (fst (handlerWriteMetadata env stats created ns folder s))"
  by (simp add: handlerWriteMetadata_def Let_def split: outcome.split)

lemma kept_delete: "kept full tb s (fst (deleteFolder env path s))"
  by (simp add: deleteFolder_def split: outcome.split)

lemma kept_conf_loop: "kept full tb s (fst (writeConfLoop env now i infos s))"
proof (induction infos arbitrary: i s)
  case (Cons conf infos)
  have w: "kept full tb s (emit (ConfigurationWritten f) s)" for f by simp
  show ?case
    using Cons kept_trans [OF w Cons] by (simp add: Let_def split: outcome.split)
qed simp

lemma kept_conf: "kept full tb s (fst (writeClusterConfiguration env now s))"
  by (simp add: writeClusterConfiguration_def kept_conf_loop split: outcome.split)

lemma kept_start_full: "kept True tb s (fst (startFullLoop env t c tb nss s))"
proof (induction env t c tb nss s rule: startFullLoop.induct)
  case (2 env t c tb ns nss s)
  let ?r = "runBackup env (bhFullPolicy (hsHandler s)) c tb ns
    (getFullPath (fullBackupsPath (bhBackend (hsHandler s))) (bhFullPolicy (hsHandler s)) ns t) s"
  show ?case
  proof (cases ?r)
    case (Ok x)
    have "event_of True tb (BackupStarted True ns f tb x)" for f by simp
    from kept_trans [OF kept_started(1) [OF this] 2 [OF refl refl Ok]] show ?thesis using Ok by (simp add: Let_def)
  qed (simp_all add: Let_def)
qed simp

lemma kept_start_incr: "kept False tb s (fst (startIncrLoop env t c tb nss s))"
proof (induction env t c tb nss s rule: startIncrLoop.induct)
  case (2 env t c tb ns nss s)
  let ?r = "runBackup env (bhIncrPolicy (hsHandler s)) c tb ns
    (getIncrementalPathForNamespace (incrementalBackupsPath (bhBackend (hsHandler s))) ns t) s"
  show ?case
  proof (cases ?r)
    case (Ok x)
    have "event_of False tb (BackupStarted False ns f tb x)" for f by simp
    from kept_trans [OF kept_started(2) [OF this] 2(1) [OF refl refl Ok]] show ?thesis using Ok by (simp add: Let_def)
  next
    case (Err e)
    have "event_of False tb (Counted IncrFailures)" by simp
    from kept_trans [OF kept_started(2) [OF this] 2(2) [OF refl refl Err]] show ?thesis using Err by (simp add: Let_def)
  qed (simp add: Let_def)
qed simp

lemma kept_wait_full: "kept True tb s (fst (waitFullLoop env t hs s))"
proof (induction env t hs s rule: waitFullLoop.induct)
  case (2 env t ns h rest s)
  show ?case
    using 2 by (auto simp: Let_def split: option.split intro!: kept_bind kept_write)
qed simp

lemma kept_wait_incr: "kept False tb s (fst (waitIncrLoop env t hs b s))"
proof (induction env t hs b s rule: waitIncrLoop.induct)
  case (2 env t ns h rest b s)
  show ?case
  proof (cases h)
    case (Some bh)
    let ?s = "case hvWait env bh of Some e \<Rightarrow> emit (Counted IncrFailures) s | None \<Rightarrow> s"
    have w: "kept False tb s ?s" by (simp split: option.split)
    have "kept False tb s (fst (logged (handlerWriteMetadata env stats t ns f ?s)))" for stats f
      using kept_trans [OF w kept_write] by simp
    moreover have "kept False tb s (fst (deleteFolder env f ?s))" for f
      using kept_trans [OF w kept_delete] by simp
    ultimately show ?thesis
      using 2 Some by (auto simp: Let_def intro!: kept_bind)
  qed simp
qed simp

text \<open>The time bounds of a run: what changed since the last one, up to now if the policy is sealed.\<close>

definition window :: "bool \<Rightarrow> BackupRoutineHandler \<Rightarrow> time \<Rightarrow> TimeBounds" where
  "window full h now = \<lparr>FromTime = (if full then None else Some (LastRun (bhState h))),
     ToTime = (if IsSealed (bhFullPolicy h) then Some now else None)\<rparr>"

lemma incrementalBounds_window: "incrementalBounds h now = Some (window False h now)"
  by (simp add: incrementalBounds_def window_def NewTimeBoundsFrom_def NewTimeBounds_def)

lemma kept_start_full_all: "kept True (window True (hsHandler s) t) s (fst (startFullBackupForAllNamespaces env t c s))"
  (is "kept True ?tb s _")
proof -
  have "window True (hsHandler (clearFull s)) t = ?tb" by (simp add: window_def clearFull_def)
  then have "kept True ?tb s (fst (startFullLoop env t c ?tb nss (clearFull s)))" for nss
    using kept_trans [OF kept_maps(3) kept_start_full] by metis
  then show ?thesis
    by (auto simp: startFullBackupForAllNamespaces_def Let_def window_def clearFull_def split: outcome.split)
qed

lemma kept_wait_full_all: "kept True tb s (fst (waitForFullBackups env t s))"
  by (simp add: waitForFullBackups_def kept_wait_full)

lemma kept_start_incr_all: "kept False (window False (hsHandler s) t) s (fst (startIncrementalBackupForAllNamespaces env c t s))"
  unfolding startIncrementalBackupForAllNamespaces_def incrementalBounds_window Let_def
  by (auto intro: kept_trans [OF kept_maps(4) kept_start_incr] split: outcome.split)

lemma kept_wait_incr_all: "kept False tb s (fst (waitForIncrementalBackups env t s))"
  unfolding waitForIncrementalBackups_def by (auto intro!: kept_bind kept_wait_incr kept_delete)

section \<open>A run from its parts\<close>

text \<open>The part of a full run between taking a client and giving it back.\<close>

definition full_body :: "run_env \<Rightarrow> time \<Rightarrow> nat \<Rightarrow> routine_state \<Rightarrow> (routine_state, unit) step" where
  "full_body env now client s =
     bind_step (startFullBackupForAllNamespaces env now client s) (\<lambda>_ s.
     bind_step (waitForFullBackups env now s) (\<lambda>_ s.
       let s = emit (Counted FullRuns) s;
           s = update_handler (\<lambda>h. h\<lparr>bhState := SetLastFullRun now (bhState h)\<rparr>) s;
           h = hsHandler s
       in bind_step (if RemoveIncrementalBackup (bpRemoveFiles (bhFullPolicy h))
                     then deleteFolder env (incrementalBackupsPath (bhBackend h)) s else (s, Ok ())) (\<lambda>_ s.
          writeClusterConfiguration env now s)))"

definition incr_body :: "run_env \<Rightarrow> time \<Rightarrow> nat \<Rightarrow> routine_state \<Rightarrow> (routine_state, unit) step" where
  "incr_body env now client s =
     bind_step (startIncrementalBackupForAllNamespaces env client now s) (\<lambda>_ s.
     bind_step (waitForIncrementalBackups env now s) (\<lambda>_ s.
       (update_handler (\<lambda>h. h\<lparr>bhState := SetLastIncrRun now (bhState h)\<rparr>) (emit (Counted IncrRuns) s), Ok ())))"

definition incr_skipped :: "routine_state \<Rightarrow> bool" where
  "incr_skipped s \<longleftrightarrow>
     LastFullRunIsEmpty (bhState (hsHandler s)) \<or> inProgress s \<or> bhIncrHandlers (hsHandler s) \<noteq> []"

lemma runFull_parts:
  "runFullBackupInternal env now s =
     (if inProgress s then (s, Ok ())
      else deferred (setInProgress False)
       (bind_step (takeClient env (setInProgress True s)) (\<lambda>client s.
          deferred (\<lambda>s. clearFull (closeClient client s)) (full_body env now client s))))"
  by (simp add: runFullBackupInternal_def full_body_def)

lemma runIncr_parts:
  "runIncrementalBackup env now s =
     (if incr_skipped s then (s, Ok ())
      else logged (bind_step (takeClient env s) (\<lambda>client s.
          deferred (\<lambda>s. clearIncr (closeClient client s)) (incr_body env now client s))))"
  by (simp add: runIncrementalBackup_def incr_body_def incr_skipped_def)

text \<open>
  How the state after the body of a full run is reached: either the body fails, and everything is
  kept, or the state records the run.
\<close>

lemma full_body_cases:
  obtains (failed) "\<not> is_ok (snd (full_body env now client s))" "kept True (window True (hsHandler s) now) s (fst (full_body env now client s))"
      "snd (startFullBackupForAllNamespaces env now client s) \<noteq> Ok () \<or>
       snd (waitForFullBackups env now (fst (startFullBackupForAllNamespaces env now client s))) \<noteq> Ok ()"
  | (recorded) t u v where
      "startFullBackupForAllNamespaces env now client s = (t, Ok ())" "waitForFullBackups env now t = (u, Ok ())"
      "v = update_handler (\<lambda>h. h\<lparr>bhState := SetLastFullRun now (bhState h)\<rparr>) (emit (Counted FullRuns) u)"
      "kept True (window True (hsHandler s) now) v (fst (full_body env now client s))"
proof -
  obtain t r where t: "startFullBackupForAllNamespaces env now client s = (t, r)" by fastforce
  obtain u q where u: "waitForFullBackups env now t = (u, q)" by fastforce
  have kt: "kept True (window True (hsHandler s) now) s t" using kept_start_full_all [of s now env client] t by simp
  have ku: "kept True (window True (hsHandler s) now) t u" using kept_wait_full_all [of _ t env now] u by simp
  show thesis
  proof (cases "is_ok r \<and> is_ok q")
    case False
    then show thesis using t u kt kept_trans [OF kt ku]
      by (cases r; cases q) (auto simp: full_body_def intro: failed)
  next
    case True
    then have ok: "r = Ok ()" "q = Ok ()" by (auto simp: is_ok_iff)
    let ?v = "update_handler (\<lambda>h. h\<lparr>bhState := SetLastFullRun now (bhState h)\<rparr>) (emit (Counted FullRuns) u)"
    have "kept True (window True (hsHandler s) now) ?v (fst (full_body env now client s))"
      using t u ok by (auto simp: full_body_def Let_def intro!: kept_bind kept_delete kept_conf)
    with recorded t u ok show thesis by blast
  qed
qed

lemma incr_body_cases:
  obtains (failed) "\<not> is_ok (snd (incr_body env now client s))" "kept False (window False (hsHandler s) now) s (fst (incr_body env now client s))"
  | (recorded) t u where
      "startIncrementalBackupForAllNamespaces env client now s = (t, Ok ())" "waitForIncrementalBackups env now t = (u, Ok ())"
      "incr_body env now client s =
         (update_handler (\<lambda>h. h\<lparr>bhState := SetLastIncrRun now (bhState h)\<rparr>) (emit (Counted IncrRuns) u), Ok ())"
proof -
  obtain t r where t: "startIncrementalBackupForAllNamespaces env client now s = (t, r)" by fastforce
  obtain u q where u: "waitForIncrementalBackups env now t = (u, q)" by fastforce
  have kt: "kept False (window False (hsHandler s) now) s t" using kept_start_incr_all [of s now env client] t by simp
  have ku: "kept False (window False (hsHandler s) now) t u" using kept_wait_incr_all [of _ t env now] u by simp
  show thesis
  proof (cases "is_ok r \<and> is_ok q")
    case False
    then show thesis using t u kt kept_trans [OF kt ku]
      by (cases r; cases q) (auto simp: incr_body_def intro: failed)
  next
    case True
    then have ok: "r = Ok ()" "q = Ok ()" by (auto simp: is_ok_iff)
    then show thesis using recorded t u by (simp add: incr_body_def)
  qed
qed

section \<open>A run gives everything back\<close>

lemma takeClient_frame:
  assumes "takeClient env s = (t, r)"
  shows "hsHandler t = hsHandler s" and "hsEvents t = hsEvents s"
    and "pool_inv (hsPool s) ls \<Longrightarrow> length ls + 1 < 2 ^ 64 \<Longrightarrow> r = Ok c \<Longrightarrow> pool_inv (hsPool t) (c # ls)"
    and "pool_inv (hsPool s) ls \<Longrightarrow> \<not> is_ok r \<Longrightarrow> pool_inv (hsPool t) ls"
  using assms
  by (auto simp: takeClient_def split: option.splits prod.splits intro: manager.get_ok manager.get_other)

text \<open>No run is on: the lock is free, there are no handlers, and the clients in use are \<open>ls\<close>.\<close>

definition idle :: "routine_state \<Rightarrow> nat list \<Rightarrow> bool" where
  "idle s ls \<longleftrightarrow>
     \<not> inProgress s \<and> bhFullHandlers (hsHandler s) = [] \<and> bhIncrHandlers (hsHandler s) = [] \<and> pool_inv (hsPool s) ls"

lemma setInProgress_simps [simp]:
  "hsPool (setInProgress b s) = hsPool s" "hsEvents (setInProgress b s) = hsEvents s"
  "bhState (hsHandler (setInProgress b s)) = bhState (hsHandler s)"
  "bhFullHandlers (hsHandler (setInProgress b s)) = bhFullHandlers (hsHandler s)"
  "bhIncrHandlers (hsHandler (setInProgress b s)) = bhIncrHandlers (hsHandler s)"
  "inProgress (setInProgress b s) = b"
  by (simp_all add: setInProgress_def)

lemma window_setInProgress [simp]: "window full (hsHandler (setInProgress b s)) now = window full (hsHandler s) now"
  by (simp add: window_def setInProgress_def)

lemma clear_simps [simp]:
  "hsPool (clearFull s) = hsPool s" "hsEvents (clearFull s) = hsEvents s" "bhState (hsHandler (clearFull s)) = bhState (hsHandler s)"
  "bhBackend (hsHandler (clearFull s)) = bhBackend (hsHandler s)"
  "bhFullHandlers (hsHandler (clearFull s)) = []" "bhIncrHandlers (hsHandler (clearFull s)) = bhIncrHandlers (hsHandler s)"
  "hsPool (clearIncr s) = hsPool s" "hsEvents (clearIncr s) = hsEvents s" "bhState (hsHandler (clearIncr s)) = bhState (hsHandler s)"
  "bhBackend (hsHandler (clearIncr s)) = bhBackend (hsHandler s)"
  "bhIncrHandlers (hsHandler (clearIncr s)) = []" "bhFullHandlers (hsHandler (clearIncr s)) = bhFullHandlers (hsHandler s)"
  by (simp_all add: clearFull_def clearIncr_def)

lemma close_simps [simp]:
  "hsPool (closeClient c s) = Close (hsPool s) c" "hsHandler (closeClient c s) = hsHandler s"
  "hsEvents (closeClient c s) = hsEvents s"
  by (simp_all add: closeClient_def)

lemma emit_simps [simp]:
  "hsPool (emit e s) = hsPool s" "hsHandler (emit e s) = hsHandler s" "hsEvents (emit e s) = hsEvents s @ [e]"
  by (simp_all add: emit_def)

lemma body_pool:
  "hsPool (fst (full_body env now c s)) = hsPool s" "hsPool (fst (incr_body env now c s)) = hsPool s"
  "bhIncrHandlers (hsHandler (fst (full_body env now c s))) = bhIncrHandlers (hsHandler s)"
  "bhFullHandlers (hsHandler (fst (incr_body env now c s))) = bhFullHandlers (hsHandler s)"
  "inProgress (fst (incr_body env now c s)) = inProgress s"
proof -
  show "hsPool (fst (full_body env now c s)) = hsPool s"
    "bhIncrHandlers (hsHandler (fst (full_body env now c s))) = bhIncrHandlers (hsHandler s)"
  proof (atomize (full), cases rule: full_body_cases [of env now c s])
    case (recorded t u v)
    have "kept True (window True (hsHandler s) now) s t" "kept True (window True (hsHandler s) now) t u"
      using kept_start_full_all [of s now env c] kept_wait_full_all [of _ t env now] recorded(1,2) by simp_all
    then show "hsPool (fst (full_body env now c s)) = hsPool s \<and>
        bhIncrHandlers (hsHandler (fst (full_body env now c s))) = bhIncrHandlers (hsHandler s)"
      using kept_handler [OF recorded(4)] kept_other(1) [OF recorded(4)] by (simp add: recorded(3) kept_handler kept_other)
  qed (simp add: kept_handler kept_other)
  show "hsPool (fst (incr_body env now c s)) = hsPool s"
    "bhFullHandlers (hsHandler (fst (incr_body env now c s))) = bhFullHandlers (hsHandler s)"
    "inProgress (fst (incr_body env now c s)) = inProgress s"
  proof (atomize (full), cases rule: incr_body_cases [of env now c s])
    case (recorded t u)
    have "kept False (window False (hsHandler s) now) s t" "kept False (window False (hsHandler s) now) t u"
      using kept_start_incr_all [of s now env c] kept_wait_incr_all [of _ t env now] recorded(1,2) by simp_all
    then show "hsPool (fst (incr_body env now c s)) = hsPool s \<and>
        bhFullHandlers (hsHandler (fst (incr_body env now c s))) = bhFullHandlers (hsHandler s) \<and>
        inProgress (fst (incr_body env now c s)) = inProgress s"
      by (simp add: recorded(3) kept_handler kept_other)
  qed (simp add: kept_handler kept_other)
qed

lemma full_run_idle:
  assumes "idle s ls" and "length ls + 1 < 2 ^ 64"
  shows "idle (fst (runFullBackupInternal env now s)) ls"
proof -
  obtain t r where t: "takeClient env (setInProgress True s) = (t, r)" by fastforce
  note f = takeClient_frame [OF t]
  have p: "pool_inv (hsPool (setInProgress True s)) ls" using assms(1) by (simp add: idle_def)
  show ?thesis
  proof (cases r)
    case (Ok c)
    have "pool_inv (hsPool t) (c # ls)" using f(3) [OF p assms(2) Ok] .
    then have "pool_inv (Close (hsPool t) c) ls" using manager.close_ok [of "hsPool t" "c # ls" c] by simp
    then show ?thesis using assms(1) t Ok f(1) by (simp add: idle_def runFull_parts deferred_def body_pool)
  qed (use assms(1) t f p in \<open>simp_all add: idle_def runFull_parts deferred_def\<close>)
qed

lemma incr_run_idle:
  assumes "idle s ls" and "length ls + 1 < 2 ^ 64"
  shows "idle (fst (runIncrementalBackup env now s)) ls"
proof -
  obtain t r where t: "takeClient env s = (t, r)" by fastforce
  note f = takeClient_frame [OF t]
  have p: "pool_inv (hsPool s) ls" using assms(1) by (simp add: idle_def)
  show ?thesis
  proof (cases r)
    case (Ok c)
    have "pool_inv (hsPool t) (c # ls)" using f(3) [OF p assms(2) Ok] .
    then have "pool_inv (Close (hsPool t) c) ls" using manager.close_ok [of "hsPool t" "c # ls" c] by simp
    then show ?thesis using assms(1) t Ok f(1) by (simp add: idle_def runIncr_parts deferred_def body_pool)
  qed (use assms(1) t f p in \<open>simp_all add: idle_def runIncr_parts deferred_def\<close>)
qed

section \<open>Histories of runs\<close>

text \<open>A run of the history: what it relied on, when it started, and whether it is a full one.\<close>

record routine_run =
  ruEnv :: run_env
  ruTime :: time
  ruFull :: bool

definition run_step :: "routine_run \<Rightarrow> routine_state \<Rightarrow> routine_state" where
  "run_step r s = fst (if ruFull r then runFullBackupInternal (ruEnv r) (ruTime r) s
                       else runIncrementalBackup (ruEnv r) (ruTime r) s)"

lemma run_step_idle: "idle s ls \<Longrightarrow> length ls + 1 < 2 ^ 64 \<Longrightarrow> idle (run_step r s) ls"
  unfolding run_step_def using full_run_idle incr_run_idle by (cases "ruFull r") simp_all

text \<open>
  C8: Runs of a routine that follow each other, full and incremental, in any order and however
  they end (errors of the cluster, of the storage or of the library, and panics included), leave
  it as they found it: the lock of the full backup is free, no handlers are left, every client
  taken is given back, and no other holder of clients is touched.
\<close>

theorem runs_release:
  assumes "idle s ls" and "length ls + 1 < 2 ^ 64"
  shows "idle (fold run_step runs s) ls"
  using assms(1) run_step_idle [OF _ assms(2)] by (induction runs arbitrary: s) simp_all

text \<open>What a run adds to the events, and what it does to the state of the backups.\<close>

lemma full_run_effect:
  fixes env now s
  defines "s' \<equiv> fst (runFullBackupInternal env now s)"
  obtains (unrecorded) es where "hsEvents s' = hsEvents s @ es" "list_all (event_of True (window True (hsHandler s) now)) es"
      "bhState (hsHandler s') = bhState (hsHandler s)"
  | (recorded) es es' where "hsEvents s' = hsEvents s @ es @ Counted FullRuns # es'"
      "list_all (event_of True (window True (hsHandler s) now)) es" "list_all (event_of True (window True (hsHandler s) now)) es'"
      "bhState (hsHandler s') = SetLastFullRun now (bhState (hsHandler s))"
proof -
  obtain t r where t: "takeClient env (setInProgress True s) = (t, r)" by fastforce
  note f = takeClient_frame [OF t]
  have w: "window True (hsHandler t) now = window True (hsHandler s) now" by (simp add: f)
  show thesis
  proof (cases "inProgress s \<or> \<not> is_ok r")
    case True
    then have "hsEvents s' = hsEvents s @ []" "bhState (hsHandler s') = bhState (hsHandler s)"
      using t f by (cases r; auto simp: s'_def runFull_parts deferred_def)+
    then show thesis using unrecorded by simp
  next
    case False
    then obtain c where r: "r = Ok c" by (auto simp: is_ok_iff)
    have ev: "hsEvents s' = hsEvents (fst (full_body env now c t))"
      and st: "bhState (hsHandler s') = bhState (hsHandler (fst (full_body env now c t)))"
      using False t r by (simp_all add: s'_def runFull_parts deferred_def)
    show thesis
    proof (cases rule: full_body_cases [of env now c t])
      case failed
      then obtain es where "hsEvents (fst (full_body env now c t)) = hsEvents t @ es" "list_all (event_of True (window True (hsHandler s) now)) es"
        by (auto simp: kept_def w)
      then show thesis using unrecorded kept_handler [OF failed(2)] f ev st by simp
    next
      case (recorded u v w)
      have k: "kept True (window True (hsHandler s) now) t u" "kept True (window True (hsHandler s) now) u v"
        using kept_start_full_all [of t now env c] kept_wait_full_all [of _ u env now] recorded(1,2) by (simp_all flip: w)
      from kept_trans [OF this] obtain es where es: "hsEvents v = hsEvents t @ es" "list_all (event_of True (window True (hsHandler s) now)) es"
        by (auto simp: kept_def w)
      from recorded(4) obtain es' where es': "hsEvents (fst (full_body env now c t)) = hsEvents w @ es'"
          "list_all (event_of True (window True (hsHandler s) now)) es'"
        by (auto simp: kept_def w)
      have "bhState (hsHandler v) = bhState (hsHandler s)" using k f by (simp add: kept_handler)
      then have "bhState (hsHandler s') = SetLastFullRun now (bhState (hsHandler s))"
        using kept_handler(5) [OF recorded(4)] by (simp add: st recorded(3))
      moreover have "hsEvents s' = hsEvents s @ es @ Counted FullRuns # es'"
        using es es' f by (simp add: ev recorded(3))
      ultimately show thesis using that(2) es(2) es'(2) by blast
    qed
  qed
qed

lemma incr_run_effect:
  fixes env now s
  defines "s' \<equiv> fst (runIncrementalBackup env now s)"
  obtains (skipped) "s' = s" "incr_skipped s"
  | (unrecorded) es where "\<not> incr_skipped s" "hsEvents s' = hsEvents s @ es" "list_all (event_of False (window False (hsHandler s) now)) es"
      "bhState (hsHandler s') = bhState (hsHandler s)"
  | (recorded) es where "\<not> incr_skipped s" "hsEvents s' = hsEvents s @ es @ [Counted IncrRuns]" "list_all (event_of False (window False (hsHandler s) now)) es"
      "bhState (hsHandler s') = SetLastIncrRun now (bhState (hsHandler s))"
proof -
  obtain t r where t: "takeClient env s = (t, r)" by fastforce
  note f = takeClient_frame [OF t]
  have w: "window False (hsHandler t) now = window False (hsHandler s) now" by (simp add: f)
  consider "incr_skipped s" | "\<not> incr_skipped s" "\<not> is_ok r" | c where "\<not> incr_skipped s" "r = Ok c"
    by (auto simp: is_ok_iff)
  then show thesis
  proof cases
    case 1
    then show thesis using skipped by (simp add: s'_def runIncr_parts)
  next
    case 2
    then have "hsEvents s' = hsEvents s @ []" "bhState (hsHandler s') = bhState (hsHandler s)"
      using t f by (cases r; auto simp: s'_def runIncr_parts deferred_def)+
    then show thesis using unrecorded 2(1) by simp
  next
    case 3
    have ev: "hsEvents s' = hsEvents (fst (incr_body env now c t))"
      and st: "bhState (hsHandler s') = bhState (hsHandler (fst (incr_body env now c t)))"
      using 3 t by (simp_all add: s'_def runIncr_parts deferred_def)
    show thesis
    proof (cases rule: incr_body_cases [of env now c t])
      case failed
      then obtain es where "hsEvents (fst (incr_body env now c t)) = hsEvents t @ es" "list_all (event_of False (window False (hsHandler s) now)) es"
        by (auto simp: kept_def w)
      then show thesis using unrecorded kept_handler [OF failed(2)] f ev st 3(1) by simp
    next
      case (recorded u v)
      have k: "kept False (window False (hsHandler s) now) t u" "kept False (window False (hsHandler s) now) u v"
        using kept_start_incr_all [of t now env c] kept_wait_incr_all [of _ u env now] recorded(1,2) by (simp_all flip: w)
      from kept_trans [OF this] obtain es where es: "hsEvents v = hsEvents t @ es" "list_all (event_of False (window False (hsHandler s) now)) es"
        by (auto simp: kept_def w)
      have "bhState (hsHandler v) = bhState (hsHandler s)" using k f by (simp add: kept_handler)
      then have "bhState (hsHandler s') = SetLastIncrRun now (bhState (hsHandler s))" by (simp add: st recorded(3))
      moreover have "hsEvents s' = hsEvents s @ es @ [Counted IncrRuns]" using es f by (simp add: ev recorded(3))
      ultimately show thesis using that(3) es(2) 3(1) by blast
    qed
  qed
qed

section \<open>No incremental backup before a full one\<close>

primrec guarded :: "bool \<Rightarrow> handler_event list \<Rightarrow> bool" where
  "guarded seen [] = True"
| "guarded seen (e # es) = ((case e of BackupStarted full ns folder tb h \<Rightarrow> full \<or> seen | _ \<Rightarrow> True) \<and>
     guarded (seen \<or> Counted FullRuns = e) es)"

lemma guarded_append:
  "guarded seen (xs @ ys) \<longleftrightarrow> guarded seen xs \<and> guarded (seen \<or> Counted FullRuns \<in> set xs) ys"
  by (induction xs arbitrary: seen) (auto simp: disj_ac)

lemma guarded_seen [simp]: "guarded True es"
  by (induction es) (auto split: handler_event.split)

lemma guarded_full: "list_all (event_of True tb) es \<Longrightarrow> guarded seen es"
  by (induction es arbitrary: seen) (auto split: handler_event.split)

definition after_full :: "routine_state \<Rightarrow> bool" where
  "after_full s \<longleftrightarrow> guarded False (hsEvents s) \<and>
     (LastFullRunIsEmpty (bhState (hsHandler s)) \<or> Counted FullRuns \<in> set (hsEvents s))"

lemma run_step_after_full:
  assumes "after_full s"
  shows "after_full (run_step r s)"
proof (cases "ruFull r")
  case True
  show ?thesis
  proof (cases rule: full_run_effect [of "ruEnv r" "ruTime r" s])
    case (unrecorded es)
    then show ?thesis using assms True by (auto simp: after_full_def run_step_def guarded_append guarded_full)
  next
    case (recorded es es')
    then show ?thesis using assms True by (simp add: after_full_def run_step_def guarded_append guarded_full)
  qed
next
  case False
  show ?thesis
  proof (cases rule: incr_run_effect [of "ruEnv r" "ruTime r" s])
    case skipped
    then show ?thesis using assms False by (simp add: run_step_def)
  next
    case (unrecorded es)
    then show ?thesis using assms False by (auto simp: after_full_def run_step_def guarded_append incr_skipped_def)
  next
    case (recorded es)
    then show ?thesis using assms False by (auto simp: after_full_def run_step_def guarded_append incr_skipped_def)
  qed
qed

lemma guarded_split:
  "guarded False (pre @ BackupStarted False ns folder tb h # post) \<Longrightarrow> Counted FullRuns \<in> set pre"
  by (simp add: guarded_append)


section \<open>A recorded full run is complete\<close>

lemma update_in: "x \<in> set (insert_key k v m) \<Longrightarrow> x = (k, v) \<or> x \<in> set m"
  by (induction m) (auto split: if_splits)

abbreviation full_folder :: "routine_state \<Rightarrow> string \<Rightarrow> time \<Rightarrow> string" where
  "full_folder s ns now \<equiv> getFullPath (fullBackupsPath (bhBackend (hsHandler s))) (bhFullPolicy (hsHandler s)) ns now"

lemma startFullLoop_Ok:
  assumes "startFullLoop env now c tb nss s = (t, Ok ())"
  shows "\<exists>es. hsEvents t = hsEvents s @ es \<and>
     (\<forall>x \<in> set (bhFullHandlers (hsHandler t)). x \<in> set (bhFullHandlers (hsHandler s)) \<or>
        (\<exists>h. snd x = Some h \<and> BackupStarted True (fst x) (full_folder s (fst x) now) tb h \<in> set es)) \<and>
     set (keys (bhFullHandlers (hsHandler t))) = set (keys (bhFullHandlers (hsHandler s))) \<union> set nss"
  using assms
proof (induction nss arbitrary: s)
  case (Cons ns nss)
  let ?f = "full_folder s ns now"
  obtain h where h: "runBackup env (bhFullPolicy (hsHandler s)) c tb ns ?f s = Ok h"
    using Cons.prems by (auto simp: Let_def split: outcome.splits)
  define u where "u = update_handler (\<lambda>h'. h'\<lparr>bhFullHandlers := insert_key ns (Some h) (bhFullHandlers h')\<rparr>)
      (emit (BackupStarted True ns ?f tb h) s)"
  have "startFullLoop env now c tb nss u = (t, Ok ())" using Cons.prems h by (simp add: Let_def u_def)
  from Cons.IH [OF this] obtain es where es: "hsEvents t = hsEvents u @ es"
    "\<forall>x \<in> set (bhFullHandlers (hsHandler t)). x \<in> set (bhFullHandlers (hsHandler u)) \<or>
        (\<exists>h. snd x = Some h \<and> BackupStarted True (fst x) (full_folder s (fst x) now) tb h \<in> set es)"
    "set (keys (bhFullHandlers (hsHandler t))) = set (keys (bhFullHandlers (hsHandler u))) \<union> set nss"
    by (auto simp: u_def)
  have "set (keys (bhFullHandlers (hsHandler u))) = insert ns (set (keys (bhFullHandlers (hsHandler s))))"
    by (simp add: u_def dom_map_of_conv_image_fst [symmetric])
  moreover have "x = (ns, Some h) \<or> x \<in> set (bhFullHandlers (hsHandler s))" if "x \<in> set (bhFullHandlers (hsHandler u))" for x
    using that by (auto simp: u_def dest: update_in)
  ultimately show ?case using es
    by (intro exI [of _ "BackupStarted True ns ?f tb h # es"]) (fastforce simp: u_def)
qed simp

lemma waitFullLoop_Ok:
  assumes "waitFullLoop env now hs s = (t, Ok ())"
  shows "\<exists>es. hsEvents t = hsEvents s @ es \<and>
     (\<forall>x \<in> set hs. \<exists>h. snd x = Some h \<and> hvWait env h = None \<and>
        MetadataWritten (full_folder s (fst x) now) (handlerMetadata (hvStats env h) now (fst x)) \<in> set es)"
  using assms
proof (induction hs arbitrary: s)
  case (Cons x hs)
  obtain ns q where x: "x = (ns, q)" by fastforce
  from Cons.prems obtain h where h: "q = Some h" "hvWait env h = None"
    by (auto simp: x Let_def split: option.splits)
  let ?m = "handlerMetadata (hvStats env h) now ns" and ?f = "full_folder s ns now"
  have w: "handlerWriteMetadata env (hvStats env h) now ns ?f s = (emit (MetadataWritten ?f ?m) s, Ok ())"
    and r: "waitFullLoop env now hs (emit (MetadataWritten ?f ?m) s) = (t, Ok ())"
    using Cons.prems by (auto simp: x h Let_def handlerWriteMetadata_def split: outcome.splits)
  from Cons.IH [OF r] obtain es where es: "hsEvents t = hsEvents s @ MetadataWritten ?f ?m # es"
    "\<forall>x \<in> set hs. \<exists>h. snd x = Some h \<and> hvWait env h = None \<and>
        MetadataWritten (full_folder s (fst x) now) (handlerMetadata (hvStats env h) now (fst x)) \<in> set es"
    by auto
  then show ?case using h by (intro exI [of _ "MetadataWritten ?f ?m # es"]) (fastforce simp: x)
qed simp

lemma writeConfLoop_not_Err: "snd (writeConfLoop env now i infos s) \<noteq> Err e"
  by (induction infos arbitrary: i s) (simp_all add: Let_def split: outcome.split)

lemma nodeConfigurations_not_Err: "nodeConfigurations nodes \<noteq> Err e"
proof (induction nodes)
  case (Cons node nodes)
  then show ?case by (cases "nodeConfigurations nodes") (simp_all split: outcome.split)
qed simp

lemma after_record_not_Err:
  "snd (bind_step (if b then deleteFolder env path s else (s, Ok ())) (\<lambda>_ s. writeClusterConfiguration env now s)) \<noteq> Err e"
  using writeConfLoop_not_Err nodeConfigurations_not_Err
  by (auto simp: deleteFolder_def writeClusterConfiguration_def getClusterConfiguration_def split: outcome.split)

text \<open>The namespaces a full run is about, each with a finished backup and its metadata among the events.\<close>

definition backed_up :: "run_env \<Rightarrow> time \<Rightarrow> routine_state \<Rightarrow> handler_event list \<Rightarrow> string \<Rightarrow> bool" where
  "backed_up env now s es ns \<longleftrightarrow>
     (\<exists>h. BackupStarted True ns (full_folder s ns now) (window True (hsHandler s) now) h \<in> set es \<and> hvWait env h = None \<and>
          MetadataWritten (full_folder s ns now) (handlerMetadata (hvStats env h) now ns) \<in> set es)"

lemma full_body_complete:
  assumes "startFullBackupForAllNamespaces env now c s = (t, Ok ())" and "waitForFullBackups env now t = (u, Ok ())"
  shows "\<exists>es nss. hsEvents u = hsEvents s @ es \<and> getNamespacesToBackup env (bhNamespaces (hsHandler s)) = Ok nss \<and>
     (\<forall>ns \<in> set nss. backed_up env now s es ns)"
proof -
  obtain nss where nss: "getNamespacesToBackup env (bhNamespaces (hsHandler s)) = Ok nss"
    and st: "startFullLoop env now c (window True (hsHandler s) now) nss (clearFull s) = (t, Ok ())"
    using assms(1)
    by (auto simp: startFullBackupForAllNamespaces_def Let_def window_def clearFull_def split: outcome.splits)
  have same: "full_folder (clearFull s) ns now = full_folder s ns now" for ns by (simp add: clearFull_def)
  from startFullLoop_Ok [OF st, unfolded same, simplified] obtain es where es: "hsEvents t = hsEvents s @ es"
    "\<forall>x \<in> set (bhFullHandlers (hsHandler t)).
        \<exists>h. snd x = Some h \<and> BackupStarted True (fst x) (full_folder s (fst x) now) (window True (hsHandler s) now) h \<in> set es"
    "set (keys (bhFullHandlers (hsHandler t))) = set nss"
    by auto
  have "kept True (window True (hsHandler s) now) s t" using kept_start_full_all [of s now env c] assms(1) by simp
  then have tf: "full_folder t ns now = full_folder s ns now" for ns by (simp add: kept_handler)
  from waitFullLoop_Ok [OF assms(2) [unfolded waitForFullBackups_def], unfolded tf] obtain es' where
    es': "hsEvents u = hsEvents t @ es'"
    "\<forall>x \<in> set (bhFullHandlers (hsHandler t)). \<exists>h. snd x = Some h \<and> hvWait env h = None \<and>
        MetadataWritten (full_folder s (fst x) now) (handlerMetadata (hvStats env h) now (fst x)) \<in> set es'"
    by auto
  have "backed_up env now s (es @ es') ns" if ns: "ns \<in> set nss" for ns
  proof -
    obtain x where "x \<in> set (bhFullHandlers (hsHandler t))" "fst x = ns" using es(3) ns by force
    then show ?thesis using es(2) es'(2) by (force simp: backed_up_def)
  qed
  then show ?thesis using es(1) es'(1) nss by (intro exI [of _ "es @ es'"] exI [of _ nss]) simp
qed

text \<open>
  Conversely: metadata is only written while the backups are waited for, once for a namespace, and a
  wait that stops early leaves out the metadata of some namespace.
\<close>

definition has_metadata :: "string \<Rightarrow> handler_event list \<Rightarrow> bool" where
  "has_metadata ns es \<longleftrightarrow> (\<exists>f m. MetadataWritten f m \<in> set es \<and> Namespace m = ns)"

lemma has_metadata_simps [simp]:
  "\<not> has_metadata ns []" "has_metadata ns (es @ es') \<longleftrightarrow> has_metadata ns es \<or> has_metadata ns es'"
  "has_metadata ns (MetadataWritten f m # es) \<longleftrightarrow> Namespace m = ns \<or> has_metadata ns es"
  "has_metadata ns (BackupStarted b n f tb h # es) \<longleftrightarrow> has_metadata ns es"
  "has_metadata ns (Counted k # es) \<longleftrightarrow> has_metadata ns es"
  by (auto simp: has_metadata_def)

lemma backed_up_metadata: "backed_up env now s es ns \<Longrightarrow> has_metadata ns es"
  by (force simp: backed_up_def has_metadata_def handlerMetadata_def)

lemma startFullLoop_no_metadata:
  "\<exists>es. hsEvents (fst (startFullLoop env now c tb nss s)) = hsEvents s @ es \<and> (\<forall>ns. \<not> has_metadata ns es)"
proof (induction nss arbitrary: s)
  case (Cons ns nss)
  let ?f = "full_folder s ns now"
  show ?case
  proof (cases "runBackup env (bhFullPolicy (hsHandler s)) c tb ns ?f s")
    case (Ok h)
    let ?u = "update_handler (\<lambda>h'. h'\<lparr>bhFullHandlers := insert_key ns (Some h) (bhFullHandlers h')\<rparr>)
      (emit (BackupStarted True ns ?f tb h) s)"
    obtain es where "hsEvents (fst (startFullLoop env now c tb nss ?u)) = hsEvents ?u @ es" "\<forall>ns. \<not> has_metadata ns es"
      using Cons.IH by blast
    then show ?thesis using Ok by (intro exI [of _ "BackupStarted True ns ?f tb h # es"]) (simp add: Let_def)
  qed (auto simp: Let_def)
qed simp

lemma startFull_no_metadata:
  "\<exists>es. hsEvents (fst (startFullBackupForAllNamespaces env now c s)) = hsEvents s @ es \<and> (\<forall>ns. \<not> has_metadata ns es)"
  using startFullLoop_no_metadata [of env now c _ _ "clearFull s"]
  by (simp add: startFullBackupForAllNamespaces_def Let_def split: outcome.split)

lemma waitFullLoop_stopped:
  assumes "snd (waitFullLoop env now hs s) \<noteq> Ok ()" and "distinct (keys hs)"
  shows "\<exists>es. hsEvents (fst (waitFullLoop env now hs s)) = hsEvents s @ es \<and> (\<exists>ns \<in> set (keys hs). \<not> has_metadata ns es)"
  using assms
proof (induction hs arbitrary: s)
  case (Cons x hs)
  obtain ns q where x: "x = (ns, q)" by fastforce
  show ?case
  proof (cases "\<exists>h. q = Some h \<and> hvWait env h = None \<and>
      handlerWriteMetadata env (hvStats env h) now ns (full_folder s ns now) s =
        (emit (MetadataWritten (full_folder s ns now) (handlerMetadata (hvStats env h) now ns)) s, Ok ())")
    case True
    then obtain h where h: "q = Some h" "hvWait env h = None"
      "handlerWriteMetadata env (hvStats env h) now ns (full_folder s ns now) s =
        (emit (MetadataWritten (full_folder s ns now) (handlerMetadata (hvStats env h) now ns)) s, Ok ())" by blast
    let ?e = "MetadataWritten (full_folder s ns now) (handlerMetadata (hvStats env h) now ns)"
    have w: "waitFullLoop env now (x # hs) s = waitFullLoop env now hs (emit ?e s)" by (simp add: x h Let_def)
    obtain es ns' where "hsEvents (fst (waitFullLoop env now hs (emit ?e s))) = hsEvents s @ ?e # es"
      "ns' \<in> set (keys hs)" "\<not> has_metadata ns' es"
      using Cons.IH [of "emit ?e s"] Cons.prems unfolding w by auto
    moreover have "ns' \<noteq> ns" using Cons.prems(2) calculation(2) by (auto simp: x)
    ultimately show ?thesis unfolding w
      by (intro exI [of _ "?e # es"]) (auto simp: x handlerMetadata_def intro!: bexI [of _ ns'])
  next
    case False
    then have "\<exists>es. hsEvents (fst (waitFullLoop env now (x # hs) s)) = hsEvents s @ es \<and> \<not> has_metadata ns es"
      by (cases q; cases "hvWait env (the q)")
        (auto simp: x Let_def handlerWriteMetadata_def has_metadata_def split: outcome.splits)
    then show ?thesis by (auto simp: x)
  qed
qed simp

lemma startFullLoop_wf: "wf_map (bhFullHandlers (hsHandler s)) \<Longrightarrow> wf_map (bhFullHandlers (hsHandler (fst (startFullLoop env now c tb nss s))))"
  by (induction env now c tb nss s rule: startFullLoop.induct) (simp_all add: Let_def split: outcome.split)

lemma namespaces_exist: "getNamespacesToBackup env nss = Ok ms \<Longrightarrow> ms \<noteq> []"
proof -
  have "Split c s \<noteq> []" for c s by (induction c s rule: Split.induct) (simp_all split: list.split)
  then show "getNamespacesToBackup env nss = Ok ms \<Longrightarrow> ms \<noteq> []"
    by (auto simp: getNamespacesToBackup_def getAllNamespacesOfCluster_def outcome_simps split: if_splits)
qed

lemma full_body_incomplete:
  assumes "getNamespacesToBackup env (bhNamespaces (hsHandler s)) = Ok nss"
    and "snd (startFullBackupForAllNamespaces env now c s) \<noteq> Ok () \<or>
      snd (waitForFullBackups env now (fst (startFullBackupForAllNamespaces env now c s))) \<noteq> Ok ()"
  shows "\<exists>es. hsEvents (fst (full_body env now c s)) = hsEvents s @ es \<and> (\<exists>ns \<in> set nss. \<not> has_metadata ns es)"
proof -
  obtain t r where t: "startFullBackupForAllNamespaces env now c s = (t, r)" by fastforce
  obtain es where es: "hsEvents t = hsEvents s @ es" "\<forall>ns. \<not> has_metadata ns es"
    using startFull_no_metadata [of env now c s] by (auto simp: t)
  obtain ns where ns: "ns \<in> set nss" using namespaces_exist [OF assms(1)] by (cases nss) auto
  show ?thesis
  proof (cases "r = Ok ()")
    case False
    then have "fst (full_body env now c s) = t" by (cases r) (simp_all add: full_body_def t)
    then show ?thesis using es ns by blast
  next
    case True
    obtain u q where u: "waitForFullBackups env now t = (u, q)" by fastforce
    have st: "startFullLoop env now c (window True (hsHandler s) now) nss (clearFull s) = (t, Ok ())"
      using t True assms(1) by (simp add: startFullBackupForAllNamespaces_def Let_def window_def clearFull_def)
    have k: "set (keys (bhFullHandlers (hsHandler t))) = set nss" "wf_map (bhFullHandlers (hsHandler t))"
      using startFullLoop_Ok [OF st] startFullLoop_wf [of "clearFull s" env now c "window True (hsHandler s) now" nss] st by auto
    have q: "q \<noteq> Ok ()" using assms(2) t u True by simp
    obtain es' ns' where "hsEvents u = hsEvents t @ es'" "ns' \<in> set nss" "\<not> has_metadata ns' es'"
      using waitFullLoop_stopped [of env now "permuted (hvOrder env) (bhFullHandlers (hsHandler t))" t]
        keys_permuted [OF k(2), of "hvOrder env"] k(1) u q by (auto simp: waitForFullBackups_def)
    moreover have "fst (full_body env now c s) = u" using t u True q by (cases q) (simp_all add: full_body_def)
    ultimately show ?thesis using es by (intro exI [of _ "es @ es'"]) auto
  qed
qed

text \<open>
  C6: A full run that is not skipped records itself in the state of the routine exactly when it
  is complete: when the backup of every namespace of the run was started with the bounds of the run,
  ended without an error, and its metadata, made of its final counters, was written to the namespace's
  folder. With no error the state has the time of the run; with an error the state is what it was. A run
  that panics after it recorded itself, while it removes the incremental backups or writes the
  configuration of the cluster, stays recorded.
\<close>

theorem full_run_complete:
  assumes "runFullBackupInternal env now s = (s', r)" and "\<not> inProgress s"
  shows "(r = Ok () \<longrightarrow> bhState (hsHandler s') = SetLastFullRun now (bhState (hsHandler s))) \<and>
    ((\<exists>e. r = Err e) \<longrightarrow> bhState (hsHandler s') = bhState (hsHandler s)) \<and>
    (bhState (hsHandler s') \<noteq> bhState (hsHandler s) \<longrightarrow>
      bhState (hsHandler s') = SetLastFullRun now (bhState (hsHandler s)) \<and>
      (\<exists>nss es. getNamespacesToBackup env (bhNamespaces (hsHandler s)) = Ok nss \<and>
         hsEvents s' = hsEvents s @ es \<and> (\<forall>ns \<in> set nss. backed_up env now s es ns))) \<and>
    (\<forall>nss es. getNamespacesToBackup env (bhNamespaces (hsHandler s)) = Ok nss \<longrightarrow> hsEvents s' = hsEvents s @ es \<longrightarrow>
       (\<forall>ns \<in> set nss. backed_up env now s es ns) \<longrightarrow> bhState (hsHandler s') = SetLastFullRun now (bhState (hsHandler s)))"
proof -
  obtain t q where t: "takeClient env (setInProgress True s) = (t, q)" by fastforce
  note f = takeClient_frame [OF t]
  show ?thesis
  proof (cases q)
    case (Ok c)
    have s': "s' = setInProgress False (clearFull (closeClient c (fst (full_body env now c t))))"
      and r: "r = snd (full_body env now c t)"
      using assms t Ok by (simp_all add: runFull_parts deferred_def)
    have same: "bhState (hsHandler t) = bhState (hsHandler s)" "hsEvents t = hsEvents s"
      "backed_up env now t es = backed_up env now s es" "bhNamespaces (hsHandler t) = bhNamespaces (hsHandler s)" for es
      by (simp_all add: f backed_up_def fun_eq_iff) (simp_all add: setInProgress_def)
    show ?thesis
    proof (cases rule: full_body_cases [of env now c t])
      case failed
      have no: "\<not> (\<forall>ns \<in> set nss. backed_up env now s es ns)"
        if n: "getNamespacesToBackup env (bhNamespaces (hsHandler s)) = Ok nss" and e: "hsEvents s' = hsEvents s @ es" for nss es
      proof -
        obtain es' ns where "hsEvents s' = hsEvents s @ es'" "ns \<in> set nss" "\<not> has_metadata ns es'"
          using full_body_incomplete [of env t nss now c] n failed(3) by (auto simp: same s')
        then show ?thesis using e backed_up_metadata [of env now s es ns] by auto
      qed
      have "bhState (hsHandler s') = bhState (hsHandler s)" using kept_handler(5) [OF failed(2)] by (simp add: s' same)
      moreover have "r \<noteq> Ok ()" using failed(1) by (auto simp: r [symmetric])
      ultimately show ?thesis using no by blast
    next
      case (recorded u v w)
      have k: "kept True (window True (hsHandler t) now) t u" "kept True (window True (hsHandler t) now) u v"
        using kept_start_full_all [of t now env c] kept_wait_full_all [of _ u env now] recorded(1,2) by simp_all
      have st: "bhState (hsHandler s') = SetLastFullRun now (bhState (hsHandler s))"
        using kept_handler(5) [OF recorded(4)] k by (simp add: s' recorded(3) kept_handler same)
      obtain es nss where es: "hsEvents v = hsEvents s @ es" "getNamespacesToBackup env (bhNamespaces (hsHandler s)) = Ok nss"
        "\<forall>ns \<in> set nss. backed_up env now s es ns"
        using full_body_complete [OF recorded(1,2)] by (auto simp: same)
      obtain es' where es': "hsEvents s' = hsEvents w @ es'" using recorded(4) by (auto simp: kept_def s')
      have "hsEvents s' = hsEvents s @ es @ Counted FullRuns # es'" by (simp add: es' recorded(3) es)
      moreover have "\<forall>ns \<in> set nss. backed_up env now s (es @ Counted FullRuns # es') ns"
        using es(3) by (force simp: backed_up_def)
      moreover have "r \<noteq> Err e" for e
        using recorded(1-3) after_record_not_Err by (simp add: r full_body_def Let_def)
      ultimately show ?thesis using st es(2) by blast
    qed
  next
    case (Err e)
    then have s': "bhState (hsHandler s') = bhState (hsHandler s)" "hsEvents s' = hsEvents s" "r \<noteq> Ok ()"
      using assms t f by (auto simp: runFull_parts deferred_def)
    then show ?thesis using namespaces_exist by (auto simp: backed_up_def neq_Nil_conv)
  next
    case (Panic p)
    then have s': "bhState (hsHandler s') = bhState (hsHandler s)" "hsEvents s' = hsEvents s" "r \<noteq> Ok ()"
      using assms t f by (auto simp: runFull_parts deferred_def)
    then show ?thesis using namespaces_exist by (auto simp: backed_up_def neq_Nil_conv)
  qed
qed

section \<open>A concrete routine\<close>

definition demo_run_store :: store where
  "demo_run_store = demo_store\<lparr>stClusters := [7 \<mapsto> demo_cluster\<lparr>acTLS := None\<rparr>],
     stRoutines := [0 \<mapsto> demo_routine\<lparr>brSourceCluster := Some 7\<rparr>]\<rparr>"

definition demo_stats :: LibBackupStats where
  "demo_stats = \<lparr>bsStartTime = Time 0, bsTotalRecords = 10, bsReadRecords = 5, bsFileCount = 1, bsBytesWritten = 70,
     bsSIndexes = 0, bsUDFs = 0, bsIsEmpty = False\<rparr>"

definition demo_run_env :: run_env where
  "demo_run_env = \<lparr>hvStorage = demo_lib, hvLib = demo_backup_lib,
     hvClients = demo_client_lib\<lparr>clConnect := (\<lambda>n policy hosts. Ok 100)\<rparr>, hvCodec = demo_yaml,
     hvWait = (\<lambda>h. None), hvStats = (\<lambda>h. demo_stats), hvRandomNode = Ok (), hvRequestInfo = Ok [(''namespaces'', ''a;b'')],
     hvNodes = [\<lparr>cnActive = True, cnGenerateConf = Ok (), cnToConfFile = Ok ''conf''\<rparr>], hvOrder = rev\<rparr>"

definition demo_handler :: BackupRoutineHandler where
  "demo_handler = \<lparr>bhBackend = demo_backend, bhFullPolicy = backupPolicyToModel newBackupPolicy,
     bhIncrPolicy = CopySMDDisabled (backupPolicyToModel newBackupPolicy), bhRoutine = Some 0, bhRoutineName = ''r'',
     bhNamespaces = [], bhStorage = Some 3, bhSecretAgent = None,
     bhState = NewBackupState, bhFullHandlers = [], bhIncrHandlers = []\<rparr>"

definition demo_run_state :: routine_state where
  "demo_run_state = \<lparr>hsHandler = demo_handler, hsPool = NewClientManager demo_run_store, hsEvents = []\<rparr>"

definition demo_run_env1 :: run_env where
  "demo_run_env1 = demo_run_env\<lparr>hvRequestInfo := Ok [(''namespaces'', ''a'')]\<rparr>"

definition demo_runs :: "routine_run list" where
  "demo_runs = [\<lparr>ruEnv = demo_run_env1, ruTime = timeUnixMilli 10, ruFull = False\<rparr>,
     \<lparr>ruEnv = demo_run_env1, ruTime = timeUnixMilli 20, ruFull = True\<rparr>,
     \<lparr>ruEnv = demo_run_env1, ruTime = timeUnixMilli 30, ruFull = False\<rparr>]"

lemma demo_idle: "idle demo_run_state []"
  by (simp add: idle_def demo_run_state_def demo_handler_def demo_backend_def pool_inv_new)

theorem runs_release_witness: "idle (fold run_step demo_runs demo_run_state) []"
  by (rule runs_release) (simp_all add: demo_idle)

fun incremental_start :: "handler_event \<Rightarrow> bool" where
  "incremental_start (BackupStarted full ns folder tb h) \<longleftrightarrow> \<not> full"
| "incremental_start e \<longleftrightarrow> False"

lemma demo_incremental: "list_ex incremental_start (hsEvents (fold run_step demo_runs demo_run_state))"
  by code_simp


lemma demo_full_run: "snd (runFullBackupInternal demo_run_env (timeUnixMilli 20) demo_run_state) = Ok ()"
  by code_simp

theorem full_run_complete_witness:
  "\<exists>nss es. getNamespacesToBackup demo_run_env [] = Ok nss \<and> nss = [''a'', ''b''] \<and>
     hsEvents (fst (runFullBackupInternal demo_run_env (timeUnixMilli 20) demo_run_state)) = es \<and>
     (\<forall>ns \<in> set nss. backed_up demo_run_env (timeUnixMilli 20) demo_run_state es ns)"
proof -
  obtain s' where r: "runFullBackupInternal demo_run_env (timeUnixMilli 20) demo_run_state = (s', Ok ())"
    using demo_full_run by (metis prod.collapse)
  have s: "\<not> inProgress demo_run_state" "bhState (hsHandler demo_run_state) = NewBackupState"
    "bhNamespaces (hsHandler demo_run_state) = []" "hsEvents demo_run_state = []"
    by (simp_all add: demo_run_state_def demo_handler_def demo_backend_def)
  note c = full_run_complete [OF r s(1), unfolded s]
  have "SetLastFullRun (timeUnixMilli 20) NewBackupState \<noteq> NewBackupState"
    by (simp add: SetLastFullRun_def NewBackupState_def)
  then have "bhState (hsHandler s') \<noteq> NewBackupState" using conjunct1 [OF c] by metis
  from mp [OF conjunct1 [OF conjunct2 [OF conjunct2 [OF c]]] this] obtain nss es where
    "getNamespacesToBackup demo_run_env [] = Ok nss" "hsEvents s' = [] @ es"
    "\<forall>ns \<in> set nss. backed_up demo_run_env (timeUnixMilli 20) demo_run_state es ns"
    by blast
  moreover have "getNamespacesToBackup demo_run_env [] = Ok [''a'', ''b'']" by code_simp
  ultimately show ?thesis using r by (intro exI [of _ nss] exI [of _ es]) simp
qed

end
