(* ===== verification/IncrementalProps.thy ===== *)
theory IncrementalProps
  imports RoutineProps
begin

text \<open>
  The time windows of incremental runs, and what becomes of a run that fails: a failure of the
  cluster or of the library is logged only, and the state of the routine goes on as if the window
  had been backed up.
\<close>

section \<open>Windows\<close>

lemma LastRun_SetLastIncrRun: "LastRun st < now \<Longrightarrow> LastRun (SetLastIncrRun now st) = now"
  by (auto simp: LastRun_def SetLastIncrRun_def split: if_splits)

text \<open>If the event is the start of a backup, it is an incremental one with the bounds.\<close>

fun starts_in :: "TimeBounds \<Rightarrow> handler_event \<Rightarrow> bool" where
  "starts_in tb (BackupStarted full ns folder tb' h) \<longleftrightarrow> \<not> full \<and> tb' = tb"
| "starts_in tb e \<longleftrightarrow> True"

lemma starts_in_events:
  assumes "list_all (event_of False tb) es"
  shows "list_all (starts_in tb) es" and "Counted IncrRuns \<notin> set es"
proof -
  have "event_of False tb e \<Longrightarrow> starts_in tb e" for e by (cases e) simp_all
  then show "list_all (starts_in tb) es" using assms by (auto simp: list_all_iff)
qed (use assms in \<open>auto simp: list_all_iff\<close>)

text \<open>
  C23: Every backup an incremental run starts covers the time from the last recorded run of the
  routine (up to the start of the run for a sealed policy). A run started after the last recorded
  one, as the clock goes, either records itself, and then the next window begins exactly where the
  run began, or leaves the next window where its own was: the windows leave nothing out, and those of
  a sealed policy do not overlap either. (Without a sealed policy a window has no upper bound.)
\<close>

theorem incremental_windows_adjacent:
  fixes env now s
  defines "s' \<equiv> fst (runIncrementalBackup env now s)"
  assumes "LastRun (bhState (hsHandler s)) < now"
  shows "\<exists>es. hsEvents s' = hsEvents s @ es \<and>
      list_all (starts_in \<lparr>FromTime = Some (LastRun (bhState (hsHandler s))),
         ToTime = (if IsSealed (bhFullPolicy (hsHandler s)) then Some now else None)\<rparr>) es \<and>
      LastRun (bhState (hsHandler s')) = (if Counted IncrRuns \<in> set es then now else LastRun (bhState (hsHandler s)))"
proof (cases rule: incr_run_effect [of env now s])
  case skipped
  then show ?thesis by (intro exI [of _ "[]"]) (simp add: s'_def)
next
  case (unrecorded es)
  then show ?thesis using starts_in_events [OF unrecorded(3)] by (intro exI [of _ es]) (simp add: s'_def window_def)
next
  case (recorded es)
  then show ?thesis using starts_in_events [OF recorded(3)] assms(2)
    by (intro exI [of _ "es @ [Counted IncrRuns]"]) (simp add: s'_def window_def LastRun_SetLastIncrRun)
qed

section \<open>Failures\<close>

text \<open>What a run did, but for its counted failures; states that differ in these only.\<close>

definition done_in :: "routine_state \<Rightarrow> handler_event list" where
  "done_in s = filter (\<lambda>e. e \<noteq> Counted IncrFailures) (hsEvents s)"

definition alike :: "routine_state \<Rightarrow> routine_state \<Rightarrow> bool" where
  "alike s t \<longleftrightarrow> hsPool s = hsPool t \<and> hsHandler s = hsHandler t \<and> done_in s = done_in t"

lemma alike_simps [simp]:
  "alike s s" "alike s t \<Longrightarrow> alike (emit e s) (emit e t)"
  "alike s t \<Longrightarrow> alike (emit (Counted IncrFailures) s) t" "alike s t \<Longrightarrow> alike s (emit (Counted IncrFailures) t)"
  "alike s t \<Longrightarrow> alike (clearIncr s) (clearIncr t)" "alike s t \<Longrightarrow> alike (closeClient c s) (closeClient c t)"
  by (simp_all add: alike_def done_in_def clearIncr_def)

lemma alike_parts: "alike s t \<Longrightarrow> hsPool s = hsPool t" "alike s t \<Longrightarrow> hsHandler s = hsHandler t"
  by (simp_all add: alike_def)

definition agree :: "(routine_state, 'a) step \<Rightarrow> (routine_state, 'a) step \<Rightarrow> bool" where
  "agree r q \<longleftrightarrow> snd r = snd q \<and> alike (fst r) (fst q)"

lemma agree_bind: "agree r q \<Longrightarrow> (\<And>x s t. alike s t \<Longrightarrow> agree (f x s) (g x t)) \<Longrightarrow> agree (bind_step r f) (bind_step q g)"
  by (cases r; cases q; cases "snd r") (auto simp: agree_def)

lemma agree_logged: "agree r q \<Longrightarrow> agree (logged r) (logged q)"
  by (cases r; cases q; cases "snd r") (auto simp: agree_def)

lemma agree_write:
  "alike s t \<Longrightarrow> agree (handlerWriteMetadata env st now ns f s) (handlerWriteMetadata (env\<lparr>hvWait := w\<rparr>) st now ns f t)"
  using alike_parts by (simp add: agree_def handlerWriteMetadata_def Let_def split: outcome.split)

lemma agree_delete: "alike s t \<Longrightarrow> agree (deleteFolder env p s) (deleteFolder (env\<lparr>hvWait := w\<rparr>) p t)"
  using alike_parts by (simp add: agree_def deleteFolder_def split: outcome.split)

lemma agree_wait_loop:
  "alike s t \<Longrightarrow> agree (waitIncrLoop env now hs b s) (waitIncrLoop (env\<lparr>hvWait := w\<rparr>) now hs b t)"
proof (induction hs arbitrary: b s t)
  case Nil
  then show ?case by (simp add: agree_def)
next
  case (Cons x hs)
  obtain ns q where x: "x = (ns, q)" by fastforce
  show ?case
  proof (cases q)
    case None
    then show ?thesis using Cons.prems by (simp add: x agree_def)
  next
    case (Some bh)
    let ?s = "case hvWait env bh of Some e \<Rightarrow> emit (Counted IncrFailures) s | None \<Rightarrow> s"
    let ?t = "case w bh of Some e \<Rightarrow> emit (Counted IncrFailures) t | None \<Rightarrow> t"
    have st: "alike ?s ?t" using Cons.prems by (simp split: option.split)
    then have h: "hsHandler ?s = hsHandler ?t" by (simp add: alike_def)
    show ?thesis
      unfolding x waitIncrLoop.simps Some option.case Let_def
      by (simp add: h)
        (intro conjI impI agree_bind agree_delete agree_logged agree_write st Cons.IH; assumption)
  qed
qed

lemma startIncr_wait: "startIncrementalBackupForAllNamespaces (env\<lparr>hvWait := w\<rparr>) c now s = startIncrementalBackupForAllNamespaces env c now s"
proof -
  have "startIncrLoop (env\<lparr>hvWait := w\<rparr>) now c tb nss s = startIncrLoop env now c tb nss s" for tb nss s
  proof (induction nss arbitrary: s)
    case (Cons ns nss)
    have "runBackup (env\<lparr>hvWait := w\<rparr>) p c tb ns f s = runBackup env p c tb ns f s" for p f
      unfolding runBackup_def Let_def by (simp cong: option.case_cong)
    then show ?case using Cons.IH by (simp only: startIncrLoop.simps Let_def)
  qed simp
  moreover have "getNamespacesToBackup (env\<lparr>hvWait := w\<rparr>) nss = getNamespacesToBackup env nss" for nss
    by (simp add: getNamespacesToBackup_def getAllNamespacesOfCluster_def)
  ultimately show ?thesis by (simp only: startIncrementalBackupForAllNamespaces_def)
qed

lemma agree_incr_body: "agree (incr_body env now c s) (incr_body (env\<lparr>hvWait := w\<rparr>) now c s)"
  unfolding incr_body_def startIncr_wait
proof (rule agree_bind)
  show "agree (startIncrementalBackupForAllNamespaces env c now s) (startIncrementalBackupForAllNamespaces env c now s)"
    by (simp add: agree_def)
  show "agree (bind_step (waitForIncrementalBackups env now s)
      (\<lambda>_ s. (update_handler (\<lambda>h. h\<lparr>bhState := SetLastIncrRun now (bhState h)\<rparr>) (emit (Counted IncrRuns) s), Ok ())))
    (bind_step (waitForIncrementalBackups (env\<lparr>hvWait := w\<rparr>) now t)
      (\<lambda>_ s. (update_handler (\<lambda>h. h\<lparr>bhState := SetLastIncrRun now (bhState h)\<rparr>) (emit (Counted IncrRuns) s), Ok ())))"
    if a: "alike s t" for s t
  proof (rule agree_bind)
    have h: "hsHandler s = hsHandler t" using a by (simp add: alike_def)
    show "agree (waitForIncrementalBackups env now s) (waitForIncrementalBackups (env\<lparr>hvWait := w\<rparr>) now t)"
      unfolding waitForIncrementalBackups_def h
    proof (rule agree_bind)
      show "agree (waitIncrLoop env now (permuted (hvOrder env) (bhIncrHandlers (hsHandler t))) False s)
        (waitIncrLoop (env\<lparr>hvWait := w\<rparr>) now (permuted (hvOrder (env\<lparr>hvWait := w\<rparr>)) (bhIncrHandlers (hsHandler t))) False t)"
        using agree_wait_loop [OF a] by simp
    qed (use agree_delete alike_parts in \<open>simp add: agree_def\<close>)
  qed (auto simp: agree_def alike_def done_in_def emit_def)
qed

text \<open>
  C35: Whether the backups of an incremental run succeed makes no difference to the routine: with any
  other answers of the library's \<open>Wait\<close> the run ends in the same way, leaves the same state, handlers
  and pool of clients, and does the same, the backups it starts, the metadata it writes and the
  folders it deletes, but for the failures it counts. In particular a run all of whose backups failed
  after they were started has their metadata written (unless they are empty), is recorded, and the next window begins after it.
\<close>

theorem incremental_failures_ignored:
  "snd (runIncrementalBackup env now s) = snd (runIncrementalBackup (env\<lparr>hvWait := w\<rparr>) now s) \<and>
   hsHandler (fst (runIncrementalBackup env now s)) = hsHandler (fst (runIncrementalBackup (env\<lparr>hvWait := w\<rparr>) now s)) \<and>
   hsPool (fst (runIncrementalBackup env now s)) = hsPool (fst (runIncrementalBackup (env\<lparr>hvWait := w\<rparr>) now s)) \<and>
   filter (\<lambda>e. e \<noteq> Counted IncrFailures) (hsEvents (fst (runIncrementalBackup env now s))) =
     filter (\<lambda>e. e \<noteq> Counted IncrFailures) (hsEvents (fst (runIncrementalBackup (env\<lparr>hvWait := w\<rparr>) now s)))"
proof -
  have t: "takeClient (env\<lparr>hvWait := w\<rparr>) s = takeClient env s"
    unfolding takeClient_def by (simp cong: option.case_cong)
  have d: "agree r q \<Longrightarrow> agree (deferred (\<lambda>s. clearIncr (closeClient c s)) r) (deferred (\<lambda>s. clearIncr (closeClient c s)) q)"
    for c and r q :: "(routine_state, unit) step"
    by (simp add: agree_def deferred_def)
  obtain u r where u: "takeClient env s = (u, r)" by fastforce
  have "agree (runIncrementalBackup env now s) (runIncrementalBackup (env\<lparr>hvWait := w\<rparr>) now s)"
    using agree_logged [OF d [OF agree_incr_body]]
    by (cases r) (simp_all add: runIncr_parts t u, simp_all add: agree_def)
  then show ?thesis by (simp add: agree_def alike_def done_in_def)
qed

section \<open>A backup that cannot be started\<close>

abbreviation incr_folder :: "routine_state \<Rightarrow> string \<Rightarrow> time \<Rightarrow> string" where
  "incr_folder s ns now \<equiv> getIncrementalPathForNamespace (incrementalBackupsPath (bhBackend (hsHandler s))) ns now"

text \<open>One turn of the loop: what it stores for the namespace.\<close>

definition stored :: "handler_event \<Rightarrow> string \<Rightarrow> ptr \<Rightarrow> routine_state \<Rightarrow> routine_state" where
  "stored e ns q s = update_handler (\<lambda>h. h\<lparr>bhIncrHandlers := insert_key ns q (bhIncrHandlers h)\<rparr>) (emit e s)"

lemma stored_simps [simp]:
  "bhIncrHandlers (hsHandler (stored e ns q s)) = insert_key ns q (bhIncrHandlers (hsHandler s))"
  "bhIncrPolicy (hsHandler (stored e ns q s)) = bhIncrPolicy (hsHandler s)"
  "bhBackend (hsHandler (stored e ns q s)) = bhBackend (hsHandler s)"
  by (simp_all add: stored_def)

lemma startIncrLoop_turn:
  "startIncrLoop env now c tb (ns # nss) s =
     (case runBackup env (bhIncrPolicy (hsHandler s)) c tb ns (incr_folder s ns now) s of
        Panic p \<Rightarrow> (s, Panic p)
      | Err e \<Rightarrow> startIncrLoop env now c tb nss (stored (Counted IncrFailures) ns None s)
      | Ok h \<Rightarrow> startIncrLoop env now c tb nss (stored (BackupStarted False ns (incr_folder s ns now) tb h) ns (Some h) s))"
  unfolding stored_def Let_def startIncrLoop.simps by (rule refl)

lemma runBackup_stored [simp]: "runBackup env policy c w ns folder (stored e n q s) = runBackup env policy c w ns folder s"
  unfolding runBackup_def Let_def stored_def by (simp cong: option.case_cong)

lemma runBackup_clearIncr: "runBackup env policy c w ns folder (clearIncr s) = runBackup env policy c w ns folder s"
  unfolding runBackup_def Let_def clearIncr_def by (simp cong: option.case_cong)

lemma startIncrLoop_other:
  "startIncrLoop env now c tb nss s = (t, Ok ()) \<Longrightarrow> ns \<notin> set nss \<Longrightarrow>
     lookup (bhIncrHandlers (hsHandler t)) ns = lookup (bhIncrHandlers (hsHandler s)) ns"
proof (induction nss arbitrary: s)
  case (Cons n nss)
  note * = Cons.prems(1) [unfolded startIncrLoop_turn]
  show ?case using * Cons.prems(2) Cons.IH by (auto split: outcome.splits)
qed simp

lemma startIncrLoop_failed:
  assumes "startIncrLoop env now c tb nss s = (t, Ok ())" and "distinct nss" and "ns \<in> set nss"
    and "runBackup env (bhIncrPolicy (hsHandler s)) c tb ns (incr_folder s ns now) s = Err e"
  shows "lookup (bhIncrHandlers (hsHandler t)) ns = Some None"
  using assms
proof (induction nss arbitrary: s)
  case (Cons n nss)
  note * = Cons.prems(1) [unfolded startIncrLoop_turn]
  show ?case
  proof (cases "n = ns")
    case True
    then have "startIncrLoop env now c tb nss (stored (Counted IncrFailures) ns None s) = (t, Ok ())"
      using * Cons.prems(4) by simp
    from startIncrLoop_other [OF this, of ns] show ?thesis using Cons.prems(2) True by simp
  next
    case False
    then have m: "ns \<in> set nss" "distinct nss" using Cons.prems by simp_all
    show ?thesis
      using * Cons.IH [OF _ m(2,1)] Cons.prems(4) by (auto split: outcome.splits)
  qed
qed simp

lemma startIncrLoop_not_Err: "snd (startIncrLoop env now c tb nss s) \<noteq> Err e"
proof (induction nss arbitrary: s)
  case (Cons n nss)
  then show ?case unfolding startIncrLoop_turn by (simp split: outcome.split)
qed simp

lemma not_Err: "snd (deleteFolder env path s) \<noteq> Err e" "snd (logged r) \<noteq> Err e"
  by (simp add: deleteFolder_def split: outcome.split) (cases r; cases "snd r"; simp)

lemma waitIncrLoop_nil: "(ns, None) \<in> set hs \<Longrightarrow> \<exists>p. snd (waitIncrLoop env now hs b s) = Panic p"
proof (induction hs arbitrary: b s)
  case (Cons x hs)
  obtain n q where x: "x = (n, q)" by fastforce
  have "\<exists>p. snd (bind_step r f) = Panic p"
    if "\<And>e. snd r \<noteq> Err e" "\<And>x t. \<exists>p. snd (f x t) = Panic p" for r :: "(routine_state, unit) step" and f :: "_ \<Rightarrow> _ \<Rightarrow> (routine_state, bool) step"
    using that by (cases r; cases "snd r") auto
  note bind = this
  show ?case
  proof (cases q)
    case (Some bh)
    then have m: "(ns, None) \<in> set hs" using Cons.prems by (simp add: x)
    show ?thesis
      unfolding x waitIncrLoop.simps Some option.case Let_def
      by (cases "bsIsEmpty (hvStats env bh)") (simp_all only: if_True if_False, (intro bind not_Err Cons.IH m)+)
  qed (simp add: x)
qed simp

text \<open>
  C36: An incremental run that cannot start the backup of one of its namespaces panics when it waits
  for the backups: the handler stored for the namespace is nil. The run is not recorded, and the
  handlers are cleared by the deferred call.
\<close>

theorem incremental_start_failure_panics:
  assumes "\<not> incr_skipped s" and "takeClient env s = (t, Ok c)"
    and "getNamespacesToBackup env (bhNamespaces (hsHandler s)) = Ok nss" and "distinct nss" and "ns \<in> set nss"
    and "runBackup env (bhIncrPolicy (hsHandler s)) c (window False (hsHandler s) now) ns (incr_folder s ns now) t = Err e"
  shows "\<exists>s' p. runIncrementalBackup env now s = (s', Panic p) \<and> bhState (hsHandler s') = bhState (hsHandler s) \<and>
    bhIncrHandlers (hsHandler s') = []"
proof -
  note f = takeClient_frame [OF assms(2)]
  obtain u r where u: "startIncrLoop env now c (window False (hsHandler s) now) nss (clearIncr t) = (u, r)" by fastforce
  have st: "startIncrementalBackupForAllNamespaces env c now t = (u, r)"
    using assms(3) u by (simp add: startIncrementalBackupForAllNamespaces_def incrementalBounds_window f clearIncr_def)
  have run: "runBackup env (bhIncrPolicy (hsHandler (clearIncr t))) c (window False (hsHandler s) now) ns
      (incr_folder (clearIncr t) ns now) (clearIncr t) = Err e"
    using assms(6) unfolding runBackup_clearIncr by (simp add: f clearIncr_def)
  have "\<exists>p. snd (incr_body env now c t) = Panic p"
  proof (cases r)
    case (Ok x)
    then have "startIncrLoop env now c (window False (hsHandler s) now) nss (clearIncr t) = (u, Ok ())" using u by simp
    from startIncrLoop_failed [OF this assms(4,5) run] have "(ns, None) \<in> set (bhIncrHandlers (hsHandler u))"
      by (rule lookup_in_set)
    then obtain p where "snd (waitIncrLoop env now (permuted (hvOrder env) (bhIncrHandlers (hsHandler u))) False u) = Panic p"
      using waitIncrLoop_nil by (metis set_permuted)
    then show ?thesis
      using st Ok by (cases "waitIncrLoop env now (permuted (hvOrder env) (bhIncrHandlers (hsHandler u))) False u")
        (simp add: incr_body_def waitForIncrementalBackups_def)
  qed (use st u startIncrLoop_not_Err in \<open>auto simp: incr_body_def dest: arg_cong [where f = snd]\<close>)
  then obtain v p where b: "incr_body env now c t = (v, Panic p)" by (cases "incr_body env now c t") auto
  have "bhState (hsHandler v) = bhState (hsHandler s)"
  proof (cases rule: incr_body_cases [of env now c t])
    case failed
    then show ?thesis using b f by (simp add: kept_handler)
  qed (use b in simp)
  then show ?thesis using assms(1,2) b by (simp add: runIncr_parts deferred_def)
qed

section \<open>Concrete runs\<close>

definition demo_ready :: routine_state where
  "demo_ready = demo_run_state\<lparr>hsHandler := demo_handler
     \<lparr>bhNamespaces := [''a'', ''b''], bhState := NewBackupState\<lparr>LastFullRun := timeUnixMilli 20\<rparr>\<rparr>\<rparr>"

definition demo_refusing :: run_env where
  "demo_refusing = demo_run_env\<lparr>hvLib := demo_backup_lib
     \<lparr>blBackup := (\<lambda>client config writer. if lbNamespace config = ''b'' then Err ''refused'' else Ok 1)\<rparr>\<rparr>"

lemma demo_not_skipped: "\<not> incr_skipped demo_ready"
  by (simp add: incr_skipped_def demo_ready_def demo_run_state_def demo_handler_def demo_backend_def NewBackupState_def
      LastFullRunIsEmpty_def timeUnixMilli_def zeroTime_def)

theorem incremental_windows_adjacent_witness:
  "\<exists>es. hsEvents (fst (runIncrementalBackup demo_run_env (timeUnixMilli 30) demo_ready)) = es \<and>
     list_all (starts_in \<lparr>FromTime = Some (timeUnixMilli 20), ToTime = None\<rparr>) es"
proof -
  have r: "LastRun (bhState (hsHandler demo_ready)) = timeUnixMilli 20" "\<not> IsSealed (bhFullPolicy (hsHandler demo_ready))"
    "timeUnixMilli 20 < timeUnixMilli 30" "hsEvents demo_ready = []"
    by code_simp+
  show ?thesis using incremental_windows_adjacent [of demo_ready "timeUnixMilli 30" demo_run_env] r by auto
qed

lemma demo_refused:
  "case takeClient demo_refusing demo_ready of
     (t, Ok c) \<Rightarrow> runBackup demo_refusing (bhIncrPolicy (hsHandler demo_ready)) c (window False (hsHandler demo_ready) (timeUnixMilli 30)) ''b''
         (incr_folder demo_ready ''b'' (timeUnixMilli 30)) t = Err ''failed to start backup, refused''
   | _ \<Rightarrow> False"
  by code_simp

theorem incremental_start_failure_panics_witness:
  "\<exists>s' p. runIncrementalBackup demo_refusing (timeUnixMilli 30) demo_ready = (s', Panic p) \<and>
     LastIncrRun (bhState (hsHandler s')) = zeroTime"
proof -
  obtain t c where t: "takeClient demo_refusing demo_ready = (t, Ok c)"
    and b: "runBackup demo_refusing (bhIncrPolicy (hsHandler demo_ready)) c
         (window False (hsHandler demo_ready) (timeUnixMilli 30)) ''b'' (incr_folder demo_ready ''b'' (timeUnixMilli 30)) t =
       Err ''failed to start backup, refused''"
    using demo_refused by (auto split: prod.splits outcome.splits)
  have "bhNamespaces (hsHandler demo_ready) = [''a'', ''b'']" by (simp add: demo_ready_def)
  then have n: "getNamespacesToBackup demo_refusing (bhNamespaces (hsHandler demo_ready)) = Ok [''a'', ''b'']"
    by (simp add: getNamespacesToBackup_def)
  have "distinct [''a'', ''b'']" "''b'' \<in> set [''a'', ''b'']" by simp_all
  from incremental_start_failure_panics [OF demo_not_skipped t n this b] obtain s' p where
    "runIncrementalBackup demo_refusing (timeUnixMilli 30) demo_ready = (s', Panic p)"
    "bhState (hsHandler s') = bhState (hsHandler demo_ready)"
    by blast
  moreover have "LastIncrRun (bhState (hsHandler demo_ready)) = zeroTime" by (simp add: demo_ready_def NewBackupState_def)
  ultimately show ?thesis by auto
qed

end
