(* ===== verification/RoutineThreads.thy ===== *)
theory RoutineThreads
  imports IncrementalProps
begin

text \<open>
  Runs of one routine at the same time. The scheduler runs every job in a goroutine of its own, and
  an ad hoc full backup is one more job: here any number of goroutines takes the atomic steps of
  full and incremental runs in any order.
\<close>

section \<open>Goroutines\<close>

text \<open>
  Where a goroutine is: before a run, after it won the compare-and-swap of the lock, in a full run
  with its client, after it passed the three checks of an incremental run, in an incremental run.
\<close>

datatype phase = Waiting | FullLocked | FullBackup nat | IncrChecked | IncrBackup nat

fun full_phase :: "phase \<Rightarrow> bool" where
  "full_phase FullLocked = True"
| "full_phase (FullBackup c) = True"
| "full_phase p = False"

fun clients_held :: "phase \<Rightarrow> nat list" where
  "clients_held (FullBackup c) = [c]"
| "clients_held (IncrBackup c) = [c]"
| "clients_held p = []"

definition record_full :: "time \<Rightarrow> routine_state \<Rightarrow> routine_state" where
  "record_full now s = update_handler (\<lambda>h. h\<lparr>bhState := SetLastFullRun now (bhState h)\<rparr>) (emit (Counted FullRuns) s)"

definition record_incr :: "time \<Rightarrow> routine_state \<Rightarrow> routine_state" where
  "record_incr now s = update_handler (\<lambda>h. h\<lparr>bhState := SetLastIncrRun now (bhState h)\<rparr>) (emit (Counted IncrRuns) s)"

text \<open>The parts of the two bodies, each a step.\<close>

definition full_part :: "run_env \<Rightarrow> time \<Rightarrow> nat \<Rightarrow> routine_state \<Rightarrow> routine_state set" where
  "full_part env now c s = {fst (startFullBackupForAllNamespaces env now c s), fst (waitForFullBackups env now s),
     record_full now s, fst (deleteFolder env (incrementalBackupsPath (bhBackend (hsHandler s))) s),
     fst (writeClusterConfiguration env now s)}"

definition incr_part :: "run_env \<Rightarrow> time \<Rightarrow> nat \<Rightarrow> routine_state \<Rightarrow> routine_state set" where
  "incr_part env now c s = {fst (startIncrementalBackupForAllNamespaces env c now s), fst (waitForIncrementalBackups env now s),
     record_incr now s}"

inductive routine_step :: "routine_state \<times> phase list \<Rightarrow> routine_state \<times> phase list \<Rightarrow> bool" where
  full_locks: "i < length ps \<Longrightarrow> ps ! i = Waiting \<Longrightarrow> \<not> inProgress s \<Longrightarrow>
    routine_step (s, ps) (setInProgress True s, ps[i := FullLocked])"
| full_starts: "i < length ps \<Longrightarrow> ps ! i = FullLocked \<Longrightarrow> takeClient env s = (t, Ok c) \<Longrightarrow>
    routine_step (s, ps) (t, ps[i := FullBackup c])"
| full_refused: "i < length ps \<Longrightarrow> ps ! i = FullLocked \<Longrightarrow> takeClient env s = (t, r) \<Longrightarrow> \<not> is_ok r \<Longrightarrow>
    routine_step (s, ps) (setInProgress False t, ps[i := Waiting])"
| full_works: "i < length ps \<Longrightarrow> ps ! i = FullBackup c \<Longrightarrow> t \<in> full_part env now c s \<Longrightarrow> routine_step (s, ps) (t, ps)"
| full_ends: "i < length ps \<Longrightarrow> ps ! i = FullBackup c \<Longrightarrow>
    routine_step (s, ps) (setInProgress False (clearFull (closeClient c s)), ps[i := Waiting])"
| incr_checks: "i < length ps \<Longrightarrow> ps ! i = Waiting \<Longrightarrow> \<not> incr_skipped s \<Longrightarrow> routine_step (s, ps) (s, ps[i := IncrChecked])"
| incr_starts: "i < length ps \<Longrightarrow> ps ! i = IncrChecked \<Longrightarrow> takeClient env s = (t, Ok c) \<Longrightarrow>
    routine_step (s, ps) (t, ps[i := IncrBackup c])"
| incr_refused: "i < length ps \<Longrightarrow> ps ! i = IncrChecked \<Longrightarrow> takeClient env s = (t, r) \<Longrightarrow> \<not> is_ok r \<Longrightarrow>
    routine_step (s, ps) (t, ps[i := Waiting])"
| incr_works: "i < length ps \<Longrightarrow> ps ! i = IncrBackup c \<Longrightarrow> t \<in> incr_part env now c s \<Longrightarrow> routine_step (s, ps) (t, ps)"
| incr_ends: "i < length ps \<Longrightarrow> ps ! i = IncrBackup c \<Longrightarrow>
    routine_step (s, ps) (clearIncr (closeClient c s), ps[i := Waiting])"

section \<open>What every step keeps\<close>

lemma part_frame:
  assumes "t \<in> full_part env now c s \<union> incr_part env now c s"
  shows "hsPool t = hsPool s" and "inProgress t = inProgress s"
proof -
  have "kept True (window True (hsHandler s) now) s t \<or> kept False (window False (hsHandler s) now) s t \<or>
      t = record_full now s \<or> t = record_incr now s"
    using assms
    unfolding full_part_def incr_part_def by (elim UnE insertE emptyE)
      (simp_all add: kept_start_full_all kept_wait_full_all kept_delete kept_conf kept_start_incr_all kept_wait_incr_all)
  then show "hsPool t = hsPool s" "inProgress t = inProgress s"
    by (auto simp: kept_handler record_full_def record_incr_def)
qed

definition held :: "phase list \<Rightarrow> nat list" where
  "held ps = concat (map clients_held ps)"

lemma held_update:
  "i < length ps \<Longrightarrow> mset (held (ps[i := q])) + mset (clients_held (ps ! i)) = mset (held ps) + mset (clients_held q)"
proof (induction ps arbitrary: i)
  case (Cons p ps)
  then show ?case by (cases i) (simp_all add: held_def ac_simps)
qed simp

lemma held_length: "length (held ps) \<le> length ps"
proof (induction ps)
  case (Cons p ps)
  then show ?case by (cases p) (simp_all add: held_def)
qed (simp add: held_def)

lemma pool_inv_mset: "pool_inv cm ls \<Longrightarrow> mset ls = mset ls' \<Longrightarrow> pool_inv cm ls'"
proof -
  assume p: "pool_inv cm ls" and m: "mset ls = mset ls'"
  have c: "count_list ls x = count_list ls' x" for x by (metis m count_mset)
  have s: "set ls = set ls'" using m by (rule mset_eq_setD)
  have "length ls = length ls'" using m by (rule mset_eq_length)
  with p c s show "pool_inv cm ls'" by (simp add: pool_inv_def entry_ok_def)
qed

definition threads_inv :: "nat list \<Rightarrow> routine_state \<times> phase list \<Rightarrow> bool" where
  "threads_inv ls = (\<lambda>(s, ps).
     (inProgress s \<longleftrightarrow> (\<exists>i < length ps. full_phase (ps ! i))) \<and>
     (\<forall>i < length ps. \<forall>j < length ps. full_phase (ps ! i) \<longrightarrow> full_phase (ps ! j) \<longrightarrow> i = j) \<and>
     pool_inv (hsPool s) (held ps @ ls) \<and> length ps + length ls + 1 < 2 ^ 64)"

text \<open>The three ways a step changes the clients in use.\<close>

lemma pool_taken:
  assumes "pool_inv (hsPool s) (held ps @ ls)" and "length ps + length ls + 1 < 2 ^ 64" and "i < length ps"
    and "clients_held (ps ! i) = []" and "takeClient env s = (t, Ok c)" and "clients_held q = [c]"
  shows "pool_inv (hsPool t) (held (ps[i := q]) @ ls)"
proof -
  have "length (held ps @ ls) + 1 < 2 ^ 64"
    using assms(2) held_length [of ps] by (simp add: order.strict_trans1 [OF add_right_mono])
  from takeClient_frame(3) [OF assms(5,1) this refl] show ?thesis
    by (rule pool_inv_mset) (use held_update [OF assms(3), of q] assms(4,6) in simp)
qed

lemma pool_refused:
  assumes "pool_inv (hsPool s) (held ps @ ls)" and "i < length ps" and "clients_held (ps ! i) = []"
    and "takeClient env s = (t, r)" and "\<not> is_ok r" and "clients_held q = []"
  shows "pool_inv (hsPool t) (held (ps[i := q]) @ ls)"
  by (rule pool_inv_mset [OF takeClient_frame(4) [OF assms(4,1,5)]])
    (use held_update [OF assms(2), of q] assms(3,6) in simp)

lemma pool_closed:
  assumes "pool_inv (hsPool s) (held ps @ ls)" and "i < length ps" and "clients_held (ps ! i) = [c]" and "clients_held q = []"
  shows "pool_inv (Close (hsPool s) c) (held (ps[i := q]) @ ls)"
proof -
  have "c \<in> set (held ps)" using assms(2,3) by (auto simp: held_def intro!: bexI [of _ "ps ! i"])
  then have "pool_inv (Close (hsPool s) c) (remove1 c (held ps @ ls))" using assms(1) by (simp add: manager.close_ok)
  moreover have "mset (remove1 c (held ps @ ls)) = mset (held (ps[i := q]) @ ls)"
    using held_update [OF assms(2), of q] assms(3,4) \<open>c \<in> set (held ps)\<close>
    by simp (metis add_mset_remove_trivial diff_union_swap2 union_mset_add_mset_left)
  ultimately show ?thesis by (rule pool_inv_mset)
qed

lemma pool_same:
  assumes "pool_inv (hsPool s) (held ps @ ls)" and "i < length ps" and "clients_held (ps ! i) = []" and "clients_held q = []"
  shows "pool_inv (hsPool s) (held (ps[i := q]) @ ls)"
  by (rule pool_inv_mset [OF assms(1)]) (use held_update [OF assms(2), of q] assms(3,4) in simp)

lemma same_phase:
  "i < length ps \<Longrightarrow> full_phase q = full_phase (ps ! i) \<Longrightarrow> full_phase (ps[i := q] ! j) = full_phase (ps ! j)"
  by (cases "j = i") simp_all

lemma takeClient_lock: "takeClient env s = (t, r) \<Longrightarrow> inProgress t = inProgress s"
  by (simp add: takeClient_frame)

lemma routine_step_inv:
  assumes "routine_step c c'" and "threads_inv ls c"
  shows "threads_inv ls c'"
  using assms
proof (induction rule: routine_step.induct)
  case (full_locks i ps s)
  then have "\<forall>j < length ps. \<not> full_phase (ps ! j)" by (auto simp: threads_inv_def)
  then show ?case
    using full_locks pool_same [of "setInProgress True s" ps ls i FullLocked]
    by (auto simp: threads_inv_def nth_list_update)
next
  case (full_starts i ps env s t c)
  then have "full_phase (ps ! i)" by simp
  then show ?case
    using full_starts pool_taken [of s ps ls i env t c "FullBackup c"] takeClient_lock [OF full_starts(3)]
    by (auto simp: threads_inv_def nth_list_update)
next
  case (full_refused i ps env s t r)
  then have "full_phase (ps ! i)" by simp
  then show ?case
    using full_refused pool_refused [of s ps ls i env t r Waiting]
    by (auto simp: threads_inv_def nth_list_update)
next
  case (full_works i ps c t env now s)
  then have "hsPool t = hsPool s" "inProgress t = inProgress s" using part_frame by blast+
  then show ?case using full_works by (simp add: threads_inv_def)
next
  case (full_ends i ps c s)
  then have "full_phase (ps ! i)" by simp
  then show ?case
    using full_ends pool_closed [of s ps ls i c Waiting] by (auto simp: threads_inv_def nth_list_update)
next
  case (incr_checks i ps s)
  then show ?case
    using pool_same [of s ps ls i IncrChecked] same_phase [of i ps IncrChecked] by (simp add: threads_inv_def)
next
  case (incr_starts i ps env s t c)
  then show ?case
    using pool_taken [of s ps ls i env t c "IncrBackup c"] takeClient_lock [OF incr_starts(3)]
      same_phase [of i ps "IncrBackup c"]
    by (simp add: threads_inv_def)
next
  case (incr_refused i ps env s t r)
  then show ?case
    using pool_refused [of s ps ls i env t r Waiting] takeClient_lock [OF incr_refused(3)] same_phase [of i ps Waiting]
    by (simp add: threads_inv_def)
next
  case (incr_works i ps c t env now s)
  then have "hsPool t = hsPool s" "inProgress t = inProgress s" using part_frame by blast+
  then show ?case using incr_works by (simp add: threads_inv_def)
next
  case (incr_ends i ps c s)
  then show ?case
    using pool_closed [of s ps ls i c Waiting] same_phase [of i ps Waiting] by (simp add: threads_inv_def)
qed

section \<open>The runs of the code are runs of the goroutines\<close>

text \<open>A goroutine that works alone: the others, and its own phase, stay where they are.\<close>

abbreviation works :: "phase list \<Rightarrow> routine_state \<Rightarrow> routine_state \<Rightarrow> bool" where
  "works ps s t \<equiv> routine_step\<^sup>*\<^sup>* (s, ps) (t, ps)"

lemma works_bind:
  assumes "works ps s (fst r)" and "\<And>x t. r = (t, Ok x) \<Longrightarrow> works ps t (fst (f x t))"
  shows "works ps s (fst (bind_step r f))"
proof (cases r)
  case (Pair t q)
  then show ?thesis using assms by (cases q) (auto intro: rtranclp_trans)
qed

lemma full_body_works:
  assumes "i < length ps" and "ps ! i = FullBackup c"
  shows "works ps s (fst (full_body env now c s))"
proof -
  have part: "works ps s t" if "t \<in> full_part env now c s" for s t
    using full_works [OF assms that] by blast
  have recorded: "works ps s (update_handler (\<lambda>h. h\<lparr>bhState := SetLastFullRun now (bhState h)\<rparr>) (emit (Counted FullRuns) s))" for s
    by (rule part) (simp add: full_part_def record_full_def)
  have cleaned: "works ps s (fst (if b then deleteFolder env (incrementalBackupsPath (bhBackend (hsHandler s))) s else (s, Ok ())))"
    for b s by (cases b) (auto simp: full_part_def intro: part)
  have written: "works ps s (fst (writeClusterConfiguration env now s))" for s
    by (rule part) (simp add: full_part_def)
  have started: "works ps s (fst (startFullBackupForAllNamespaces env now c s))" for s
    by (rule part) (simp add: full_part_def)
  have waited: "works ps s (fst (waitForFullBackups env now s))" for s
    by (rule part) (simp add: full_part_def)
  have finished: "works ps s (fst (bind_step (if b then deleteFolder env (incrementalBackupsPath (bhBackend (hsHandler s))) s else (s, Ok ()))
      (\<lambda>_. writeClusterConfiguration env now)))" for b s
    by (rule works_bind [OF cleaned written])
  show ?thesis
    unfolding full_body_def Let_def
    by (rule works_bind [OF started], rule works_bind [OF waited], rule rtranclp_trans [OF recorded finished])
qed

lemma incr_body_works:
  assumes "i < length ps" and "ps ! i = IncrBackup c"
  shows "works ps s (fst (incr_body env now c s))"
proof -
  have part: "works ps s t" if "t \<in> incr_part env now c s" for s t
    using incr_works [OF assms that] by blast
  have recorded: "works ps s (fst (update_handler (\<lambda>h. h\<lparr>bhState := SetLastIncrRun now (bhState h)\<rparr>) (emit (Counted IncrRuns) s), Ok ()))" for s
    by (rule part) (simp add: incr_part_def record_incr_def)
  have started: "works ps s (fst (startIncrementalBackupForAllNamespaces env c now s))" for s
    by (rule part) (simp add: incr_part_def)
  have waited: "works ps s (fst (waitForIncrementalBackups env now s))" for s
    by (rule part) (simp add: incr_part_def)
  show ?thesis unfolding incr_body_def by (intro works_bind started waited recorded)
qed

text \<open>
  Every run of the two functions, in any state, is a sequence of steps of a waiting goroutine at
  the end of which it waits again.
\<close>

lemma full_run_works:
  assumes "i < length ps" and "ps ! i = Waiting"
  shows "works ps s (fst (runFullBackupInternal env now s))"
proof (cases "inProgress s")
  case False
  obtain t r where t: "takeClient env (setInProgress True s) = (t, r)" by fastforce
  let ?locked = "ps[i := FullLocked]"
  have waits: "ps[i := Waiting] = ps" using assms(2) by (metis list_update_id)
  have lock: "routine_step (s, ps) (setInProgress True s, ?locked)" by (rule full_locks [OF assms False])
  show ?thesis
  proof (cases r)
    case (Ok c)
    let ?u = "fst (full_body env now c t)" and ?working = "ps[i := FullBackup c]"
    have "routine_step (setInProgress True s, ?locked) (t, ?working)"
      using full_starts [of i ?locked env _ t c] t assms(1) Ok by simp
    moreover have "works ?working t ?u" by (rule full_body_works [of i]) (simp_all add: assms(1))
    moreover have "routine_step (?u, ?working) (setInProgress False (clearFull (closeClient c ?u)), ps)"
      using full_ends [of i ?working c ?u] assms(1) by (simp add: waits)
    ultimately have "works ps s (setInProgress False (clearFull (closeClient c ?u)))"
      using lock by (meson converse_rtranclp_into_rtranclp rtranclp.rtrancl_into_rtrancl)
    then show ?thesis using False t Ok by (simp add: runFull_parts deferred_def)
  next
    case (Err e)
    have "routine_step (setInProgress True s, ?locked) (setInProgress False t, ps)"
      using full_refused [of i ?locked env _ t r] t assms(1) Err by (simp add: waits)
    then show ?thesis using lock False t Err by (simp add: runFull_parts deferred_def)
  next
    case (Panic p)
    have "routine_step (setInProgress True s, ?locked) (setInProgress False t, ps)"
      using full_refused [of i ?locked env _ t r] t assms(1) Panic by (simp add: waits)
    then show ?thesis using lock False t Panic by (simp add: runFull_parts deferred_def)
  qed
qed (simp add: runFull_parts)

lemma incr_run_works:
  assumes "i < length ps" and "ps ! i = Waiting"
  shows "works ps s (fst (runIncrementalBackup env now s))"
proof (cases "incr_skipped s")
  case False
  obtain t r where t: "takeClient env s = (t, r)" by fastforce
  let ?checked = "ps[i := IncrChecked]"
  have waits: "ps[i := Waiting] = ps" using assms(2) by (metis list_update_id)
  have check: "routine_step (s, ps) (s, ?checked)" by (rule incr_checks [OF assms False])
  show ?thesis
  proof (cases r)
    case (Ok c)
    let ?u = "fst (incr_body env now c t)" and ?working = "ps[i := IncrBackup c]"
    have "routine_step (s, ?checked) (t, ?working)"
      using incr_starts [of i ?checked env _ t c] t assms(1) Ok by simp
    moreover have "works ?working t ?u" by (rule incr_body_works [of i]) (simp_all add: assms(1))
    moreover have "routine_step (?u, ?working) (clearIncr (closeClient c ?u), ps)"
      using incr_ends [of i ?working c ?u] assms(1) by (simp add: waits)
    ultimately have "works ps s (clearIncr (closeClient c ?u))"
      using check by (meson converse_rtranclp_into_rtranclp rtranclp.rtrancl_into_rtrancl)
    then show ?thesis using False t Ok by (simp add: runIncr_parts deferred_def)
  next
    case (Err e)
    have "routine_step (s, ?checked) (t, ps)"
      using incr_refused [of i ?checked env _ t r] t assms(1) Err by (simp add: waits)
    then show ?thesis using check False t Err by (simp add: runIncr_parts)
  next
    case (Panic p)
    have "routine_step (s, ?checked) (t, ps)"
      using incr_refused [of i ?checked env _ t r] t assms(1) Panic by (simp add: waits)
    then show ?thesis using check False t Panic by (simp add: runIncr_parts)
  qed
qed (simp add: runIncr_parts)

section \<open>One full run at a time\<close>

text \<open>
  C9: However the goroutines that share one handler of a routine interleave, at the calls their runs
  are made of, at most one of them is in a full run at any time, the lock is taken exactly while one
  is, and no goroutine is in a run with a client that was closed. The steps are those of the code: in
  every state so reached, whatever the cluster, the storage and the library answer, each whole run of
  the full and of the incremental backup is a sequence of steps of a goroutine that waits. (What the
  library still does for backups that a failed run no longer waits for is not a goroutine of the service.)
\<close>

theorem one_full_run:
  assumes "idle s ls" and "n + length ls + 1 < 2 ^ 64"
    and "routine_step\<^sup>*\<^sup>* (s, replicate n Waiting) (s', ps)"
  shows "(\<forall>i < length ps. \<forall>j < length ps. full_phase (ps ! i) \<longrightarrow> full_phase (ps ! j) \<longrightarrow> i = j) \<and>
    (inProgress s' \<longleftrightarrow> (\<exists>i < length ps. full_phase (ps ! i))) \<and>
    (\<forall>i < length ps. \<forall>c \<in> set (clients_held (ps ! i)). c \<notin> set (cmClosed (hsPool s'))) \<and>
    (\<forall>i < length ps. ps ! i = Waiting \<longrightarrow>
       (\<forall>env now. routine_step\<^sup>*\<^sup>* (s', ps) (fst (runFullBackupInternal env now s'), ps) \<and>
          routine_step\<^sup>*\<^sup>* (s', ps) (fst (runIncrementalBackup env now s'), ps)))"
proof -
  have "held (replicate n Waiting) = []" by (induction n) (simp_all add: held_def)
  then have "threads_inv ls (s, replicate n Waiting)" using assms(1,2) by (simp add: threads_inv_def idle_def)
  with assms(3) have i: "threads_inv ls (s', ps)"
    by (induction rule: rtranclp_induct) (auto intro: routine_step_inv)
  have "c \<notin> set (cmClosed (hsPool s'))" if "k < length ps" "c \<in> set (clients_held (ps ! k))" for k c
  proof (rule manager.open_while_used)
    show "pool_inv (hsPool s') (held ps @ ls)" using i by (simp add: threads_inv_def)
    show "c \<in> set (held ps @ ls)" using that by (auto simp: held_def intro!: bexI [of _ "ps ! k"])
  qed
  moreover have "\<forall>i < length ps. \<forall>j < length ps. full_phase (ps ! i) \<longrightarrow> full_phase (ps ! j) \<longrightarrow> i = j"
    and "inProgress s' \<longleftrightarrow> (\<exists>i < length ps. full_phase (ps ! i))"
    using i unfolding threads_inv_def by blast+
  ultimately show ?thesis using full_run_works incr_run_works by blast
qed

lemma demo_taken: "case takeClient demo_run_env (setInProgress True demo_run_state) of (t, Ok c) \<Rightarrow> c = 0 | _ \<Rightarrow> False"
  by code_simp

theorem one_full_run_witness:
  "\<exists>t. routine_step\<^sup>*\<^sup>* (demo_run_state, [Waiting, Waiting]) (t, [Waiting, FullBackup 0]) \<and>
     inProgress t \<and> 0 \<notin> set (cmClosed (hsPool t))"
proof -
  obtain t where t: "takeClient demo_run_env (setInProgress True demo_run_state) = (t, Ok 0)"
    using demo_taken by (auto split: prod.splits outcome.splits)
  have "\<not> inProgress demo_run_state" using demo_idle by (simp add: idle_def)
  then have "routine_step (demo_run_state, [Waiting, Waiting]) (setInProgress True demo_run_state, [Waiting, FullLocked])"
    using full_locks [of 1 "[Waiting, Waiting]" demo_run_state] by simp
  moreover have "routine_step (setInProgress True demo_run_state, [Waiting, FullLocked]) (t, [Waiting, FullBackup 0])"
    using full_starts [of 1 "[Waiting, FullLocked]" demo_run_env _ t 0] t by simp
  ultimately have r: "routine_step\<^sup>*\<^sup>* (demo_run_state, [Waiting, Waiting]) (t, [Waiting, FullBackup 0])" by simp
  have two: "replicate 2 Waiting = [Waiting, Waiting]" by (simp add: numeral_2_eq_2)
  have "2 + length ([] :: nat list) + 1 < 2 ^ 64" by simp
  note all = one_full_run [OF demo_idle this, unfolded two, OF r]
  have "inProgress t" using all [THEN conjunct2, THEN conjunct1] by (auto intro!: exI [of _ 1])
  moreover have "0 \<notin> set (cmClosed (hsPool t))"
    using all [THEN conjunct2, THEN conjunct2, THEN conjunct1, rule_format, of 1 0] by simp
  ultimately
  show ?thesis using r by blast
qed

end
