(* ===== verification/Scheduler.thy ===== *)
theory Scheduler
  imports RoutineThreads
begin

text \<open>
  \<open>pkg/service/backup_scheduler.go\<close> and \<open>backup_backends_holder.go\<close>: the backends and handlers made
  from a configuration, and the jobs put on the scheduler for them.
\<close>

section \<open>The scheduler\<close>

text \<open>
  Package \<open>quartz\<close> is a parameter: the parser of cron expressions, the next time a trigger fires,
  whether a job is accepted, the text of a job key and the default group. Handlers and jobs are
  objects with an identity: a handler is its index among all made so far, a job has a number.
\<close>

datatype trigger = CronTrigger string | RunOnceTrigger int64

record scheduled_job =
  sjHandler :: ptr
  sjType :: job_type
  sjId :: nat

record job_detail =
  jdJob :: scheduled_job
  jdName :: string
  jdGroup :: string

type_synonym scheduled = "job_detail \<times> trigger"

record schedule_env =
  seStorage :: storage_lib
  seCodec :: codec
  seClock :: "string \<Rightarrow> time \<times> time \<times> time"
  seNow :: "string \<Rightarrow> time"
  seOrder :: "nat \<Rightarrow> (string, ptr) gomap \<Rightarrow> (string, ptr) gomap"
  seErrText :: "backend_error \<Rightarrow> string"
  seCron :: "string \<Rightarrow> string option"
  seNextFire :: "string \<Rightarrow> int64 \<Rightarrow> (string, int64) outcome"
  seKeyText :: "string \<Rightarrow> string \<Rightarrow> string"
  seDefaultGroup :: string
  seClear :: "string option"
  seSchedule :: "scheduled list \<Rightarrow> scheduled \<Rightarrow> string option"

text \<open>The scheduler's jobs, \<open>jobStore\<close>, the backends, all handlers and the number of jobs made.\<close>

record schedule_state =
  ssScheduled :: "scheduled list"
  ssStore :: "(string, job_detail) gomap"
  ssBackends :: BackendsHolder
  ssHeap :: "BackupRoutineHandler list"
  ssJobs :: nat

type_synonym BackupHandlerHolder = "(string, nat) gomap"

definition quartzGroupBackupFull :: string where
  "quartzGroupBackupFull = ''full''"

definition quartzGroupBackupIncremental :: string where
  "quartzGroupBackupIncremental = ''incremental''"

definition put_job :: "string \<Rightarrow> job_detail \<Rightarrow> schedule_state \<Rightarrow> schedule_state" where
  "put_job key v s = s\<lparr>ssStore := insert_key key v (ssStore s)\<rparr>"

definition NewAdHocFullBackupJobForRoutine :: "schedule_env \<Rightarrow> string \<Rightarrow> time \<Rightarrow> schedule_state \<Rightarrow> job_detail option" where
  "NewAdHocFullBackupJobForRoutine env name now s =
     (case lookup (ssStore s) (seKeyText env name quartzGroupBackupFull) of
        None \<Rightarrow> None
      | Some job \<Rightarrow> Some \<lparr>jdJob = jdJob job, jdName = name @ ''-adhoc-'' @ FormatInt (UnixMilli now),
          jdGroup = quartzGroupBackupFull\<rparr>)"

section \<open>Backends and handlers\<close>

definition SetData :: "BackendsHolder \<Rightarrow> schedule_state \<Rightarrow> schedule_state" where
  "SetData backends s = s\<lparr>ssBackends := backends\<rparr>"

definition Get :: "string \<Rightarrow> BackendsHolder \<Rightarrow> BackupBackend option" where
  "Get name b = lookup b name"

fun buildBackends :: "store \<Rightarrow> (string, ptr) gomap \<Rightarrow> BackendsHolder \<Rightarrow> (string, BackendsHolder) outcome" where
  "buildBackends st [] backends = Ok backends"
| "buildBackends st ((routineName, routine) # rs) backends =
     (case deref_routine st routine of
        None \<Rightarrow> Panic NilDereference
      | Some r \<Rightarrow> and_then (newBackend st routineName r) (\<lambda>b. buildBackends st rs (insert_key routineName b backends)))"

definition BuildBackupBackends :: "schedule_env \<Rightarrow> conf \<Rightarrow> (string, BackendsHolder) outcome" where
  "BuildBackupBackends env config = buildBackends (fst config) (permuted (seOrder env 0) (cfBackupRoutines (snd config))) []"

fun makeHandlersLoop ::
  "schedule_env \<Rightarrow> conf \<Rightarrow> (string, ptr) gomap \<Rightarrow> BackupHandlerHolder \<Rightarrow> schedule_state \<Rightarrow>
   (schedule_state, BackupHandlerHolder) step" where
  "makeHandlersLoop env config [] handlers s = (s, Ok handlers)"
| "makeHandlersLoop env config ((routineName, routine) # rs) handlers s =
     (case seClock env routineName of (now1, now2, now3) \<Rightarrow>
      (case newBackupRoutineHandler now1 now2 now3 (seCodec env) (seStorage env) config routineName
              (Get routineName (ssBackends s)) of
         Panic p \<Rightarrow> (s, Panic p)
       | Err e \<Rightarrow> (s, Err (seErrText env e))
       | Ok h \<Rightarrow> makeHandlersLoop env config rs (insert_key routineName (length (ssHeap s)) handlers)
                  (s\<lparr>ssHeap := ssHeap s @ [h]\<rparr>)))"

definition MakeHandlers :: "schedule_env \<Rightarrow> conf \<Rightarrow> schedule_state \<Rightarrow> (schedule_state, BackupHandlerHolder) step" where
  "MakeHandlers env config s = makeHandlersLoop env config (permuted (seOrder env 1) (cfBackupRoutines (snd config))) [] s"

section \<open>Scheduling\<close>

text \<open>\<open>UnixNano\<close> computes in \<open>int64\<close> and wraps.\<close>

definition needToRunFullBackupNow :: "schedule_env \<Rightarrow> time \<Rightarrow> string \<Rightarrow> time \<Rightarrow> bool" where
  "needToRunFullBackupNow env lastFullRun cron now =
     (if lastFullRun = zeroTime then True
      else case seNextFire env cron (word_of_int (unixNanos lastFullRun)) of
             Ok fireTimeNano \<Rightarrow> Before (Time (sint fireTimeNano)) now
           | _ \<Rightarrow> True)"

definition ScheduleJob :: "schedule_env \<Rightarrow> job_detail \<Rightarrow> trigger \<Rightarrow> schedule_state \<Rightarrow> (schedule_state, unit) step" where
  "ScheduleJob env d t s =
     (case seSchedule env (ssScheduled s) (d, t) of
        Some e \<Rightarrow> (s, Err e)
      | None \<Rightarrow> (s\<lparr>ssScheduled := ssScheduled s @ [(d, t)]\<rparr>, Ok ()))"

definition handler_at :: "ptr \<Rightarrow> schedule_state \<Rightarrow> BackupRoutineHandler option" where
  "handler_at p s = (case p of None \<Rightarrow> None | Some i \<Rightarrow> if i < length (ssHeap s) then Some (ssHeap s ! i) else None)"

definition scheduleFullBackup :: "schedule_env \<Rightarrow> ptr \<Rightarrow> string \<Rightarrow> string \<Rightarrow> schedule_state \<Rightarrow> (schedule_state, unit) step" where
  "scheduleFullBackup env handler interval routineName s =
     (case seCron env interval of
        Some e \<Rightarrow> (s, Err e)
      | None \<Rightarrow>
          (let fullJob = \<lparr>sjHandler = handler, sjType = FullJob, sjId = ssJobs s\<rparr>;
               s = s\<lparr>ssJobs := ssJobs s + 1\<rparr>;
               fullJobDetail = \<lparr>jdJob = fullJob, jdName = routineName, jdGroup = quartzGroupBackupFull\<rparr> in
           bind_step (ScheduleJob env fullJobDetail (CronTrigger interval) s) (\<lambda>_ s.
             let s = put_job (seKeyText env routineName quartzGroupBackupFull) fullJobDetail s in
             case handler_at handler s of
               None \<Rightarrow> (s, Panic NilDereference)
             | Some h \<Rightarrow>
                 if needToRunFullBackupNow env (LastFullRun (bhState h)) interval (seNow env routineName)
                 then ScheduleJob env \<lparr>jdJob = fullJob, jdName = routineName, jdGroup = seDefaultGroup env\<rparr> (RunOnceTrigger 0) s
                 else (s, Ok ()))))"

definition scheduleIncrementalBackup :: "schedule_env \<Rightarrow> ptr \<Rightarrow> string \<Rightarrow> string \<Rightarrow> schedule_state \<Rightarrow> (schedule_state, unit) step" where
  "scheduleIncrementalBackup env handler interval routineName s =
     (case seCron env interval of
        Some e \<Rightarrow> (s, Err e)
      | None \<Rightarrow>
          (let incrementalJob = \<lparr>sjHandler = handler, sjType = IncrementalJob, sjId = ssJobs s\<rparr>;
               s = s\<lparr>ssJobs := ssJobs s + 1\<rparr>;
               incrJobDetail = \<lparr>jdJob = incrementalJob, jdName = routineName, jdGroup = quartzGroupBackupIncremental\<rparr> in
           bind_step (ScheduleJob env incrJobDetail (CronTrigger interval) s) (\<lambda>_ s.
             (put_job (seKeyText env routineName quartzGroupBackupIncremental) incrJobDetail s, Ok ()))))"

definition step_err :: "(string \<Rightarrow> string) \<Rightarrow> ('s, 'a) step \<Rightarrow> ('s, 'a) step" where
  "step_err w r = (fst r, map_err w (snd r))"

fun scheduleLoop ::
  "schedule_env \<Rightarrow> store \<Rightarrow> BackupHandlerHolder \<Rightarrow> (string, ptr) gomap \<Rightarrow> schedule_state \<Rightarrow> (schedule_state, unit) step" where
  "scheduleLoop env st handlers [] s = (s, Ok ())"
| "scheduleLoop env st handlers ((routineName, p) # rs) s =
     (let handler = lookup handlers routineName in
      case deref_routine st p of
        None \<Rightarrow> (s, Panic NilDereference)
      | Some routine \<Rightarrow>
          bind_step (step_err (\<lambda>e. ''failed to schedule full backup: '' @ e)
            (scheduleFullBackup env handler (brIntervalCron routine) routineName s)) (\<lambda>_ s.
          bind_step (if brIncrIntervalCron routine \<noteq> []
             then step_err (\<lambda>e. ''failed to schedule incremental backup: '' @ e)
                    (scheduleIncrementalBackup env handler (brIncrIntervalCron routine) routineName s)
             else (s, Ok ())) (\<lambda>_.
          scheduleLoop env st handlers rs)))"

definition scheduleRoutines :: "schedule_env \<Rightarrow> conf \<Rightarrow> BackupHandlerHolder \<Rightarrow> schedule_state \<Rightarrow> (schedule_state, unit) step" where
  "scheduleRoutines env config handlers s =
     scheduleLoop env (fst config) handlers (permuted (seOrder env 2) (cfBackupRoutines (snd config))) s"

text \<open>\<open>ScheduleBackup\<close> starts a scheduler with no jobs.\<close>

definition ScheduleBackup :: "schedule_env \<Rightarrow> conf \<Rightarrow> BackupHandlerHolder \<Rightarrow> schedule_state \<Rightarrow> (schedule_state, unit) step" where
  "ScheduleBackup env config handlers s = scheduleRoutines env config handlers (s\<lparr>ssScheduled := []\<rparr>)"

definition ApplyNewConfig :: "schedule_env \<Rightarrow> conf \<Rightarrow> schedule_state \<Rightarrow> (schedule_state, BackupHandlerHolder) step" where
  "ApplyNewConfig env config s =
     (case seClear env of
        Some e \<Rightarrow> (s, Err e)
      | None \<Rightarrow>
          (let s = s\<lparr>ssScheduled := []\<rparr> in
           case BuildBackupBackends env config of
             Panic p \<Rightarrow> (s, Panic p)
           | Err e \<Rightarrow> (s, Err e)
           | Ok backends \<Rightarrow>
               bind_step (MakeHandlers env config (SetData backends s)) (\<lambda>handlers s.
               bind_step (scheduleRoutines env config handlers s) (\<lambda>_ s. (s, Ok handlers)))))"

end
