(* ===== verification/SchedulerProps.thy ===== *)
theory SchedulerProps
  imports Scheduler
begin

text \<open>
  What is on the scheduler after a configuration is applied, against a plan that names the jobs
  every routine is to have, and what ad hoc backups run.
\<close>

section \<open>The plan\<close>

type_synonym planned = "string \<times> string \<times> job_type \<times> ptr \<times> trigger"

fun view :: "scheduled \<Rightarrow> planned" where
  "view (d, t) = (jdName d, jdGroup d, sjType (jdJob d), sjHandler (jdJob d), t)"

text \<open>
  The jobs of a routine: a full backup by its cron expression; one at once if there was none yet or
  the next after the last is overdue; incremental ones if it has an expression for them.
\<close>

definition plan ::
  "schedule_env \<Rightarrow> store \<Rightarrow> BackupHandlerHolder \<Rightarrow> BackupRoutineHandler list \<Rightarrow> string \<times> ptr \<Rightarrow> planned list" where
  "plan env st handlers heap = (\<lambda>(name, p). case (deref_routine st p, lookup handlers name) of
     (Some r, Some i) \<Rightarrow>
       (name, quartzGroupBackupFull, FullJob, Some i, CronTrigger (brIntervalCron r)) #
       (if needToRunFullBackupNow env (LastFullRun (bhState (heap ! i))) (brIntervalCron r) (seNow env name)
        then [(name, seDefaultGroup env, FullJob, Some i, RunOnceTrigger 0)] else []) @
       (if brIncrIntervalCron r \<noteq> []
        then [(name, quartzGroupBackupIncremental, IncrementalJob, Some i, CronTrigger (brIncrIntervalCron r))] else [])
   | _ \<Rightarrow> [])"

section \<open>Steps of the scheduling\<close>

lemma bind_step_Ok: "bind_step r f = (s', Ok y) \<longleftrightarrow> (\<exists>t x. r = (t, Ok x) \<and> f x t = (s', Ok y))"
  by (cases r; cases "snd r") auto

lemma step_err_Ok: "step_err w r = (s', Ok y) \<longleftrightarrow> r = (s', Ok y)"
  by (cases r) (auto simp: step_err_def outcome_simps)

lemma step_err_if: "(if b then step_err w q else z) = (u, Ok y) \<longleftrightarrow> (if b then q else z) = (u, Ok y)"
  by (simp add: step_err_Ok)

lemma fst_step_err [simp]: "fst (step_err w r) = fst r"
  by (simp add: step_err_def)

lemma ScheduleJob_Ok:
  "ScheduleJob env d t s = (s', Ok ()) \<longleftrightarrow>
     seSchedule env (ssScheduled s) (d, t) = None \<and> s' = s\<lparr>ssScheduled := ssScheduled s @ [(d, t)]\<rparr>"
  by (auto simp: ScheduleJob_def split: option.splits)

lemma scheduleFullBackup_Ok:
  assumes "scheduleFullBackup env handler cron name s = (s', Ok ())"
  obtains i d where "handler = Some i" "i < length (ssHeap s)"
    "d = \<lparr>jdJob = \<lparr>sjHandler = handler, sjType = FullJob, sjId = ssJobs s\<rparr>, jdName = name, jdGroup = quartzGroupBackupFull\<rparr>"
    "s' = s\<lparr>ssJobs := ssJobs s + 1, ssStore := insert_key (seKeyText env name quartzGroupBackupFull) d (ssStore s),
        ssScheduled := ssScheduled s @ (d, CronTrigger cron) #
          (if needToRunFullBackupNow env (LastFullRun (bhState (ssHeap s ! i))) cron (seNow env name)
           then [(\<lparr>jdJob = jdJob d, jdName = name, jdGroup = seDefaultGroup env\<rparr>, RunOnceTrigger 0)] else [])\<rparr>"
  using assms
  by (auto simp: scheduleFullBackup_def Let_def bind_step_Ok ScheduleJob_Ok put_job_def handler_at_def
      split: option.splits if_splits)

lemma scheduleFullBackup_stored:
  assumes "scheduleFullBackup env handler cron name s = (s', Ok ())"
  shows "\<exists>d. jdName d = name \<and> jdGroup d = quartzGroupBackupFull \<and> sjType (jdJob d) = FullJob \<and> sjHandler (jdJob d) = handler \<and>
    (d, CronTrigger cron) \<in> set (ssScheduled s') \<and> lookup (ssStore s') (seKeyText env name quartzGroupBackupFull) = Some d"
  by (rule scheduleFullBackup_Ok [OF assms]) simp

lemma scheduleIncrementalBackup_Ok:
  assumes "scheduleIncrementalBackup env handler cron name s = (s', Ok ())"
  obtains d where
    "d = \<lparr>jdJob = \<lparr>sjHandler = handler, sjType = IncrementalJob, sjId = ssJobs s\<rparr>, jdName = name,
        jdGroup = quartzGroupBackupIncremental\<rparr>"
    "s' = s\<lparr>ssJobs := ssJobs s + 1, ssStore := insert_key (seKeyText env name quartzGroupBackupIncremental) d (ssStore s),
        ssScheduled := ssScheduled s @ [(d, CronTrigger cron)]\<rparr>"
  using assms
  by (auto simp: scheduleIncrementalBackup_def Let_def bind_step_Ok ScheduleJob_Ok put_job_def split: option.splits)

lemma scheduleLoop_Ok:
  assumes "scheduleLoop env st handlers rs s = (s', Ok ())"
  shows "map view (ssScheduled s') = map view (ssScheduled s) @ concat (map (plan env st handlers (ssHeap s)) rs) \<and>
    ssHeap s' = ssHeap s \<and> ssBackends s' = ssBackends s \<and> set (ssScheduled s) \<subseteq> set (ssScheduled s')"
  using assms
proof (induction rs arbitrary: s)
  case (Cons x rs)
  obtain name p where x: "x = (name, p)" by fastforce
  from Cons.prems obtain r t u where r: "deref_routine st p = Some r"
    and t: "scheduleFullBackup env (lookup handlers name) (brIntervalCron r) name s = (t, Ok ())"
    and u: "(if brIncrIntervalCron r \<noteq> [] then scheduleIncrementalBackup env (lookup handlers name) (brIncrIntervalCron r) name t
       else (t, Ok ())) = (u, Ok ())"
    and rest: "scheduleLoop env st handlers rs u = (s', Ok ())"
    by (auto simp: x Let_def bind_step_Ok step_err_Ok step_err_if split: option.splits)
  from scheduleFullBackup_Ok [OF t] obtain i where i: "lookup handlers name = Some i" by metis
  have "map view (ssScheduled u) = map view (ssScheduled s) @ plan env st handlers (ssHeap s) (name, p) \<and> ssHeap u = ssHeap s \<and>
      ssBackends u = ssBackends s \<and> set (ssScheduled s) \<subseteq> set (ssScheduled u)"
    using t u i r
    by (auto simp: plan_def elim!: scheduleFullBackup_Ok scheduleIncrementalBackup_Ok split: if_splits)
  with Cons.IH [OF rest] show ?case by (simp add: x) blast
qed simp

text \<open>What the loop leaves alone in \<open>jobStore\<close>, however it ends.\<close>

lemma ScheduleJob_store: "ssStore (fst (ScheduleJob env d t s)) = ssStore s"
  by (simp add: ScheduleJob_def split: option.split)

lemma bind_step_store:
  assumes "lookup (ssStore (fst r)) k = x" and "\<And>y t. lookup (ssStore t) k = x \<Longrightarrow> lookup (ssStore (fst (f y t))) k = x"
  shows "lookup (ssStore (fst (bind_step r f))) k = x"
  using assms by (cases r; cases "snd r") auto

lemma schedule_store:
  assumes "k \<noteq> seKeyText env name quartzGroupBackupFull" and "k \<noteq> seKeyText env name quartzGroupBackupIncremental"
  shows "lookup (ssStore (fst (scheduleFullBackup env handler cron name s))) k = lookup (ssStore s) k"
    and "lookup (ssStore (fst (scheduleIncrementalBackup env handler cron name s))) k = lookup (ssStore s) k"
  using assms
  by (auto simp: scheduleFullBackup_def scheduleIncrementalBackup_def Let_def ScheduleJob_store put_job_def
      intro!: bind_step_store split: option.split)

lemma scheduleLoop_store:
  assumes "\<forall>name \<in> set (keys rs). k \<noteq> seKeyText env name quartzGroupBackupFull \<and> k \<noteq> seKeyText env name quartzGroupBackupIncremental"
  shows "lookup (ssStore (fst (scheduleLoop env st handlers rs s))) k = lookup (ssStore s) k"
  using assms
proof (induction rs arbitrary: s)
  case (Cons x rs)
  obtain name p where x: "x = (name, p)" by fastforce
  then show ?case
    using Cons by (auto simp: Let_def schedule_store intro!: bind_step_store split: option.split)
qed simp

section \<open>Backends and handlers\<close>

lemma newBackupRoutineHandler_Ok:
  assumes "newBackupRoutineHandler now1 now2 now3 yaml lib config name backend = Ok h"
  shows "backend = Some (bhBackend h)" and "bhRoutineName h = name"
    and "readState now1 now2 now3 yaml lib (fst config) (bhBackend h) = Ok (bhState h)"
  using assms by (auto simp: newBackupRoutineHandler_def outcome_simps split: option.splits)

lemma makeHandlersLoop_Ok:
  assumes "makeHandlersLoop env config rs acc s = (s', Ok handlers)" and "distinct (keys rs)"
  shows "(\<forall>name \<in> set (keys rs). \<exists>i. lookup handlers name = Some i \<and> length (ssHeap s) \<le> i \<and> i < length (ssHeap s') \<and>
      bhRoutineName (ssHeap s' ! i) = name \<and> Get name (ssBackends s) = Some (bhBackend (ssHeap s' ! i))) \<and>
    (\<forall>name. name \<notin> set (keys rs) \<longrightarrow> lookup handlers name = lookup acc name) \<and> prefix (ssHeap s) (ssHeap s')"
  using assms
proof (induction rs arbitrary: acc s)
  case (Cons x rs)
  obtain name p where x: "x = (name, p)" by fastforce
  obtain n1 n2 n3 where c: "seClock env name = (n1, n2, n3)" by (cases "seClock env name")
  from Cons.prems obtain h where
    h: "newBackupRoutineHandler n1 n2 n3 (seCodec env) (seStorage env) config name (Get name (ssBackends s)) = Ok h"
    and rest: "makeHandlersLoop env config rs (insert_key name (length (ssHeap s)) acc) (s\<lparr>ssHeap := ssHeap s @ [h]\<rparr>) = (s', Ok handlers)"
    by (auto simp: x c split: outcome.splits)
  have d: "distinct (keys rs)" "name \<notin> set (keys rs)" using Cons.prems(2) by (simp_all add: x)
  note ih = Cons.IH [OF rest d(1)]
  from ih have pre: "prefix (ssHeap s @ [h]) (ssHeap s')" and l: "lookup handlers name = Some (length (ssHeap s))"
    using d(2) by auto
  then have at: "ssHeap s' ! length (ssHeap s) = h" "length (ssHeap s) < length (ssHeap s')"
    by (auto simp: prefix_def)
  have "\<exists>i. lookup handlers n = Some i \<and> length (ssHeap s) \<le> i \<and> i < length (ssHeap s') \<and>
      bhRoutineName (ssHeap s' ! i) = n \<and> Get n (ssBackends s) = Some (bhBackend (ssHeap s' ! i))"
    if "n \<in> set (keys (x # rs))" for n
  proof (cases "n = name")
    case True
    then show ?thesis using l at newBackupRoutineHandler_Ok(1,2) [OF h] by simp
  next
    case False
    then have "n \<in> set (keys rs)" using that by (simp add: x)
    with ih obtain i where "lookup handlers n = Some i" "Suc (length (ssHeap s)) \<le> i" "i < length (ssHeap s')"
        "bhRoutineName (ssHeap s' ! i) = n" "Get n (ssBackends s) = Some (bhBackend (ssHeap s' ! i))"
      by fastforce
    then show ?thesis by auto
  qed
  moreover have "prefix (ssHeap s) (ssHeap s')" using pre by (auto simp: prefix_def)
  ultimately show ?case using ih by (auto simp: x)
qed simp

lemma makeHandlersLoop_frame:
  "ssStore (fst (makeHandlersLoop env config rs acc s)) = ssStore s \<and>
   ssBackends (fst (makeHandlersLoop env config rs acc s)) = ssBackends s \<and>
   ssScheduled (fst (makeHandlersLoop env config rs acc s)) = ssScheduled s"
proof (induction rs arbitrary: acc s)
  case (Cons x rs)
  then show ?case by (cases x) (simp split: prod.split outcome.split)
qed simp

section \<open>Applying a configuration\<close>

abbreviation routines_of :: "conf \<Rightarrow> (string, ptr) gomap" where
  "routines_of config \<equiv> cfBackupRoutines (snd config)"

lemma ApplyNewConfig_Ok:
  assumes "ApplyNewConfig env config s = (s', Ok handlers)"
  obtains backends t where "BuildBackupBackends env config = Ok backends"
    "MakeHandlers env config (SetData backends (s\<lparr>ssScheduled := []\<rparr>)) = (t, Ok handlers)"
    "scheduleRoutines env config handlers t = (s', Ok ())"
  using assms by (auto simp: ApplyNewConfig_def Let_def bind_step_Ok split: option.splits outcome.splits)

text \<open>
  C11: Applying a configuration puts on the scheduler exactly what the plan of each routine names, in
  the order the routines are ranged over, and nothing of what was there before: the full job, one run
  at once where no full backup is on record or the next is overdue, and the incremental job
  where the routine has an expression for it. Every routine has a handler made for it by this call,
  which works on the backend that was built for the routine.
\<close>

theorem config_applied:
  assumes "ApplyNewConfig env config s = (s', Ok handlers)" and "wf_map (routines_of config)"
  shows "map view (ssScheduled s') =
      concat (map (plan env (fst config) handlers (ssHeap s')) (permuted (seOrder env 2) (routines_of config))) \<and>
    (\<forall>name \<in> set (keys (routines_of config)). \<exists>i. lookup handlers name = Some i \<and> length (ssHeap s) \<le> i \<and>
       i < length (ssHeap s') \<and> bhRoutineName (ssHeap s' ! i) = name \<and>
       lookup (ssBackends s') name = Some (bhBackend (ssHeap s' ! i)))"
proof -
  from ApplyNewConfig_Ok [OF assms(1)] obtain backends t where
    b: "BuildBackupBackends env config = Ok backends"
    and t: "MakeHandlers env config (SetData backends (s\<lparr>ssScheduled := []\<rparr>)) = (t, Ok handlers)"
    and r: "scheduleRoutines env config handlers t = (s', Ok ())" .
  let ?s = "SetData backends (s\<lparr>ssScheduled := []\<rparr>)"
  have f: "ssScheduled t = []" "ssBackends t = backends"
    using makeHandlersLoop_frame [of env config "permuted (seOrder env 1) (routines_of config)" "[]" ?s] t
    by (simp_all add: MakeHandlers_def SetData_def)
  note k = keys_permuted [OF assms(2)]
  from makeHandlersLoop_Ok [OF t [unfolded MakeHandlers_def] conjunct1 [OF k]]
  have h: "\<forall>name \<in> set (keys (routines_of config)). \<exists>i. lookup handlers name = Some i \<and> length (ssHeap s) \<le> i \<and> i < length (ssHeap t) \<and>
      bhRoutineName (ssHeap t ! i) = name \<and> lookup backends name = Some (bhBackend (ssHeap t ! i))"
    by (simp add: k SetData_def Get_def)
  from scheduleLoop_Ok [OF r [unfolded scheduleRoutines_def]] show ?thesis using f h by simp
qed

text \<open>
  The key of a job in \<open>jobStore\<close>: the text of a job key of package \<open>quartz\<close> has the name and the
  group, so it tells the two groups and the names of routines apart.
\<close>

definition keys_apart :: "schedule_env \<Rightarrow> bool" where
  "keys_apart env \<longleftrightarrow> (\<forall>n m. seKeyText env n quartzGroupBackupFull \<noteq> seKeyText env m quartzGroupBackupIncremental \<and>
     (seKeyText env n quartzGroupBackupFull = seKeyText env m quartzGroupBackupFull \<longrightarrow> n = m))"

lemma scheduleLoop_stored:
  assumes "scheduleLoop env st handlers rs s = (s', Ok ())" and "distinct (keys rs)" and "keys_apart env" and "name \<in> set (keys rs)"
  shows "\<exists>d cron. (d, CronTrigger cron) \<in> set (ssScheduled s') \<and> jdName d = name \<and> jdGroup d = quartzGroupBackupFull \<and>
    sjType (jdJob d) = FullJob \<and> sjHandler (jdJob d) = lookup handlers name \<and>
    lookup (ssStore s') (seKeyText env name quartzGroupBackupFull) = Some d"
  using assms
proof (induction rs arbitrary: s)
  case (Cons x rs)
  obtain n p where x: "x = (n, p)" by fastforce
  let ?k = "seKeyText env name quartzGroupBackupFull"
  from Cons.prems(1) obtain r t u where r: "deref_routine st p = Some r"
    and t: "scheduleFullBackup env (lookup handlers n) (brIntervalCron r) n s = (t, Ok ())"
    and u: "(if brIncrIntervalCron r \<noteq> [] then scheduleIncrementalBackup env (lookup handlers n) (brIncrIntervalCron r) n t
       else (t, Ok ())) = (u, Ok ())"
    and rest: "scheduleLoop env st handlers rs u = (s', Ok ())"
    by (auto simp: x Let_def bind_step_Ok step_err_Ok step_err_if split: option.splits)
  show ?case
  proof (cases "n = name")
    case False
    then show ?thesis using Cons.IH [OF rest] Cons.prems by (simp add: x)
  next
    case True
    from scheduleFullBackup_stored [OF t] obtain d where
      d: "jdName d = name" "jdGroup d = quartzGroupBackupFull" "sjType (jdJob d) = FullJob" "sjHandler (jdJob d) = lookup handlers name"
      and in_t: "(d, CronTrigger (brIntervalCron r)) \<in> set (ssScheduled t)" and st_t: "lookup (ssStore t) ?k = Some d"
      using True by auto
    have apart: "?k \<noteq> seKeyText env m quartzGroupBackupIncremental" "?k = seKeyText env m quartzGroupBackupFull \<longrightarrow> name = m" for m
      using Cons.prems(3) unfolding keys_apart_def by blast+
    have "lookup (ssStore u) ?k = Some d \<and> (d, CronTrigger (brIntervalCron r)) \<in> set (ssScheduled u)"
      using u in_t st_t apart(1) by (auto elim!: scheduleIncrementalBackup_Ok split: if_splits)
    moreover have "name \<notin> set (keys rs)" using Cons.prems(2) True by (simp add: x)
    then have "lookup (ssStore s') ?k = lookup (ssStore u) ?k"
      using scheduleLoop_store [of rs ?k env st handlers u] apart rest by (metis fst_conv)
    moreover have "set (ssScheduled u) \<subseteq> set (ssScheduled s')" using scheduleLoop_Ok [OF rest] by blast
    ultimately show ?thesis using d by (metis subsetD)
  qed
qed simp

text \<open>
  An ad hoc full backup of a routine of the applied configuration runs the very job object that
  the scheduler fires by the routine's cron expression, with the routine's present handler: the
  running flag of the job keeps the two from running at once.
\<close>

theorem adhoc_shares_job:
  assumes "ApplyNewConfig env config s = (s', Ok handlers)" and "wf_map (routines_of config)" and "keys_apart env"
    and "name \<in> set (keys (routines_of config))"
  shows "\<exists>a d cron. NewAdHocFullBackupJobForRoutine env name now s' = Some a \<and> (d, CronTrigger cron) \<in> set (ssScheduled s') \<and>
    jdName d = name \<and> jdGroup d = quartzGroupBackupFull \<and> jdJob a = jdJob d \<and> sjType (jdJob a) = FullJob \<and>
    sjHandler (jdJob a) = lookup handlers name"
proof -
  from ApplyNewConfig_Ok [OF assms(1)] obtain backends t where
    r: "scheduleRoutines env config handlers t = (s', Ok ())" by metis
  note k = keys_permuted [OF assms(2), of "seOrder env 2"]
  from scheduleLoop_stored [OF r [unfolded scheduleRoutines_def] conjunct1 [OF k] assms(3), of name] assms(4)
  obtain d cron where "(d, CronTrigger cron) \<in> set (ssScheduled s')" "jdName d = name" "jdGroup d = quartzGroupBackupFull"
    "sjType (jdJob d) = FullJob" "sjHandler (jdJob d) = lookup handlers name"
    "lookup (ssStore s') (seKeyText env name quartzGroupBackupFull) = Some d"
    by (metis k)
  then show ?thesis by (auto simp: NewAdHocFullBackupJobForRoutine_def)
qed

lemma ApplyNewConfig_store:
  assumes "keys_apart env" and "name \<notin> set (keys (routines_of config))"
  shows "lookup (ssStore (fst (ApplyNewConfig env config s))) (seKeyText env name quartzGroupBackupFull) =
    lookup (ssStore s) (seKeyText env name quartzGroupBackupFull)"
proof -
  let ?k = "seKeyText env name quartzGroupBackupFull"
  have "set (keys (permuted (seOrder env 2) (routines_of config))) = set (keys (routines_of config))"
    by (simp add: set_map)
  then have s: "lookup (ssStore (fst (scheduleRoutines env config handlers t))) ?k = lookup (ssStore t) ?k" for handlers t
    unfolding scheduleRoutines_def using assms
    by (intro scheduleLoop_store) (auto simp: keys_apart_def)
  show ?thesis
    using s by (auto simp: ApplyNewConfig_def Let_def MakeHandlers_def SetData_def makeHandlersLoop_frame
        intro!: bind_step_store split: option.split outcome.split)
qed

text \<open>
  C38: Applying a configuration never removes a job from the store of ad hoc jobs. After a routine is
  taken out of the configuration and that is applied, in whatever way it ends, an ad hoc full backup of
  the routine is still accepted and runs the job and the handler of the configuration before.
\<close>

theorem removed_routine_keeps_job:
  assumes "keys_apart env" and "name \<notin> set (keys (routines_of config))"
    and "lookup (ssStore s) (seKeyText env name quartzGroupBackupFull) = Some d"
  shows "\<exists>a. NewAdHocFullBackupJobForRoutine env name now (fst (ApplyNewConfig env config s)) = Some a \<and> jdJob a = jdJob d"
  using ApplyNewConfig_store [OF assms(1,2), of s] assms(3) by (simp add: NewAdHocFullBackupJobForRoutine_def)

section \<open>A concrete scheduler\<close>

definition demo_schedule_env :: schedule_env where
  "demo_schedule_env = \<lparr>seStorage = demo_lib, seCodec = demo_yaml,
     seClock = (\<lambda>name. (timeUnixMilli 30, timeUnixMilli 31, timeUnixMilli 32)), seNow = (\<lambda>name. timeUnixMilli 40),
     seOrder = (\<lambda>i m. m), seErrText = backendText (\<lambda>t. ''t''), seCron = (\<lambda>cron. None),
     seNextFire = (\<lambda>cron prev. Ok (prev + 1000000)), seKeyText = (\<lambda>name group. group @ ''::'' @ name),
     seDefaultGroup = ''default'', seClear = None, seSchedule = (\<lambda>jobs job. None)\<rparr>"

definition demo_applied_conf :: conf where
  "demo_applied_conf = (demo_run_store, NewConfig\<lparr>cfBackupRoutines := [(''r'', Some 0)]\<rparr>)"

definition demo_schedule_state :: schedule_state where
  "demo_schedule_state = \<lparr>ssScheduled = [], ssStore = [], ssBackends = [], ssHeap = [], ssJobs = 0\<rparr>"

lemma demo_keys_apart: "keys_apart demo_schedule_env"
  by (simp add: keys_apart_def demo_schedule_env_def quartzGroupBackupFull_def quartzGroupBackupIncremental_def)

lemma demo_applied:
  "case ApplyNewConfig demo_schedule_env demo_applied_conf demo_schedule_state of
     (s', Ok handlers) \<Rightarrow> map view (ssScheduled s') =
       [(''r'', ''full'', FullJob, Some 0, CronTrigger ''@daily''), (''r'', ''default'', FullJob, Some 0, RunOnceTrigger 0)]
   | _ \<Rightarrow> False"
  by code_simp

lemma demo_routines: "routines_of demo_applied_conf = [(''r'', Some 0)]"
  by (simp add: demo_applied_conf_def)

theorem config_applied_witness:
  "\<exists>s' handlers i. ApplyNewConfig demo_schedule_env demo_applied_conf demo_schedule_state = (s', Ok handlers) \<and>
     plan demo_schedule_env demo_run_store handlers (ssHeap s') (''r'', Some 0) =
       [(''r'', ''full'', FullJob, Some 0, CronTrigger ''@daily''), (''r'', ''default'', FullJob, Some 0, RunOnceTrigger 0)] \<and>
     lookup handlers ''r'' = Some i \<and> bhRoutineName (ssHeap s' ! i) = ''r''"
proof -
  obtain s' handlers where a: "ApplyNewConfig demo_schedule_env demo_applied_conf demo_schedule_state = (s', Ok handlers)"
    and v: "map view (ssScheduled s') =
       [(''r'', ''full'', FullJob, Some 0, CronTrigger ''@daily''), (''r'', ''default'', FullJob, Some 0, RunOnceTrigger 0)]"
    using demo_applied by (auto split: prod.splits outcome.splits)
  have "wf_map (routines_of demo_applied_conf)" by (simp add: demo_routines)
  note c = config_applied [OF a this, unfolded demo_routines]
  have "permuted (seOrder demo_schedule_env 2) [(''r'', Some (0 :: nat))] = [(''r'', Some 0)]"
    by (simp add: demo_schedule_env_def permuted_def)
  then have "plan demo_schedule_env demo_run_store handlers (ssHeap s') (''r'', Some 0) = map view (ssScheduled s')"
    using conjunct1 [OF c] by (simp add: demo_applied_conf_def)
  moreover obtain i where "lookup handlers ''r'' = Some i" "bhRoutineName (ssHeap s' ! i) = ''r''"
    using conjunct2 [OF c] by auto
  ultimately show ?thesis using a v by (intro exI [of _ s'] exI [of _ handlers] exI [of _ i]) simp
qed

theorem demo_adhoc_shares:
  "\<exists>a. NewAdHocFullBackupJobForRoutine demo_schedule_env ''r'' (timeUnixMilli 50)
       (fst (ApplyNewConfig demo_schedule_env demo_applied_conf demo_schedule_state)) = Some a \<and> sjType (jdJob a) = FullJob"
proof -
  obtain s' handlers where a: "ApplyNewConfig demo_schedule_env demo_applied_conf demo_schedule_state = (s', Ok handlers)"
    using demo_applied by (auto split: prod.splits outcome.splits)
  have "wf_map (routines_of demo_applied_conf)" "''r'' \<in> set (keys (routines_of demo_applied_conf))"
    by (simp_all add: demo_routines)
  from adhoc_shares_job [OF a this(1) demo_keys_apart this(2), of "timeUnixMilli 50"] show ?thesis using a by auto
qed

theorem removed_routine_keeps_job_witness:
  "\<exists>a. NewAdHocFullBackupJobForRoutine demo_schedule_env ''r'' (timeUnixMilli 50)
       (fst (ApplyNewConfig demo_schedule_env (demo_run_store, NewConfig)
          (fst (ApplyNewConfig demo_schedule_env demo_applied_conf demo_schedule_state)))) = Some a"
proof -
  let ?s = "fst (ApplyNewConfig demo_schedule_env demo_applied_conf demo_schedule_state)"
  have "lookup (ssStore ?s) (seKeyText demo_schedule_env ''r'' quartzGroupBackupFull) \<noteq> None" by code_simp
  then obtain d where d: "lookup (ssStore ?s) (seKeyText demo_schedule_env ''r'' quartzGroupBackupFull) = Some d" by auto
  have "''r'' \<notin> set (keys (routines_of (demo_run_store, NewConfig)))" by (simp add: NewConfig_def)
  from removed_routine_keeps_job [OF demo_keys_apart this d, of "timeUnixMilli 50"] show ?thesis by auto
qed

end
