(* ===== verification/ConfigManager.thy ===== *)
theory ConfigManager
  imports SchedulerProps
begin

text \<open>
  \<open>internal/server/configuration\<close>: where the configuration is read from and written to, and how the
  service loads it. The file system, HTTP, the codecs and the text of \<open>%q\<close> and \<open>%+v\<close> are parameters;
  \<open>clLeft\<close> is what a file that held one content holds after storing another in it failed:
  \<open>os.WriteFile\<close> truncates first, so it may be neither.
\<close>

record config_lib =
  clStorage :: storage_lib
  clCancelled :: "string option"
  clNewRequest :: "string \<Rightarrow> string option"
  clHTTPGet :: "string \<Rightarrow> (string, nat \<times> (string, bytes) outcome) outcome"
  clOpen :: "string \<Rightarrow> (string, (string, bytes) outcome) outcome"
  clReadDisk :: "string \<Rightarrow> (string, bytes) outcome"
  clWriteDisk :: "string \<Rightarrow> bytes \<Rightarrow> string option"
  clLeft :: "bytes option \<Rightarrow> bytes \<Rightarrow> bytes option"
  clMarshalYAML :: "DtoConfig \<Rightarrow> (string, bytes) outcome"
  clUnmarshalConfig :: "bytes \<Rightarrow> DtoConfig \<Rightarrow> (string, DtoConfig) outcome"
  clUnmarshalStorage :: "bytes \<Rightarrow> (string, DtoStorage) outcome"
  clCron :: "string \<Rightarrow> string option"
  clShow :: "config_error \<Rightarrow> string"
  clQuote :: "string \<Rightarrow> string"
  clShowStorage :: "Storage option \<Rightarrow> string"

datatype Manager =
    HTTPConfigurationManager string
  | FileConfigurationManager string
  | StorageManager "Storage option"

definition with_text :: "string \<Rightarrow> (string, 'a) outcome \<Rightarrow> (string, 'a) outcome" where
  "with_text t = map_err (\<lambda>e. t @ e)"

abbreviation dto_text :: "config_lib \<Rightarrow> 'a checked \<Rightarrow> (string, 'a) outcome" where
  "dto_text lib \<equiv> map_err (error_text (clShow lib))"

section \<open>Reading\<close>

text \<open>A reader is what reading all of it answers.\<close>

definition httpReadConfiguration :: "config_lib \<Rightarrow> string \<Rightarrow> (string, (string, bytes) outcome) outcome" where
  "httpReadConfiguration lib configURL =
     (if configURL = [] then Err ''configuration URL is missing''
      else case clNewRequest lib configURL of
             Some e \<Rightarrow> Err (''failed to create HTTP request: '' @ e)
           | None \<Rightarrow>
               and_then (with_text ''failed to execute HTTP request: '' (clHTTPGet lib configURL)) (\<lambda>(code, content).
               if code \<noteq> 200 then Err (''unexpected HTTP status code: '' @ nat_string code) else Ok content))"

definition fileReadConfiguration :: "config_lib \<Rightarrow> string \<Rightarrow> (string, (string, bytes) outcome) outcome" where
  "fileReadConfiguration lib path =
     (case clCancelled lib of
        Some e \<Rightarrow> Err e
      | None \<Rightarrow>
          (if path = [] then Err ''configuration file path is missing''
           else with_text (''failed to open file '' @ clQuote lib path @ '': '') (clOpen lib path)))"

definition storageReadConfiguration :: "config_lib \<Rightarrow> Storage option \<Rightarrow> (string, (string, bytes) outcome) outcome" where
  "storageReadConfiguration lib s =
     and_then (map_err (\<lambda>e. ''failed to read configuration from storage '' @ clShowStorage lib s @ '': '' @ ioText e) (ReadFile (clStorage lib) s []))
       (\<lambda>content. Ok (Ok content))"

text \<open>The manager is an interface: its method is that of the value behind it.\<close>

fun ReadConfiguration :: "config_lib \<Rightarrow> Manager \<Rightarrow> (string, (string, bytes) outcome) outcome" where
  "ReadConfiguration lib (HTTPConfigurationManager configURL) = httpReadConfiguration lib configURL"
| "ReadConfiguration lib (FileConfigurationManager path) = fileReadConfiguration lib path"
| "ReadConfiguration lib (StorageManager s) = storageReadConfiguration lib s"

section \<open>Writing\<close>

text \<open>The answer of a write that succeeds is what was written.\<close>

definition marshalConfig :: "config_lib \<Rightarrow> conf \<Rightarrow> (string, bytes) outcome" where
  "marshalConfig lib config =
     and_then (dto_text lib (NewConfigFromModel config)) (\<lambda>configDto.
     with_text ''failed to marshal configuration data: '' (with_text ''failed to marshal: '' (clMarshalYAML lib configDto)))"

definition httpWriteConfiguration :: "config_lib \<Rightarrow> string \<Rightarrow> conf \<Rightarrow> (string, bytes) outcome" where
  "httpWriteConfiguration lib configURL config =
     Err ''writing configuration is not supported for HTTP: unsupported operation''"

definition fileWriteConfiguration :: "config_lib \<Rightarrow> string \<Rightarrow> conf \<Rightarrow> (string, bytes) outcome" where
  "fileWriteConfiguration lib path config =
     (case clCancelled lib of
        Some e \<Rightarrow> Err e
      | None \<Rightarrow>
          (if path = [] then Err ''configuration file path is missing''
           else and_then (marshalConfig lib config) (\<lambda>data.
             case clWriteDisk lib path data of
               Some e \<Rightarrow> Err (''failed to write configuration to file '' @ clQuote lib path @ '': '' @ e)
             | None \<Rightarrow> Ok data)))"

definition storageWriteConfiguration :: "config_lib \<Rightarrow> Storage option \<Rightarrow> conf \<Rightarrow> (string, bytes) outcome" where
  "storageWriteConfiguration lib s config =
     and_then (marshalConfig lib config) (\<lambda>data.
     and_then (map_err (\<lambda>e. ''failed to write configuration to storage '' @ clShowStorage lib s @ '': '' @ ioText e) (WriteFile (clStorage lib) s [] data))
       (\<lambda>_. Ok data))"

fun WriteConfiguration :: "config_lib \<Rightarrow> Manager \<Rightarrow> conf \<Rightarrow> (string, bytes) outcome" where
  "WriteConfiguration lib (HTTPConfigurationManager configURL) config = httpWriteConfiguration lib configURL config"
| "WriteConfiguration lib (FileConfigurationManager path) config = fileWriteConfiguration lib path config"
| "WriteConfiguration lib (StorageManager s) config = storageWriteConfiguration lib s config"

section \<open>The parts of a write\<close>

text \<open>\<open>WriteConfiguration\<close> makes the bytes of the configuration, and then stores them.\<close>

fun prepare :: "config_lib \<Rightarrow> Manager \<Rightarrow> conf \<Rightarrow> (string, bytes) outcome" where
  "prepare lib (HTTPConfigurationManager configURL) config = httpWriteConfiguration lib configURL config"
| "prepare lib (FileConfigurationManager path) config =
     (case clCancelled lib of
        Some e \<Rightarrow> Err e
      | None \<Rightarrow> (if path = [] then Err ''configuration file path is missing'' else marshalConfig lib config))"
| "prepare lib (StorageManager s) config = marshalConfig lib config"

fun store_bytes :: "config_lib \<Rightarrow> Manager \<Rightarrow> bytes \<Rightarrow> (string, unit) outcome" where
  "store_bytes lib (HTTPConfigurationManager configURL) data = Ok ()"
| "store_bytes lib (FileConfigurationManager path) data =
     (case clWriteDisk lib path data of
        Some e \<Rightarrow> Err (''failed to write configuration to file '' @ clQuote lib path @ '': '' @ e)
      | None \<Rightarrow> Ok ())"
| "store_bytes lib (StorageManager s) data =
     map_err (\<lambda>e. ''failed to write configuration to storage '' @ clShowStorage lib s @ '': '' @ ioText e) (WriteFile (clStorage lib) s [] data)"

lemma WriteConfiguration_parts:
  "WriteConfiguration lib m config = and_then (prepare lib m config) (\<lambda>data. and_then (store_bytes lib m data) (\<lambda>_. Ok data))"
proof (cases m)
  case (FileConfigurationManager path)
  then show ?thesis
    by (cases "marshalConfig lib config") (simp_all add: fileWriteConfiguration_def split: option.split)
qed (simp_all add: httpWriteConfiguration_def storageWriteConfiguration_def)

text \<open>
  What the file holds after a write, of what it held: a write that fails before it has the bytes leaves
  it alone, one that fails while it stores them leaves what the file system or the storage leaves.
\<close>

definition file_after :: "config_lib \<Rightarrow> Manager \<Rightarrow> conf \<Rightarrow> bytes option \<Rightarrow> bytes option" where
  "file_after lib m config old =
     (case prepare lib m config of
        Ok data \<Rightarrow>
          (case store_bytes lib m data of Ok u \<Rightarrow> Some data | Err e \<Rightarrow> clLeft lib old data | Panic p \<Rightarrow> old)
      | _ \<Rightarrow> old)"

lemma file_after_written: "WriteConfiguration lib m config = Ok data \<Longrightarrow> file_after lib m config old = Some data"
  by (auto simp: WriteConfiguration_parts file_after_def outcome_simps)

section \<open>Loading\<close>

definition isHTTPPath :: "string \<Rightarrow> bool" where
  "isHTTPPath path \<longleftrightarrow> HasPrefix path ''http://'' \<or> HasPrefix path ''https://''"

definition readFromHTTP :: "config_lib \<Rightarrow> string \<Rightarrow> (string, bytes) outcome" where
  "readFromHTTP lib url =
     and_then (with_text (''failed HTTP GET request to '' @ url @ '': '') (clHTTPGet lib url)) (\<lambda>(code, content).
       if code \<noteq> 200 then Err (''unexpected HTTP status code: '' @ nat_string code)
       else with_text ''failed to read HTTP response body: '' content)"

definition loadFileContent :: "config_lib \<Rightarrow> string \<Rightarrow> (string, bytes) outcome" where
  "loadFileContent lib configFile =
     (if isHTTPPath configFile then readFromHTTP lib configFile
      else with_text (''failed to read file '' @ configFile @ '' from disk: '') (clReadDisk lib configFile))"

definition readConfigStorage :: "config_lib \<Rightarrow> string \<Rightarrow> (string, Storage option) outcome" where
  "readConfigStorage lib configURI =
     and_then (with_text ''failed to load file content: '' (loadFileContent lib configURI)) (\<lambda>content.
     and_then (with_text ''failed to unmarshal storage configuration: '' (clUnmarshalStorage lib content)) (\<lambda>configStorage.
     and_then (with_text ''validate storage configuration error: '' (dto_text lib (validateStorage (Some configStorage)))) (\<lambda>_.
     Ok (storageToModel configStorage))))"

definition newConfigManager :: "config_lib \<Rightarrow> string \<Rightarrow> bool \<Rightarrow> (string, Manager) outcome" where
  "newConfigManager lib configFile remote =
     (if remote
      then and_then (with_text ''failed to read remote storage configuration: '' (readConfigStorage lib configFile))
             (\<lambda>s. Ok (StorageManager s))
      else if isHTTPPath configFile then Ok (HTTPConfigurationManager configFile)
      else Ok (FileConfigurationManager configFile))"

definition Load :: "config_lib \<Rightarrow> string \<Rightarrow> bool \<Rightarrow> (string, conf \<times> Manager) outcome" where
  "Load lib configFile remote =
     and_then (with_text ''failed to create config manager: '' (newConfigManager lib configFile remote)) (\<lambda>manager.
     and_then (with_text ''failed to read configuration file: '' (ReadConfiguration lib manager)) (\<lambda>reader.
     and_then (with_text ''failed to read configuration content: '' reader) (\<lambda>configBytes.
     and_then (with_text ''failed to unmarshal configuration: ''
        (clUnmarshalConfig lib configBytes NewConfigWithDefaultValues)) (\<lambda>config.
     and_then (with_text ''configuration validation failed: '' (dto_text lib (validateConfig (clCron lib) config))) (\<lambda>config.
     and_then (with_text ''failed to convert configuration to model: '' (dto_text lib (configToModel config emptyStore)))
       (\<lambda>modelConfig. Ok (modelConfig, manager)))))))"

end
