(* ===== verification/ConfigHandlers.thy ===== *)
theory ConfigHandlers
  imports ConfigManager
begin

text \<open>
  \<open>internal/server/handlers\<close>, part one: the service behind the HTTP server, how it answers, and the
  requests that read and change the configuration.
\<close>

section \<open>The service\<close>

text \<open>A restore goes on in a goroutine after the request is answered: what the goroutine was given.\<close>

datatype restore_task =
    RestoreTask RestoreJobID uint64 RestoreRequest
  | TimestampTask RestoreJobID BackupBackend "BackupDetails list" RestoreTimestampRequest

text \<open>
  The objects of the program are those of the store of the client manager. A \<open>*model.Config\<close> is an
  index into \<open>svConfigs\<close>: the service and the restore manager hold one each, the same at the start.
  \<open>svFile\<close> is what the file of the configuration holds or, when it is in a storage, what was handed to
  the storage's writer, whose \<open>Close\<close> may still fail unseen; \<open>svTasks\<close> are the restores started and not yet run.
\<close>

record Service =
  svConfigs :: "Config list"
  svConfig :: ptr
  svRestoreConfig :: ptr
  svScheduler :: schedule_state
  svRestore :: restore_state
  svHandlers :: BackupHandlerHolder
  svManager :: Manager
  svFile :: "bytes option"
  svTasks :: "restore_task list"

definition config_at :: "ptr \<Rightarrow> Service \<Rightarrow> Config option" where
  "config_at p s = (case p of None \<Rightarrow> None | Some i \<Rightarrow> if i < length (svConfigs s) then Some (svConfigs s ! i) else None)"

abbreviation service_store :: "Service \<Rightarrow> store" where
  "service_store s \<equiv> cmStore (rsClients (svRestore s))"

definition put_store :: "store \<Rightarrow> Service \<Rightarrow> Service" where
  "put_store st s = s\<lparr>svRestore := (svRestore s)\<lparr>rsClients := (rsClients (svRestore s))\<lparr>cmStore := st\<rparr>\<rparr>\<rparr>"

definition current :: "Service \<Rightarrow> conf option" where
  "current s = map_option (\<lambda>c. (service_store s, c)) (config_at (svConfig s) s)"

text \<open>A call of a method of \<open>s.config\<close> changes the object in place.\<close>

definition put_current :: "conf \<Rightarrow> Service \<Rightarrow> Service" where
  "put_current c s =
     (case svConfig s of
        None \<Rightarrow> s
      | Some i \<Rightarrow> (put_store (fst c) s)\<lparr>svConfigs := (svConfigs s)[i := snd c]\<rparr>)"

section \<open>Responses\<close>

text \<open>
  \<open>http.ResponseWriter\<close>: the first status written stays, a body without a status has status 200.
  \<open>http.Error\<close> writes the status and the text with a newline.
\<close>

record http_writer =
  hwStatus :: "nat option"
  hwBody :: string

definition new_writer :: http_writer where
  "new_writer = \<lparr>hwStatus = None, hwBody = []\<rparr>"

definition WriteHeader :: "nat \<Rightarrow> http_writer \<Rightarrow> http_writer" where
  "WriteHeader code w = (if hwStatus w = None then w\<lparr>hwStatus := Some code\<rparr> else w)"

definition Write :: "string \<Rightarrow> http_writer \<Rightarrow> http_writer" where
  "Write text w = (WriteHeader 200 w)\<lparr>hwBody := hwBody w @ text\<rparr>"

definition http_Error :: "string \<Rightarrow> nat \<Rightarrow> http_writer \<Rightarrow> http_writer" where
  "http_Error msg code w = Write (msg @ [CHR 0x0A]) (WriteHeader code w)"

abbreviation "StatusOK \<equiv> (200 :: nat)"
abbreviation "StatusCreated \<equiv> (201 :: nat)"
abbreviation "StatusAccepted \<equiv> (202 :: nat)"
abbreviation "StatusNoContent \<equiv> (204 :: nat)"
abbreviation "StatusBadRequest \<equiv> (400 :: nat)"
abbreviation "StatusNotFound \<equiv> (404 :: nat)"
abbreviation "StatusInternalServerError \<equiv> (500 :: nat)"

text \<open>A handler ends with a service and a response, or in a panic, which the HTTP server recovers.\<close>

type_synonym handled = "(Service, http_writer) step"

definition reply :: "Service \<Rightarrow> http_writer \<Rightarrow> handled" where
  "reply s w = (s, Ok w)"

definition status_of :: "handled \<Rightarrow> nat option" where
  "status_of r = (case snd r of Ok w \<Rightarrow> (case hwStatus w of None \<Rightarrow> Some StatusOK | Some code \<Rightarrow> Some code) | _ \<Rightarrow> None)"

text \<open>
  The encoder of JSON, and the libraries the rest relies on: the number \<open>rand.Int\<close> answers, the clock,
  what the library reports of running jobs, the order of a map, the sorting of backups, the archive of the cluster's
  configuration and the texts of errors of the standard library. An environment is that of one request.
\<close>

datatype document =
    ConfigDoc "DtoConfig option"
  | StorageDoc "DtoStorage option"
  | StoragesDoc "(string, DtoStorage option) gomap"
  | PolicyDoc "DtoBackupPolicy option"
  | PoliciesDoc "(string, DtoBackupPolicy option) gomap"
  | ClusterDoc "DtoAerospikeCluster option"
  | ClustersDoc "(string, DtoAerospikeCluster option) gomap"
  | RoutineDoc "DtoBackupRoutine option"
  | RoutinesDoc "(string, DtoBackupRoutine option) gomap"
  | BackupsDoc "DtoBackupDetails list"
  | AllBackupsDoc "(string, DtoBackupDetails list) gomap"
  | CurrentDoc "DtoCurrentBackups option"
  | ResultDoc "DtoRestoreJobStatus option"

record handler_env =
  hmConfig :: config_lib
  hmSchedule :: schedule_env
  hmRestore :: restore_env
  hmJSON :: "document \<Rightarrow> (string, string) outcome"
  hmJobID :: RestoreJobID
  hmNow :: time
  hmCast :: "rat \<Rightarrow> 64 word"
  hmRestoreStats :: "nat \<Rightarrow> LibRestoreStats"
  hmBackupStats :: "nat \<Rightarrow> LibBackupStats"
  hmPick :: "(string, ptr) gomap \<Rightarrow> (string, ptr) gomap"
  hmSort :: "BackupDetails list \<Rightarrow> BackupDetails list"
  hmZip :: "(string \<times> bytes) list \<Rightarrow> (string, bytes) outcome"
  hmNumText :: "num_error \<Rightarrow> string"
  hmBoundsText :: "bounds_error \<Rightarrow> string"

abbreviation shown :: "handler_env \<Rightarrow> config_error \<Rightarrow> string" where
  "shown env \<equiv> clShow (hmConfig env)"

abbreviation dto_shown :: "handler_env \<Rightarrow> dto_error \<Rightarrow> string" where
  "dto_shown env \<equiv> error_text (clShow (hmConfig env))"

definition Serialize :: "handler_env \<Rightarrow> document \<Rightarrow> (string, string) outcome" where
  "Serialize env v = map_err (\<lambda>e. ''failed to marshal: '' @ e) (hmJSON env v)"

section \<open>Changes of the configuration\<close>

text \<open>\<open>s.configurationManager.WriteConfiguration(s.config)\<close>, then the status of success.\<close>

definition write_and_reply :: "handler_env \<Rightarrow> nat \<Rightarrow> Service \<Rightarrow> handled" where
  "write_and_reply env code s =
     (case current s of
        None \<Rightarrow> (s, Panic NilDereference)
      | Some c \<Rightarrow>
          (let s' = s\<lparr>svFile := file_after (hmConfig env) (svManager s) c (svFile s)\<rparr> in
           case WriteConfiguration (hmConfig env) (svManager s) c of
             Panic p \<Rightarrow> (s', Panic p)
           | Err e \<Rightarrow> reply s' (http_Error e StatusBadRequest new_writer)
           | Ok data \<Rightarrow> reply s' (WriteHeader code new_writer)))"

text \<open>
  A method of \<open>s.config\<close> that may change it: an error is answered with the status \<open>failed\<close>, success
  is written and answered with \<open>code\<close>.
\<close>

definition change ::
  "handler_env \<Rightarrow> (conf \<Rightarrow> conf_result) \<Rightarrow> nat \<Rightarrow> nat \<Rightarrow> Service \<Rightarrow> handled" where
  "change env f failed code s =
     (case current s of
        None \<Rightarrow> (s, Panic NilDereference)
      | Some c \<Rightarrow>
          (case f c of
             Panic p \<Rightarrow> (s, Panic p)
           | Err e \<Rightarrow> reply s (http_Error (shown env e) failed new_writer)
           | Ok c' \<Rightarrow> write_and_reply env code (put_current c' s)))"

text \<open>An error of the request itself.\<close>

definition decoded :: "handler_env \<Rightarrow> 'a checked \<Rightarrow> Service \<Rightarrow> ('a \<Rightarrow> handled) \<Rightarrow> handled" where
  "decoded env r s f =
     (case r of
        Panic p \<Rightarrow> (s, Panic p)
      | Err e \<Rightarrow> reply s (http_Error (dto_shown env e) StatusBadRequest new_writer)
      | Ok x \<Rightarrow> f x)"

definition named :: "string \<Rightarrow> string \<Rightarrow> Service \<Rightarrow> handled \<Rightarrow> handled" where
  "named msg name s r = (if name = [] then reply s (http_Error msg StatusBadRequest new_writer) else r)"

text \<open>An encoded answer.\<close>

definition write_document :: "handler_env \<Rightarrow> document \<Rightarrow> (string \<Rightarrow> string) \<Rightarrow> Service \<Rightarrow> handled" where
  "write_document env v failed s =
     (case Serialize env v of
        Panic p \<Rightarrow> (s, Panic p)
      | Err e \<Rightarrow> reply s (http_Error (failed e) StatusInternalServerError new_writer)
      | Ok jsonResponse \<Rightarrow> reply s (Write jsonResponse (WriteHeader StatusOK new_writer)))"

definition storageNameNotSpecifiedMsg :: string where
  "storageNameNotSpecifiedMsg = ''Storage name is not specified''"

definition policyNameNotSpecifiedMsg :: string where
  "policyNameNotSpecifiedMsg = ''Policy name is not specified''"

definition clusterNameNotSpecifiedMsg :: string where
  "clusterNameNotSpecifiedMsg = ''Cluster name is not specified''"

definition routineNameNotSpecifiedMsg :: string where
  "routineNameNotSpecifiedMsg = ''Routine name is not specified''"

section \<open>Storage\<close>

definition addStorage :: "handler_env \<Rightarrow> DtoStorage decoders \<Rightarrow> string \<Rightarrow> Service \<Rightarrow> handled" where
  "addStorage env body name s =
     decoded env (NewStorageFromReader body JSON) s (\<lambda>newStorage.
     named storageNameNotSpecifiedMsg name s
       (change env (\<lambda>c. case newStorageObject (storageToModel newStorage) (fst c) of (st, p) \<Rightarrow> AddStorage name p (st, snd c))
          StatusBadRequest StatusCreated s))"

definition ReadAllStorage :: "handler_env \<Rightarrow> Service \<Rightarrow> handled" where
  "ReadAllStorage env s =
     (case current s of
        None \<Rightarrow> (s, Panic NilDereference)
      | Some c \<Rightarrow> write_document env (StoragesDoc (ConvertStorageMapToDTO (fst c) (cfStorage (snd c)))) (\<lambda>e. e) s)"

definition readStorage :: "handler_env \<Rightarrow> string \<Rightarrow> Service \<Rightarrow> handled" where
  "readStorage env storageName s =
     named storageNameNotSpecifiedMsg storageName s
      (case current s of
         None \<Rightarrow> (s, Panic NilDereference)
       | Some c \<Rightarrow>
           (case lookup (cfStorage (snd c)) storageName of
              None \<Rightarrow> reply s (http_Error (''Storage '' @ storageName @ '' could not be found'') StatusNotFound new_writer)
            | Some p \<Rightarrow> write_document env (StorageDoc (NewStorageFromModel (deref stStorages (fst c) p))) (\<lambda>e. e) s))"

text \<open>The document of an update is decoded but not validated.\<close>

definition updateStorage :: "handler_env \<Rightarrow> (string, DtoStorage) outcome \<Rightarrow> string \<Rightarrow> Service \<Rightarrow> handled" where
  "updateStorage env body storageName s =
     decoded env (map_err Message body) s (\<lambda>updatedStorage.
     named storageNameNotSpecifiedMsg storageName s
       (change env (\<lambda>c. case newStorageObject (storageToModel updatedStorage) (fst c) of
                        (st, p) \<Rightarrow> UpdateStorage storageName p (st, snd c))
          StatusBadRequest StatusOK s))"

definition deleteStorage :: "handler_env \<Rightarrow> string \<Rightarrow> Service \<Rightarrow> handled" where
  "deleteStorage env storageName s =
     named storageNameNotSpecifiedMsg storageName s (change env (DeleteStorage storageName) StatusBadRequest StatusNoContent s)"

section \<open>Policies\<close>

definition addPolicy :: "handler_env \<Rightarrow> DtoBackupPolicy decoders \<Rightarrow> string \<Rightarrow> Service \<Rightarrow> handled" where
  "addPolicy env body name s =
     decoded env (NewBackupPolicyFromReader body JSON) s (\<lambda>request.
     named policyNameNotSpecifiedMsg name s
       (change env (\<lambda>c. case newPolicy (backupPolicyToModel request) (fst c) of (st, p) \<Rightarrow> AddPolicy name p (st, snd c))
          StatusBadRequest StatusCreated s))"

definition converted :: "Service \<Rightarrow> 'a checked \<Rightarrow> ('a \<Rightarrow> handled) \<Rightarrow> handled" where
  "converted s r f = (case r of Ok x \<Rightarrow> f x | Err e \<Rightarrow> (s, Panic (ExplicitPanic ''unreachable'')) | Panic p \<Rightarrow> (s, Panic p))"

definition ReadPolicies :: "handler_env \<Rightarrow> Service \<Rightarrow> handled" where
  "ReadPolicies env s =
     (case current s of
        None \<Rightarrow> (s, Panic NilDereference)
      | Some c \<Rightarrow>
          converted s (ConvertModelMapToDTO (cfBackupPolicies (snd c)) (\<lambda>p. NewBackupPolicyFromModel (deref stPolicies (fst c) p)))
            (\<lambda>policies. write_document env (PoliciesDoc policies) (\<lambda>e. e) s))"

definition readPolicy :: "handler_env \<Rightarrow> string \<Rightarrow> Service \<Rightarrow> handled" where
  "readPolicy env policyName s =
     named policyNameNotSpecifiedMsg policyName s
      (case current s of
         None \<Rightarrow> (s, Panic NilDereference)
       | Some c \<Rightarrow>
           (case lookup (cfBackupPolicies (snd c)) policyName of
              None \<Rightarrow> reply s (http_Error (''policy '' @ policyName @ '' could not be found'') StatusNotFound new_writer)
            | Some p \<Rightarrow>
                converted s (NewBackupPolicyFromModel (deref stPolicies (fst c) p))
                  (\<lambda>policy. write_document env (PolicyDoc policy) (\<lambda>e. e) s)))"

definition updatePolicy :: "handler_env \<Rightarrow> DtoBackupPolicy decoders \<Rightarrow> string \<Rightarrow> Service \<Rightarrow> handled" where
  "updatePolicy env body name s =
     decoded env (NewBackupPolicyFromReader body JSON) s (\<lambda>request.
     named policyNameNotSpecifiedMsg name s
       (change env (\<lambda>c. case newPolicy (backupPolicyToModel request) (fst c) of (st, p) \<Rightarrow> UpdatePolicy name p (st, snd c))
          StatusBadRequest StatusOK s))"

definition deletePolicy :: "handler_env \<Rightarrow> string \<Rightarrow> Service \<Rightarrow> handled" where
  "deletePolicy env policyName s =
     named policyNameNotSpecifiedMsg policyName s (change env (DeletePolicy policyName) StatusBadRequest StatusNoContent s)"

section \<open>Clusters\<close>

definition addAerospikeCluster :: "handler_env \<Rightarrow> DtoAerospikeCluster decoders \<Rightarrow> string \<Rightarrow> Service \<Rightarrow> handled" where
  "addAerospikeCluster env body name s =
     decoded env (NewClusterFromReader body JSON) s (\<lambda>newCluster'.
     named clusterNameNotSpecifiedMsg name s
       (change env (\<lambda>c. case newCluster (clusterToModel newCluster') (fst c) of (st, p) \<Rightarrow> AddCluster name p (st, snd c))
          StatusInternalServerError StatusCreated s))"

definition ReadAerospikeClusters :: "handler_env \<Rightarrow> Service \<Rightarrow> handled" where
  "ReadAerospikeClusters env s =
     (case current s of
        None \<Rightarrow> (s, Panic NilDereference)
      | Some c \<Rightarrow>
          converted s (ConvertModelMapToDTO (cfAerospikeClusters (snd c)) (\<lambda>p. NewClusterFromModel (deref stClusters (fst c) p)))
            (\<lambda>toDTO. write_document env (ClustersDoc toDTO) (\<lambda>e. e) s))"

definition readAerospikeCluster :: "handler_env \<Rightarrow> string \<Rightarrow> Service \<Rightarrow> handled" where
  "readAerospikeCluster env clusterName s =
     named clusterNameNotSpecifiedMsg clusterName s
      (case current s of
         None \<Rightarrow> (s, Panic NilDereference)
       | Some c \<Rightarrow>
           (case lookup (cfAerospikeClusters (snd c)) clusterName of
              None \<Rightarrow> reply s (http_Error (''cluster '' @ clusterName @ '' could not be found'') StatusNotFound new_writer)
            | Some p \<Rightarrow>
                converted s (NewClusterFromModel (deref stClusters (fst c) p))
                  (\<lambda>cluster. write_document env (ClusterDoc cluster) (\<lambda>e. e) s)))"

text \<open>After an error of the write the handler goes on to write the status of success, which comes too late.\<close>

definition updateAerospikeCluster :: "handler_env \<Rightarrow> DtoAerospikeCluster decoders \<Rightarrow> string \<Rightarrow> Service \<Rightarrow> handled" where
  "updateAerospikeCluster env body clusterName s =
     decoded env (NewClusterFromReader body JSON) s (\<lambda>updatedCluster.
     named clusterNameNotSpecifiedMsg clusterName s
      (case current s of
         None \<Rightarrow> (s, Panic NilDereference)
       | Some c \<Rightarrow>
           (case newCluster (clusterToModel updatedCluster) (fst c) of (st, p) \<Rightarrow>
            (case UpdateCluster clusterName p (st, snd c) of
               Panic q \<Rightarrow> (s, Panic q)
             | Err e \<Rightarrow> reply s (http_Error (shown env e) StatusBadRequest new_writer)
             | Ok c' \<Rightarrow>
                 (let s = put_current c' s;
                      s' = s\<lparr>svFile := file_after (hmConfig env) (svManager s) c' (svFile s)\<rparr> in
                  case WriteConfiguration (hmConfig env) (svManager s) c' of
                    Panic q \<Rightarrow> (s', Panic q)
                  | Err e \<Rightarrow> reply s' (WriteHeader StatusOK (http_Error e StatusBadRequest new_writer))
                  | Ok data \<Rightarrow> reply s' (WriteHeader StatusOK new_writer))))))"

definition deleteAerospikeCluster :: "handler_env \<Rightarrow> string \<Rightarrow> Service \<Rightarrow> handled" where
  "deleteAerospikeCluster env clusterName s =
     named clusterNameNotSpecifiedMsg clusterName s (change env (DeleteCluster clusterName) StatusBadRequest StatusNoContent s)"

section \<open>Routines\<close>

text \<open>\<open>newRoutine.ToModel(s.config)\<close> and the allocation of its result.\<close>

definition with_new_routine ::
  "handler_env \<Rightarrow> DtoBackupRoutine \<Rightarrow> (string \<Rightarrow> ptr \<Rightarrow> conf \<Rightarrow> conf_result) \<Rightarrow> string \<Rightarrow> nat \<Rightarrow> Service \<Rightarrow> handled" where
  "with_new_routine env r f name code s =
     (case current s of
        None \<Rightarrow> (s, Panic NilDereference)
      | Some c \<Rightarrow>
          decoded env (routineToModel r c) s (\<lambda>toModel.
            change env (\<lambda>c. case newRoutine toModel (fst c) of (st, p) \<Rightarrow> f name p (st, snd c)) StatusBadRequest code s))"

definition addRoutine :: "handler_env \<Rightarrow> DtoBackupRoutine decoders \<Rightarrow> string \<Rightarrow> Service \<Rightarrow> handled" where
  "addRoutine env body name s =
     decoded env (NewRoutineFromReader (clCron (hmConfig env)) body JSON) s (\<lambda>newRoutine'.
     named routineNameNotSpecifiedMsg name s (with_new_routine env newRoutine' AddRoutine name StatusCreated s))"

definition ReadRoutines :: "handler_env \<Rightarrow> Service \<Rightarrow> handled" where
  "ReadRoutines env s =
     (case current s of
        None \<Rightarrow> (s, Panic NilDereference)
      | Some c \<Rightarrow>
          converted s (ConvertModelMapToDTO (cfBackupRoutines (snd c))
              (\<lambda>p. Ok (NewRoutineFromModel (deref stRoutines (fst c) p) (Some (snd c)))))
            (\<lambda>toDTO. write_document env (RoutinesDoc toDTO) (\<lambda>e. e) s))"

definition readRoutine :: "handler_env \<Rightarrow> string \<Rightarrow> Service \<Rightarrow> handled" where
  "readRoutine env routineName s =
     named routineNameNotSpecifiedMsg routineName s
      (case current s of
         None \<Rightarrow> (s, Panic NilDereference)
       | Some c \<Rightarrow>
           (case lookup (cfBackupRoutines (snd c)) routineName of
              None \<Rightarrow> reply s (http_Error (''Routine '' @ routineName @ '' could not be found'') StatusNotFound new_writer)
            | Some p \<Rightarrow>
                write_document env (RoutineDoc (NewRoutineFromModel (deref stRoutines (fst c) p) (Some (snd c)))) (\<lambda>e. e) s))"

definition updateRoutine :: "handler_env \<Rightarrow> DtoBackupRoutine decoders \<Rightarrow> string \<Rightarrow> Service \<Rightarrow> handled" where
  "updateRoutine env body name s =
     decoded env (NewRoutineFromReader (clCron (hmConfig env)) body JSON) s (\<lambda>updatedRoutine.
     named routineNameNotSpecifiedMsg name s (with_new_routine env updatedRoutine UpdateRoutine name StatusOK s))"

definition deleteRoutine :: "handler_env \<Rightarrow> string \<Rightarrow> Service \<Rightarrow> handled" where
  "deleteRoutine env routineName s =
     named routineNameNotSpecifiedMsg routineName s (change env (DeleteRoutine routineName) StatusBadRequest StatusNoContent s)"

section \<open>The whole configuration\<close>

definition readConfig :: "handler_env \<Rightarrow> Service \<Rightarrow> handled" where
  "readConfig env s =
     converted s (case current s of None \<Rightarrow> Ok None | Some c \<Rightarrow> and_then (NewConfigFromModel c) (\<lambda>doc. Ok (Some doc)))
       (\<lambda>doc. write_document env (ConfigDoc doc) (\<lambda>e. ''failed to parse service configuration'') s)"

text \<open>
  \<open>s.config, err = newConfig.ToModel()\<close> sets the field in every case: to a new configuration object or,
  with an error, to nil.
\<close>

definition updateConfig :: "handler_env \<Rightarrow> DtoConfig decoders \<Rightarrow> Service \<Rightarrow> handled" where
  "updateConfig env body s =
     decoded env (NewConfigFromReader (clCron (hmConfig env)) body JSON) s (\<lambda>newConfig.
       case configToModel newConfig (service_store s) of
         Panic p \<Rightarrow> (s, Panic p)
       | Err e \<Rightarrow> reply (s\<lparr>svConfig := None\<rparr>) (http_Error (dto_shown env e) StatusBadRequest new_writer)
       | Ok c \<Rightarrow>
           write_and_reply env StatusOK
             ((put_store (fst c) s)\<lparr>svConfigs := svConfigs s @ [snd c], svConfig := Some (length (svConfigs s))\<rparr>))"

text \<open>A nil configuration is dereferenced only after the scheduler was cleared.\<close>

definition ApplyConfig :: "handler_env \<Rightarrow> Service \<Rightarrow> handled" where
  "ApplyConfig env s =
     (case current s of
        None \<Rightarrow>
          (case seClear (hmSchedule env) of
             Some e \<Rightarrow> reply s (http_Error e StatusInternalServerError new_writer)
           | None \<Rightarrow> (s\<lparr>svScheduler := (svScheduler s)\<lparr>ssScheduled := []\<rparr>\<rparr>, Panic NilDereference))
      | Some c \<Rightarrow>
          (case ApplyNewConfig (hmSchedule env) c (svScheduler s) of
             (sch, Panic p) \<Rightarrow> (s\<lparr>svScheduler := sch\<rparr>, Panic p)
           | (sch, Err e) \<Rightarrow> reply (s\<lparr>svScheduler := sch\<rparr>) (http_Error e StatusInternalServerError new_writer)
           | (sch, Ok handlers) \<Rightarrow>
               reply (s\<lparr>svScheduler := sch, svHandlers := handlers\<rparr>) (WriteHeader StatusOK new_writer)))"

section \<open>Methods\<close>

datatype http_method = MethodGet | MethodPost | MethodPut | MethodDelete | MethodOther string

text \<open>A request on an entity: its method, the name in the path and what the decoder answers for the body.\<close>

record 'd entity_request =
  erMethod :: http_method
  erName :: string
  erBody :: "'d decoders"

text \<open>\<open>json.NewDecoder(r.Body).Decode\<close> of \<open>updateStorage\<close>, without the text of \<open>Deserialize\<close>.\<close>

definition ConfigStorageActionHandler :: "handler_env \<Rightarrow> DtoStorage entity_request \<Rightarrow> Service \<Rightarrow> handled" where
  "ConfigStorageActionHandler env r s =
     (case erMethod r of
        MethodPost \<Rightarrow> addStorage env (erBody r) (erName r) s
      | MethodGet \<Rightarrow> readStorage env (erName r) s
      | MethodPut \<Rightarrow> updateStorage env (decodeJSON (erBody r)) (erName r) s
      | MethodDelete \<Rightarrow> deleteStorage env (erName r) s
      | MethodOther m \<Rightarrow> reply s new_writer)"

definition ConfigPolicyActionHandler :: "handler_env \<Rightarrow> DtoBackupPolicy entity_request \<Rightarrow> Service \<Rightarrow> handled" where
  "ConfigPolicyActionHandler env r s =
     (case erMethod r of
        MethodPost \<Rightarrow> addPolicy env (erBody r) (erName r) s
      | MethodGet \<Rightarrow> readPolicy env (erName r) s
      | MethodPut \<Rightarrow> updatePolicy env (erBody r) (erName r) s
      | MethodDelete \<Rightarrow> deletePolicy env (erName r) s
      | MethodOther m \<Rightarrow> reply s new_writer)"

definition ConfigClusterActionHandler :: "handler_env \<Rightarrow> DtoAerospikeCluster entity_request \<Rightarrow> Service \<Rightarrow> handled" where
  "ConfigClusterActionHandler env r s =
     (case erMethod r of
        MethodPost \<Rightarrow> addAerospikeCluster env (erBody r) (erName r) s
      | MethodGet \<Rightarrow> readAerospikeCluster env (erName r) s
      | MethodPut \<Rightarrow> updateAerospikeCluster env (erBody r) (erName r) s
      | MethodDelete \<Rightarrow> deleteAerospikeCluster env (erName r) s
      | MethodOther m \<Rightarrow> reply s new_writer)"

definition ConfigRoutineActionHandler :: "handler_env \<Rightarrow> DtoBackupRoutine entity_request \<Rightarrow> Service \<Rightarrow> handled" where
  "ConfigRoutineActionHandler env r s =
     (case erMethod r of
        MethodPost \<Rightarrow> addRoutine env (erBody r) (erName r) s
      | MethodGet \<Rightarrow> readRoutine env (erName r) s
      | MethodPut \<Rightarrow> updateRoutine env (erBody r) (erName r) s
      | MethodDelete \<Rightarrow> deleteRoutine env (erName r) s
      | MethodOther m \<Rightarrow> reply s new_writer)"

definition ConfigActionHandler :: "handler_env \<Rightarrow> http_method \<Rightarrow> DtoConfig decoders \<Rightarrow> Service \<Rightarrow> handled" where
  "ConfigActionHandler env m body s =
     (case m of
        MethodGet \<Rightarrow> readConfig env s
      | MethodPut \<Rightarrow> updateConfig env body s
      | _ \<Rightarrow> reply s new_writer)"

end
