(* ===== verification/RestoreHandlers.thy ===== *)
theory RestoreHandlers
  imports ConfigHandlers
begin

text \<open>
  \<open>internal/server/handlers/restore.go\<close>: the requests that start a restore, ask for its progress and
  read the configuration a cluster had. A restore is accepted before it has begun: the goroutine is
  one of \<open>svTasks\<close>, and \<open>run_task\<close> is its run.
\<close>

section \<open>Starting a restore\<close>

definition put_restore :: "restore_state \<Rightarrow> Service \<Rightarrow> Service" where
  "put_restore r s = s\<lparr>svRestore := r\<rparr>"

definition accepted :: "RestoreJobID \<Rightarrow> restore_task \<Rightarrow> Service \<Rightarrow> handled" where
  "accepted jobID task s =
     reply (s\<lparr>svTasks := svTasks s @ [task]\<rparr>) (Write (FormatInt jobID) (WriteHeader StatusAccepted new_writer))"

definition RestoreFullHandler :: "handler_env \<Rightarrow> DtoRestoreRequest decoders \<Rightarrow> Service \<Rightarrow> handled" where
  "RestoreFullHandler env body s =
     decoded env (map_err Message (decodeJSON body)) s (\<lambda>request.
     decoded env (validateRestoreRequest request) s (\<lambda>request.
     case restoreRequestToModel request (service_store s) of
       Panic p \<Rightarrow> (s, Panic p)
     | Err e \<Rightarrow> reply s (http_Error (dto_shown env e) StatusBadRequest new_writer)
     | Ok (st, m) \<Rightarrow>
         (let s = put_store st s in
          case Restore (hmRestore env) (hmJobID env) (hmNow env) m (svRestore s) of
            Panic p \<Rightarrow> (s, Panic p)
          | Err e \<Rightarrow> reply s (http_Error e StatusBadRequest new_writer)
          | Ok (jobID, totalRecords, r) \<Rightarrow> accepted jobID (RestoreTask jobID totalRecords m) (put_restore r s))))"

text \<open>The handler of incremental backups has the same steps.\<close>

definition RestoreIncrementalHandler :: "handler_env \<Rightarrow> DtoRestoreRequest decoders \<Rightarrow> Service \<Rightarrow> handled" where
  "RestoreIncrementalHandler env body s =
     decoded env (map_err Message (decodeJSON body)) s (\<lambda>request.
     decoded env (validateRestoreRequest request) s (\<lambda>request.
     case restoreRequestToModel request (service_store s) of
       Panic p \<Rightarrow> (s, Panic p)
     | Err e \<Rightarrow> reply s (http_Error (dto_shown env e) StatusBadRequest new_writer)
     | Ok (st, m) \<Rightarrow>
         (let s = put_store st s in
          case Restore (hmRestore env) (hmJobID env) (hmNow env) m (svRestore s) of
            Panic p \<Rightarrow> (s, Panic p)
          | Err e \<Rightarrow> reply s (http_Error e StatusBadRequest new_writer)
          | Ok (jobID, totalRecords, r) \<Rightarrow> accepted jobID (RestoreTask jobID totalRecords m) (put_restore r s))))"

text \<open>The request is validated against the service's configuration, not the restore manager's.\<close>

definition RestoreByTimeHandler :: "handler_env \<Rightarrow> DtoRestoreTimestampRequest decoders \<Rightarrow> Service \<Rightarrow> handled" where
  "RestoreByTimeHandler env body s =
     decoded env (map_err Message (decodeJSON body)) s (\<lambda>request.
     decoded env (validateRestoreTimestampRequest (config_at (svConfig s) s) request) s (\<lambda>request.
     case restoreTimestampRequestToModel request (service_store s) of
       Panic p \<Rightarrow> (s, Panic p)
     | Err e \<Rightarrow> reply s (http_Error (dto_shown env e) StatusBadRequest new_writer)
     | Ok (st, m) \<Rightarrow>
         (let s = put_store st s in
          case RestoreByTime (hmRestore env) (ssBackends (svScheduler s)) (hmJobID env) (hmNow env) m (svRestore s) of
            Panic p \<Rightarrow> (s, Panic p)
          | Err e \<Rightarrow> reply s (http_Error e StatusBadRequest new_writer)
          | Ok (jobID, reader, fullBackups, r) \<Rightarrow>
              accepted jobID (TimestampTask jobID reader fullBackups m) (put_restore r s))))"

section \<open>The goroutine\<close>

text \<open>
  A restore to a point in time uses the configuration object the restore manager was made with. The
  text of an error of the reader is that of the backend.
\<close>

definition run_task :: "handler_env \<Rightarrow> restore_task \<Rightarrow> Service \<Rightarrow> (string, Service) outcome" where
  "run_task env task s =
     (case task of
        RestoreTask jobID totalRecords m \<Rightarrow>
          and_then (restoreSync (hmRestore env) jobID totalRecords m (svRestore s)) (\<lambda>r. Ok (put_restore r s))
      | TimestampTask jobID reader fullBackups m \<Rightarrow>
          (case config_at (svRestoreConfig s) s of
             None \<Rightarrow> Panic NilDereference
           | Some config \<Rightarrow>
               and_then (restoreByTimeSync (hmRestore env) config (backendText (rvTimeText (hmRestore env)))
                  (FindIncrementalBackupsForNamespace (hmSort env) (rvCodec (hmRestore env)) (rvStorage (hmRestore env)) (service_store s) reader)
                  m jobID fullBackups (svRestore s)) (\<lambda>(r, tr). Ok (put_restore r s))))"

section \<open>Its status\<close>

text \<open>
  After the answer 404 the handler goes on: it encodes the missing status and writes it after the
  text of the error.
\<close>

definition RestoreStatusHandler :: "handler_env \<Rightarrow> string \<Rightarrow> Service \<Rightarrow> handled" where
  "RestoreStatusHandler env jobIDParam s =
     (if jobIDParam = [] then reply s (http_Error ''jobId required'' StatusBadRequest new_writer)
      else case ParseInt jobIDParam of
             Panic p \<Rightarrow> (s, Panic p)
           | Err e \<Rightarrow> reply s (http_Error ''invalid job id'' StatusBadRequest new_writer)
           | Ok jobID \<Rightarrow>
               (case (case getStatus (hmCast env) (hmNow env) (hmRestoreStats env) jobID (rsJobs (svRestore s)) of
                        Ok status \<Rightarrow> Ok (Some status, new_writer)
                      | Err e \<Rightarrow> Ok (None, http_Error e StatusNotFound new_writer)
                      | Panic p \<Rightarrow> Panic p) of
                  Panic p \<Rightarrow> (s, Panic p)
                | Err e \<Rightarrow> (s, Err e)
                | Ok (status, w) \<Rightarrow>
                    (case Serialize env (ResultDoc (NewResultFromModel status)) of
                       Panic p \<Rightarrow> (s, Panic p)
                     | Err e \<Rightarrow> reply s (http_Error ''failed to parse restore status'' StatusInternalServerError (WriteHeader StatusOK w))
                     | Ok jsonResponse \<Rightarrow> reply s (Write jsonResponse (WriteHeader StatusOK w)))))"

section \<open>The configuration of a cluster\<close>

definition RetrieveConfig :: "handler_env \<Rightarrow> string \<Rightarrow> string \<Rightarrow> Service \<Rightarrow> handled" where
  "RetrieveConfig env name timestampStr s =
     (if name = [] then reply s (http_Error ''Routine name required'' StatusBadRequest new_writer)
      else if timestampStr = [] then reply s (http_Error ''Timestamp required'' StatusBadRequest new_writer)
      else case ParseInt timestampStr of
             Panic p \<Rightarrow> (s, Panic p)
           | Err e \<Rightarrow> reply s (http_Error ''Timestamp incorrect'' StatusBadRequest new_writer)
           | Ok timestamp \<Rightarrow>
               (case RetrieveConfiguration (hmRestore env) (hmZip env) (ssBackends (svScheduler s)) (service_store s) name
                       (timeUnixMilli timestamp) of
                  Panic p \<Rightarrow> (s, Panic p)
                | Err e \<Rightarrow> reply s (http_Error e StatusNotFound new_writer)
                | Ok buf \<Rightarrow> reply s (Write buf new_writer)))"

end
