(* ===== verification/BackupHandlers.thy ===== *)
theory BackupHandlers
  imports RestoreHandlers
begin

text \<open>
  \<open>internal/server/handlers/backup.go\<close>: the lists of backups, a full backup on demand and the
  progress of running backups.
\<close>

section \<open>Lists of backups\<close>

definition backupsReadFunction ::
  "restore_env \<Rightarrow> store \<Rightarrow> BackupBackend option \<Rightarrow> bool \<Rightarrow> TimeBounds \<Rightarrow> (backend_error, BackupDetails list) outcome" where
  "backupsReadFunction env st backend fullBackup timeBounds =
     (case backend of
        None \<Rightarrow> Panic NilDereference
      | Some b \<Rightarrow>
          if fullBackup then FullBackupList (rvCodec env) (rvStorage env) st b timeBounds
          else IncrementalBackupList (rvCodec env) (rvStorage env) st b timeBounds)"

text \<open>A routine without a backend has a nil reader, which is called all the same.\<close>

fun readBackupsLogic ::
  "restore_env \<Rightarrow> store \<Rightarrow> (string, ptr) gomap \<Rightarrow> BackendsHolder \<Rightarrow> TimeBounds \<Rightarrow> bool \<Rightarrow> (string, BackupDetails list) gomap \<Rightarrow>
   (backend_error, (string, BackupDetails list) gomap) outcome" where
  "readBackupsLogic env st [] backends timeBounds isFullBackup result = Ok result"
| "readBackupsLogic env st ((routine, p) # rest) backends timeBounds isFullBackup result =
     and_then (backupsReadFunction env st (GetReader routine backends) isFullBackup timeBounds) (\<lambda>list.
     readBackupsLogic env st rest backends timeBounds isFullBackup (insert_key routine list result))"

definition with_bounds :: "handler_env \<Rightarrow> string \<Rightarrow> string \<Rightarrow> Service \<Rightarrow> (TimeBounds \<Rightarrow> handled) \<Rightarrow> handled" where
  "with_bounds env from to s f =
     (case dtoNewTimeBoundsFromString from to of
        Panic p \<Rightarrow> (s, Panic p)
      | Err e \<Rightarrow> reply s (http_Error (''failed parse time limits: '' @ hmBoundsText env e) StatusBadRequest new_writer)
      | Ok tb \<Rightarrow> f (dtoTimeBoundsToModel tb))"

definition readAllBackups :: "handler_env \<Rightarrow> bool \<Rightarrow> string \<Rightarrow> string \<Rightarrow> Service \<Rightarrow> handled" where
  "readAllBackups env isFullBackup from to s =
     with_bounds env from to s (\<lambda>timeBounds.
       case current s of
         None \<Rightarrow> (s, Panic NilDereference)
       | Some c \<Rightarrow>
           (case readBackupsLogic (hmRestore env) (fst c) (permuted (hmPick env) (cfBackupRoutines (snd c)))
                   (ssBackends (svScheduler s)) timeBounds isFullBackup [] of
              Panic p \<Rightarrow> (s, Panic p)
            | Err e \<Rightarrow>
                reply s (http_Error (''failed to retrieve backup list: '' @ backendText (rvTimeText (hmRestore env)) e)
                  StatusInternalServerError new_writer)
            | Ok backups \<Rightarrow>
                write_document env (AllBackupsDoc (ConvertBackupDetailsMap (fst c) backups))
                  (\<lambda>e. ''failed to parse backup list'') s))"

definition readBackupsForRoutine :: "handler_env \<Rightarrow> bool \<Rightarrow> string \<Rightarrow> string \<Rightarrow> string \<Rightarrow> Service \<Rightarrow> handled" where
  "readBackupsForRoutine env isFullBackup from to routine s =
     with_bounds env from to s (\<lambda>timeBounds.
     named ''routine name required'' routine s
      (case GetReader routine (ssBackends (svScheduler s)) of
         None \<Rightarrow> reply s (http_Error (''routine name not found: '' @ routine) StatusBadRequest new_writer)
       | Some reader \<Rightarrow>
           (case backupsReadFunction (hmRestore env) (service_store s) (Some reader) isFullBackup timeBounds of
              Panic p \<Rightarrow> (s, Panic p)
            | Err e \<Rightarrow>
                reply s (http_Error (''failed to retrieve backup list: '' @ backendText (rvTimeText (hmRestore env)) e)
                  StatusInternalServerError new_writer)
            | Ok backups \<Rightarrow>
                write_document env (BackupsDoc (ConvertModelsToDTO backups (NewBackupDetailsFromModel (service_store s))))
                  (\<lambda>e. ''failed to marshal backup list'') s)))"

definition GetAllFullBackups :: "handler_env \<Rightarrow> string \<Rightarrow> string \<Rightarrow> Service \<Rightarrow> handled" where
  "GetAllFullBackups env from to s = readAllBackups env True from to s"

definition GetFullBackupsForRoutine :: "handler_env \<Rightarrow> string \<Rightarrow> string \<Rightarrow> string \<Rightarrow> Service \<Rightarrow> handled" where
  "GetFullBackupsForRoutine env from to name s = readBackupsForRoutine env True from to name s"

definition GetAllIncrementalBackups :: "handler_env \<Rightarrow> string \<Rightarrow> string \<Rightarrow> Service \<Rightarrow> handled" where
  "GetAllIncrementalBackups env from to s = readAllBackups env False from to s"

definition GetIncrementalBackupsForRoutine :: "handler_env \<Rightarrow> string \<Rightarrow> string \<Rightarrow> string \<Rightarrow> Service \<Rightarrow> handled" where
  "GetIncrementalBackupsForRoutine env from to name s = readBackupsForRoutine env False from to name s"

section \<open>A full backup on demand\<close>

text \<open>\<open>time.Duration(delayMillis) * time.Millisecond\<close> wraps.\<close>

definition ScheduleFullBackup :: "handler_env \<Rightarrow> string \<Rightarrow> string \<Rightarrow> Service \<Rightarrow> handled" where
  "ScheduleFullBackup env routineName delayParameter s =
     named ''routine name required'' routineName s
      (case (if delayParameter \<noteq> [] then ParseInt delayParameter else Ok 0) of
         Panic p \<Rightarrow> (s, Panic p)
       | Err e \<Rightarrow> reply s (http_Error (hmNumText env e) StatusBadRequest new_writer)
       | Ok delayMillis \<Rightarrow>
           (if sint delayMillis < 0 then reply s (http_Error ''nonpositive delay query parameter'' StatusBadRequest new_writer)
            else case NewAdHocFullBackupJobForRoutine (hmSchedule env) routineName (hmNow env) (svScheduler s) of
                   None \<Rightarrow> reply s (http_Error (''unknown routine name '' @ routineName) StatusNotFound new_writer)
                 | Some d \<Rightarrow>
                     (case ScheduleJob (hmSchedule env) d (RunOnceTrigger (delayMillis * 1000000)) (svScheduler s) of
                        (sch, Panic p) \<Rightarrow> (s\<lparr>svScheduler := sch\<rparr>, Panic p)
                      | (sch, Err e) \<Rightarrow> reply (s\<lparr>svScheduler := sch\<rparr>) (http_Error e StatusInternalServerError new_writer)
                      | (sch, Ok u) \<Rightarrow> reply (s\<lparr>svScheduler := sch\<rparr>) (WriteHeader StatusAccepted new_writer))))"

section \<open>Running backups\<close>

definition GetCurrentBackupInfo :: "handler_env \<Rightarrow> string \<Rightarrow> Service \<Rightarrow> handled" where
  "GetCurrentBackupInfo env routineName s =
     named ''routine name required'' routineName s
      (case lookup (svHandlers s) routineName of
         None \<Rightarrow> reply s (http_Error (''unknown routine name '' @ routineName) StatusNotFound new_writer)
       | Some i \<Rightarrow>
           (case handler_at (Some i) (svScheduler s) of
              None \<Rightarrow> (s, Panic NilDereference)
            | Some h \<Rightarrow>
                converted s (GetCurrentStat (hmPick env) (hmCast env) (hmNow env) (hmBackupStats env) h)
                  (\<lambda>currentBackups. write_document env (CurrentDoc (NewCurrentBackupsFromModel (Some currentBackups)))
                     (\<lambda>e. ''failed to marshal statistics'') s)))"

end
