(* ===== verification/Server.thy ===== *)
theory Server
  imports BackupHandlers
begin

text \<open>
  \<open>internal/server\<close>, \<open>internal/util\<close> and \<open>cmd/backup\<close>: the white list and the rate limiter in front of
  the handlers, the routes, and the start of the service.
\<close>

section \<open>White list\<close>

text \<open>
  \<open>netip\<close> is a parameter: \<open>niAddr\<close> and \<open>niPrefix\<close> parse an address and a network, \<open>niContains\<close> is
  \<open>Prefix.Contains\<close>.
\<close>

record ('a, 'p) netip =
  niAddr :: "string \<Rightarrow> 'a option"
  niPrefix :: "string \<Rightarrow> 'p option"
  niContains :: "'p \<Rightarrow> 'a \<Rightarrow> bool"

record ('a, 'p) IPWhiteList =
  wlAddresses :: "(string, 'a) gomap"
  wlNetworks :: "'p list"
  wlAllowAny :: bool

fun whiteListLoop :: "('a, 'p) netip \<Rightarrow> string list \<Rightarrow> ('a, 'p) IPWhiteList \<Rightarrow> (string, ('a, 'p) IPWhiteList) outcome" where
  "whiteListLoop ni [] wl = Ok wl"
| "whiteListLoop ni (ip # ips) wl =
     (let wl = (if HasPrefix ip ''0.0.0.0'' then wl\<lparr>wlAllowAny := True\<rparr> else wl) in
      case niPrefix ni ip of
        Some network \<Rightarrow> whiteListLoop ni ips (wl\<lparr>wlNetworks := wlNetworks wl @ [network]\<rparr>)
      | None \<Rightarrow>
          (case niAddr ni ip of
             None \<Rightarrow> Panic (ExplicitPanic (''invalid ip configuration: '' @ ip))
           | Some a \<Rightarrow> whiteListLoop ni ips (wl\<lparr>wlAddresses := insert_key ip a (wlAddresses wl)\<rparr>)))"

definition NewIPWhiteList :: "('a, 'p) netip \<Rightarrow> string list \<Rightarrow> (string, ('a, 'p) IPWhiteList) outcome" where
  "NewIPWhiteList ni ipList = whiteListLoop ni ipList \<lparr>wlAddresses = [], wlNetworks = [], wlAllowAny = False\<rparr>"

definition IsAllowed :: "('a, 'p) netip \<Rightarrow> ('a, 'p) IPWhiteList \<Rightarrow> string \<Rightarrow> bool" where
  "IsAllowed ni wl ip =
     (if wlAllowAny wl then True
      else case niAddr ni ip of
             None \<Rightarrow> False
           | Some ipAddr \<Rightarrow>
               (if lookup (wlAddresses wl) ip \<noteq> None then True
                else list_ex (\<lambda>network. niContains ni network ipAddr) (wlNetworks wl)))"

section \<open>Rate limiter\<close>

text \<open>
  A limiter is an object of package \<open>rate\<close>, so a parameter: a new one of a rate and a size, and what
  \<open>Allow\<close> answers and leaves at a time.
\<close>

record 'l rate_lib =
  rlNew :: "goint \<Rightarrow> goint \<Rightarrow> 'l"
  rlAllow :: "time \<Rightarrow> 'l \<Rightarrow> bool \<times> 'l"

record 'l IPRateLimiter =
  ilLimiters :: "(string, 'l) gomap"
  ilTokensPerSecond :: goint
  ilTokenBucketSize :: goint

definition NewIPRateLimiter :: "goint \<Rightarrow> goint \<Rightarrow> 'l IPRateLimiter" where
  "NewIPRateLimiter tps sz = \<lparr>ilLimiters = [], ilTokensPerSecond = tps, ilTokenBucketSize = sz\<rparr>"

definition AddLimiter :: "'l rate_lib \<Rightarrow> string \<Rightarrow> 'l IPRateLimiter \<Rightarrow> 'l IPRateLimiter \<times> 'l" where
  "AddLimiter rl ipAddr l =
     (let limiter = rlNew rl (ilTokensPerSecond l) (ilTokenBucketSize l)
      in (l\<lparr>ilLimiters := insert_key ipAddr limiter (ilLimiters l)\<rparr>, limiter))"

definition GetLimiter :: "'l rate_lib \<Rightarrow> string \<Rightarrow> 'l IPRateLimiter \<Rightarrow> 'l IPRateLimiter \<times> 'l" where
  "GetLimiter rl ipAddr l =
     (case lookup (ilLimiters l) ipAddr of
        None \<Rightarrow> AddLimiter rl ipAddr l
      | Some limiter \<Rightarrow> (l, limiter))"

text \<open>The limiter of an address is shared: what \<open>Allow\<close> leaves of it stays in the map.\<close>

definition limiter_allows :: "'l rate_lib \<Rightarrow> time \<Rightarrow> string \<Rightarrow> 'l IPRateLimiter \<Rightarrow> 'l IPRateLimiter \<times> bool" where
  "limiter_allows rl now ip l =
     (case GetLimiter rl ip l of (l, limiter) \<Rightarrow>
      (case rlAllow rl now limiter of (ok, limiter') \<Rightarrow>
         (l\<lparr>ilLimiters := insert_key ip limiter' (ilLimiters l)\<rparr>, ok)))"

abbreviation "StatusTooManyRequests \<equiv> (429 :: nat)"
abbreviation "StatusMethodNotAllowed \<equiv> (405 :: nat)"

text \<open>\<open>ip\<close> is what \<open>net.SplitHostPort\<close> makes of the remote address.\<close>

definition RateLimiter ::
  "('a, 'p) netip \<Rightarrow> 'l rate_lib \<Rightarrow> ('a, 'p) IPWhiteList \<Rightarrow> time \<Rightarrow> string option \<Rightarrow> 'l IPRateLimiter \<Rightarrow>
   (Service \<Rightarrow> handled) \<Rightarrow> Service \<Rightarrow> 'l IPRateLimiter \<times> handled" where
  "RateLimiter ni rl whiteList now remote limiters handler s =
     (case remote of
        None \<Rightarrow> (limiters, reply s (http_Error ''Internal Server Error'' StatusInternalServerError new_writer))
      | Some ip \<Rightarrow>
          (if IsAllowed ni whiteList ip then (limiters, handler s)
           else case limiter_allows rl now ip limiters of
                  (limiters, ok) \<Rightarrow>
                    (if ok then (limiters, handler s)
                     else (limiters, reply s (http_Error ''Too Many Requests'' StatusTooManyRequests new_writer)))))"

section \<open>System\<close>

definition RootActionHandler :: "string \<Rightarrow> Service \<Rightarrow> handled" where
  "RootActionHandler path s = reply s (Write [] (if path \<noteq> ''/'' then WriteHeader StatusNotFound new_writer else new_writer))"

definition HealthActionHandler :: "Service \<Rightarrow> handled" where
  "HealthActionHandler s = reply s (Write ''Ok'' new_writer)"

definition ReadyActionHandler :: "Service \<Rightarrow> handled" where
  "ReadyActionHandler s = reply s (Write ''Ok'' new_writer)"

definition VersionActionHandler :: "string \<Rightarrow> Service \<Rightarrow> handled" where
  "VersionActionHandler version s = reply s (Write version new_writer)"

section \<open>Routes\<close>

text \<open>
  A request whose path matched a route, with the variables of the path, the query and what the
  decoder answers for the body. The metrics and the pages of the API documentation are other
  packages'.
\<close>

datatype request =
    RootRequest string
  | HealthRequest
  | ReadyRequest
  | VersionRequest string
  | ConfigRequest "DtoConfig decoders"
  | ApplyRequest
  | ClusterRequest string "DtoAerospikeCluster decoders"
  | ClustersRequest
  | StorageRequest string "DtoStorage decoders"
  | StoragesRequest
  | PolicyRequest string "DtoBackupPolicy decoders"
  | PoliciesRequest
  | RoutineRequest string "DtoBackupRoutine decoders"
  | RoutinesRequest
  | RestoreFullRequest "DtoRestoreRequest decoders"
  | RestoreIncrementalRequest "DtoRestoreRequest decoders"
  | RestoreTimeRequest "DtoRestoreTimestampRequest decoders"
  | RestoreStatusRequest string
  | RetrieveRequest string string
  | FullBackupsRequest string string string
  | AllFullBackupsRequest string string
  | IncrementalBackupsRequest string string string
  | AllIncrementalBackupsRequest string string
  | ScheduleRequest string string
  | CurrentBackupRequest string

text \<open>The methods of each route; the router answers another method itself.\<close>

fun route_methods :: "request \<Rightarrow> http_method list" where
  "route_methods (ConfigRequest body) = [MethodGet, MethodPut]"
| "route_methods ApplyRequest = [MethodPost]"
| "route_methods (ClusterRequest name body) = [MethodGet, MethodPut, MethodPost, MethodDelete]"
| "route_methods (StorageRequest name body) = [MethodGet, MethodPut, MethodPost, MethodDelete]"
| "route_methods (PolicyRequest name body) = [MethodGet, MethodPut, MethodPost, MethodDelete]"
| "route_methods (RoutineRequest name body) = [MethodGet, MethodPut, MethodPost, MethodDelete]"
| "route_methods (RestoreFullRequest body) = [MethodPost]"
| "route_methods (RestoreIncrementalRequest body) = [MethodPost]"
| "route_methods (RestoreTimeRequest body) = [MethodPost]"
| "route_methods (ScheduleRequest name delay) = [MethodPost]"
| "route_methods r = [MethodGet]"

fun route_handler :: "handler_env \<Rightarrow> http_method \<Rightarrow> request \<Rightarrow> Service \<Rightarrow> handled" where
  "route_handler env m (RootRequest path) s = RootActionHandler path s"
| "route_handler env m HealthRequest s = HealthActionHandler s"
| "route_handler env m ReadyRequest s = ReadyActionHandler s"
| "route_handler env m (VersionRequest version) s = VersionActionHandler version s"
| "route_handler env m (ConfigRequest body) s = ConfigActionHandler env m body s"
| "route_handler env m ApplyRequest s = ApplyConfig env s"
| "route_handler env m (ClusterRequest name body) s =
     ConfigClusterActionHandler env \<lparr>erMethod = m, erName = name, erBody = body\<rparr> s"
| "route_handler env m ClustersRequest s = ReadAerospikeClusters env s"
| "route_handler env m (StorageRequest name body) s =
     ConfigStorageActionHandler env \<lparr>erMethod = m, erName = name, erBody = body\<rparr> s"
| "route_handler env m StoragesRequest s = ReadAllStorage env s"
| "route_handler env m (PolicyRequest name body) s =
     ConfigPolicyActionHandler env \<lparr>erMethod = m, erName = name, erBody = body\<rparr> s"
| "route_handler env m PoliciesRequest s = ReadPolicies env s"
| "route_handler env m (RoutineRequest name body) s =
     ConfigRoutineActionHandler env \<lparr>erMethod = m, erName = name, erBody = body\<rparr> s"
| "route_handler env m RoutinesRequest s = ReadRoutines env s"
| "route_handler env m (RestoreFullRequest body) s = RestoreFullHandler env body s"
| "route_handler env m (RestoreIncrementalRequest body) s = RestoreIncrementalHandler env body s"
| "route_handler env m (RestoreTimeRequest body) s = RestoreByTimeHandler env body s"
| "route_handler env m (RestoreStatusRequest jobId) s = RestoreStatusHandler env jobId s"
| "route_handler env m (RetrieveRequest name timestamp) s = RetrieveConfig env name timestamp s"
| "route_handler env m (FullBackupsRequest name from to) s = GetFullBackupsForRoutine env from to name s"
| "route_handler env m (AllFullBackupsRequest from to) s = GetAllFullBackups env from to s"
| "route_handler env m (IncrementalBackupsRequest name from to) s = GetIncrementalBackupsForRoutine env from to name s"
| "route_handler env m (AllIncrementalBackupsRequest from to) s = GetAllIncrementalBackups env from to s"
| "route_handler env m (ScheduleRequest name delay) s = ScheduleFullBackup env name delay s"
| "route_handler env m (CurrentBackupRequest name) s = GetCurrentBackupInfo env name s"

definition serve :: "handler_env \<Rightarrow> http_method \<Rightarrow> request \<Rightarrow> Service \<Rightarrow> handled" where
  "serve env m r s =
     (if m \<in> set (route_methods r) then route_handler env m r s
      else reply s (WriteHeader StatusMethodNotAllowed new_writer))"

section \<open>Logging\<close>

datatype log_writer = FileWriter FileLoggerConfig | StdoutWriter | BothWriters FileLoggerConfig | IgnoreWriter

datatype log_level = LevelDebug | LevelInfo | LevelWarn | LevelError

datatype log_handler = TextHandler log_level log_writer | JSONHandler log_level log_writer

definition logWriter :: "LoggerConfig \<Rightarrow> log_writer" where
  "logWriter config =
     (case lcFileWriter config of
        Some f \<Rightarrow> if GetStdoutWriterOrDefault config then BothWriters f else FileWriter f
      | None \<Rightarrow> if GetStdoutWriterOrDefault config then StdoutWriter else IgnoreWriter)"

definition logLevel :: "string \<Rightarrow> ('e, log_level) outcome" where
  "logLevel level =
     (let l = ToUpper level in
      if l = ''TRACE'' then Ok LevelDebug
      else if l = ''DEBUG'' then Ok LevelDebug
      else if l = ''INFO'' then Ok LevelInfo
      else if l = ''WARN'' \<or> l = ''WARNING'' then Ok LevelWarn
      else if l = ''ERROR'' then Ok LevelError
      else Panic (ExplicitPanic (''invalid log level: '' @ level)))"

text \<open>The configuration is a pointer, which \<open>logWriter\<close> and the getters dereference.\<close>

definition LogHandler :: "LoggerConfig option \<Rightarrow> ('e, log_handler) outcome" where
  "LogHandler config =
     (case config of
        None \<Rightarrow> Panic NilDereference
      | Some c \<Rightarrow>
          (let writer = logWriter c; format = ToUpper (GetFormatOrDefault c) in
           if format = ''PLAIN'' then and_then (logLevel (GetLevelOrDefault c)) (\<lambda>l. Ok (TextHandler l writer))
           else if format = ''JSON'' then and_then (logLevel (GetLevelOrDefault c)) (\<lambda>l. Ok (JSONHandler l writer))
           else Panic (ExplicitPanic (''unsupported log format: '' @ GetFormatOrDefault c))))"

section \<open>The start of the service\<close>

text \<open>The service and the restore manager get the same configuration object.\<close>

definition NewService ::
  "conf \<Rightarrow> Manager \<Rightarrow> schedule_state \<Rightarrow> BackupHandlerHolder \<Rightarrow> Service" where
  "NewService config manager sch handlers =
     \<lparr>svConfigs = [snd config], svConfig = Some 0, svRestoreConfig = Some 0, svScheduler = sch,
      svRestore = \<lparr>rsJobs = [], rsClients = NewClientManager (fst config)\<rparr>, svHandlers = handlers,
      svManager = manager, svFile = None, svTasks = []\<rparr>"

text \<open>What the server is made of: its address, its timeout in nanoseconds, the white list, the limiter, the service.\<close>

record ('a, 'p, 'l) HTTPServer =
  htAddr :: string
  htTimeout :: int64
  htWhiteList :: "('a, 'p) IPWhiteList"
  htLimiter :: "'l IPRateLimiter"
  htService :: Service

definition NewHTTPServer ::
  "('a, 'p) netip \<Rightarrow> conf \<Rightarrow> schedule_state \<Rightarrow> BackupHandlerHolder \<Rightarrow> Manager \<Rightarrow> (string, ('a, 'p, 'l) HTTPServer) outcome" where
  "NewHTTPServer ni config sch handlers manager =
     (case scHTTPServer (cfServiceConfig (snd config)) of
        None \<Rightarrow> Panic NilDereference
      | Some serverConfig \<Rightarrow>
          (let rate = GetRateOrDefault serverConfig in
           and_then (NewIPWhiteList ni (GetWhiteListOrDefault rate)) (\<lambda>whitelist.
           Ok \<lparr>htAddr = GetAddressOrDefault serverConfig @ '':'' @ FormatInt (GetPortOrDefault serverConfig),
               htTimeout = GetTimeout serverConfig * 1000000,
               htWhiteList = whitelist,
               htLimiter = NewIPRateLimiter (GetTpsOrDefault rate) (GetSizeOrDefault rate),
               htService = NewService config manager sch handlers\<rparr>)))"

definition initialSchedule :: schedule_state where
  "initialSchedule = \<lparr>ssScheduled = [], ssStore = [], ssBackends = [], ssHeap = [], ssJobs = 0\<rparr>"

text \<open>From the flags of the command line to the running server: loading, logging, backends, handlers, jobs.\<close>

definition startService ::
  "handler_env \<Rightarrow> ('a, 'p) netip \<Rightarrow> string \<Rightarrow> bool \<Rightarrow> (string, ('a, 'p, 'l) HTTPServer) outcome" where
  "startService env ni configFile remote =
     and_then (with_text ''failed to load configuration: '' (Load (hmConfig env) configFile remote)) (\<lambda>(config, manager).
     and_then (LogHandler (scLogger (cfServiceConfig (snd config)))) (\<lambda>appLogger.
     and_then (BuildBackupBackends (hmSchedule env) config) (\<lambda>backends.
     case bind_step (MakeHandlers (hmSchedule env) config (SetData backends initialSchedule)) (\<lambda>handlers sch.
          bind_step (ScheduleBackup (hmSchedule env) config handlers sch) (\<lambda>_ sch. (sch, Ok handlers))) of
       (sch, Panic p) \<Rightarrow> Panic p
     | (sch, Err e) \<Rightarrow> Err e
     | (sch, Ok handlers) \<Rightarrow> NewHTTPServer ni config sch handlers manager)))"

text \<open>\<open>ToExitVal\<close> of what the root command returns; a missing flag is an error too.\<close>

definition ToExitVal :: "string option \<Rightarrow> goint" where
  "ToExitVal err = (if err \<noteq> None then 1 else 0)"

definition validateFlags :: "string \<Rightarrow> string option" where
  "validateFlags configFile = (if configFile = [] then Some ''--config is required'' else None)"

text \<open>A request whose method the route has passes the limiter before its handler; another is answered by the router.\<close>

definition serve_limited ::
  "('a, 'p) netip \<Rightarrow> 'l rate_lib \<Rightarrow> handler_env \<Rightarrow> string option \<Rightarrow> http_method \<Rightarrow> request \<Rightarrow> ('a, 'p, 'l) HTTPServer \<Rightarrow>
   ('a, 'p, 'l) HTTPServer \<times> (string, http_writer) outcome" where
  "serve_limited ni rl env remote m r h =
     (if m \<in> set (route_methods r)
      then case RateLimiter ni rl (htWhiteList h) (hmNow env) remote (htLimiter h) (route_handler env m r) (htService h) of
             (limiter, (s, w)) \<Rightarrow> (h\<lparr>htLimiter := limiter, htService := s\<rparr>, w)
      else (h, Ok (WriteHeader StatusMethodNotAllowed new_writer)))"

end
