(* ===== verification/ServiceProps.thy ===== *)
theory ServiceProps
  imports Server
begin

text \<open>
  What every request keeps: the configuration the service holds stays well formed, with the
  references of its routines in its tables. The locale \<open>config_change\<close> is the contract between the
  handlers and the operations of the configuration.
\<close>

section \<open>The contract of a change\<close>

definition conf_good :: "conf \<Rightarrow> bool" where
  "conf_good c \<longleftrightarrow> wf_conf c \<and> conf_sound c \<and> fresh (fst c)"

definition service_good :: "Service \<Rightarrow> bool" where
  "service_good s \<longleftrightarrow> (\<exists>c. current s = Some c \<and> conf_good c)"

lemma sound_store:
  assumes "stRoutines st = stRoutines (fst c)"
  shows "wf_conf (st, snd c) = wf_conf c" and "conf_sound (st, snd c) = conf_sound c"
proof -
  have d: "deref_routine st p = deref_routine (fst c) p" for p
    using assms by (auto simp: deref_routine_def split: option.split)
  then have at: "routine_at (st, snd c) n = routine_at c n" for n by (simp add: routine_at_def cong: option.case_cong)
  show "wf_conf (st, snd c) = wf_conf c" using d by (simp add: wf_conf_def routines_ok_def)
  show "conf_sound (st, snd c) = conf_sound c" using at by (simp add: conf_sound_def refs_sound_def uses_def)
qed

lemma conf_good_store:
  "conf_good c \<Longrightarrow> stRoutines st = stRoutines (fst c) \<Longrightarrow> fresh st \<Longrightarrow> conf_good (st, snd c)"
  by (simp add: conf_good_def sound_store)

lemma put_current_current:
  assumes "current s = Some c"
  shows "current (put_current c' s) = Some c'"
  using assms by (auto simp: current_def config_at_def put_current_def put_store_def split: option.splits if_splits)

lemma current_simps [simp]:
  "current (s\<lparr>svFile := f\<rparr>) = current s"
  "current (s\<lparr>svScheduler := sch\<rparr>) = current s"
  "current (s\<lparr>svScheduler := sch, svHandlers := hs\<rparr>) = current s"
  "current (s\<lparr>svTasks := ts\<rparr>) = current s"
  by (simp_all add: current_def config_at_def cong: option.case_cong if_cong)

lemma fst_reply [simp]: "fst (reply s w) = s"
  by (simp add: reply_def)

lemma write_and_reply_good: "service_good s \<Longrightarrow> service_good (fst (write_and_reply env code s))"
  by (auto simp: write_and_reply_def service_good_def Let_def split: option.split outcome.split)

text \<open>\<open>P\<close> is what an operation may rely on besides, for instance that the new routine's references exist.\<close>

locale config_change =
  fixes P :: "conf \<Rightarrow> bool" and f :: "conf \<Rightarrow> conf_result"
  assumes keeps: "conf_good c \<Longrightarrow> P c \<Longrightarrow> f c = Ok c' \<Longrightarrow> conf_good c'"
begin

lemma change_good:
  assumes "service_good s" and "\<And>c. current s = Some c \<Longrightarrow> P c"
  shows "service_good (fst (change env f failed code s))"
proof -
  obtain c where c: "current s = Some c" "conf_good c" using assms(1) by (auto simp: service_good_def)
  have "service_good (put_current c' s)" if "f c = Ok c'" for c'
    using put_current_current [OF c(1), of c'] keeps [OF c(2) assms(2) [OF c(1)] that] by (auto simp: service_good_def)
  then show ?thesis using assms(1) c write_and_reply_good
    by (auto simp: change_def split: outcome.split)
qed

end

section \<open>The operations keep it\<close>

lemma eachRoutine_fresh:
  "eachRoutine f rs st = Ok st' \<Longrightarrow> fresh st \<Longrightarrow> fresh st'"
proof (induction f rs st rule: eachRoutine.induct)
  case (2 f name p rs st)
  then obtain a r where a: "p = Some a" "stRoutines st a = Some r" by (auto split: option.splits)
  let ?st = "st\<lparr>stRoutines := (stRoutines st)(a \<mapsto> f r)\<rparr>"
  have "fresh ?st" using "2.prems"(2) a(2) by (auto simp: fresh_def)
  then show ?case using "2.IH" [OF a] "2.prems"(1) a by simp
qed simp

lemma new_objects:
  "stRoutines (fst (newStorageObject v st)) = stRoutines st" "fresh st \<Longrightarrow> fresh (fst (newStorageObject v st))"
  "stRoutines (fst (newPolicy p st)) = stRoutines st" "fresh st \<Longrightarrow> fresh (fst (newPolicy p st))"
  "stRoutines (fst (newCluster cl st)) = stRoutines st" "fresh st \<Longrightarrow> fresh (fst (newCluster cl st))"
  "stRoutines (fst (newAgent a st)) = stRoutines st" "fresh st \<Longrightarrow> fresh (fst (newAgent a st))"
  by (auto simp: newStorageObject_def newPolicy_def newCluster_def newAgent_def fresh_def split: option.split)

lemma exec_fresh:
  "exec AddStorage UpdateStorage DeleteStorage q c = Ok c' \<Longrightarrow> fresh (fst c) \<Longrightarrow> fresh (fst c')"
  "exec AddPolicy UpdatePolicy DeletePolicy q c = Ok c' \<Longrightarrow> fresh (fst c) \<Longrightarrow> fresh (fst c')"
  "exec AddCluster UpdateCluster DeleteCluster q c = Ok c' \<Longrightarrow> fresh (fst c) \<Longrightarrow> fresh (fst c')"
  by (cases q; force simp: AddStorage_def UpdateStorage_def DeleteStorage_def AddPolicy_def UpdatePolicy_def DeletePolicy_def
      AddCluster_def UpdateCluster_def DeleteCluster_def outcome_simps
      dest: eachRoutine_fresh split: if_splits option.splits)+

lemma exec_good:
  assumes "conf_good c"
  shows "exec AddStorage UpdateStorage DeleteStorage q c = Ok c' \<Longrightarrow> conf_good c'"
    and "exec AddPolicy UpdatePolicy DeletePolicy q c = Ok c' \<Longrightarrow> conf_good c'"
    and "exec AddCluster UpdateCluster DeleteCluster q c = Ok c' \<Longrightarrow> conf_good c'"
proof -
  have g: "wf_conf c" "conf_sound c" "fresh (fst c)" using assms by (simp_all add: conf_good_def)
  show "exec AddStorage UpdateStorage DeleteStorage q c = Ok c' \<Longrightarrow> conf_good c'"
    using request_sound(1) [OF g(1,2)] exec_fresh(1) g(3) unfolding conf_good_def by blast
  show "exec AddPolicy UpdatePolicy DeletePolicy q c = Ok c' \<Longrightarrow> conf_good c'"
    using request_sound(2) [OF g(1,2)] exec_fresh(2) g(3) unfolding conf_good_def by blast
  show "exec AddCluster UpdateCluster DeleteCluster q c = Ok c' \<Longrightarrow> conf_good c'"
    using request_sound(3) [OF g(1,2)] exec_fresh(3) g(3) unfolding conf_good_def by blast
qed

lemmas exec_good_cmds =
  exec_good(1) [of _ "AddCmd n v"] exec_good(1) [of _ "UpdateCmd n v"] exec_good(1) [of _ "DeleteCmd n"]
  exec_good(2) [of _ "AddCmd n v"] exec_good(2) [of _ "UpdateCmd n v"] exec_good(2) [of _ "DeleteCmd n"]
  exec_good(3) [of _ "AddCmd n v"] exec_good(3) [of _ "UpdateCmd n v"] exec_good(3) [of _ "DeleteCmd n"] for n v

lemma alloc_good:
  "conf_good c \<Longrightarrow> newStorageObject v (fst c) = (st, q) \<Longrightarrow> conf_good (st, snd c)"
  "conf_good c \<Longrightarrow> newPolicy p (fst c) = (st, q) \<Longrightarrow> conf_good (st, snd c)"
  "conf_good c \<Longrightarrow> newCluster cl (fst c) = (st, q) \<Longrightarrow> conf_good (st, snd c)"
  using conf_good_store [of c st] new_objects(1,2) [where v = v and st = "fst c"] new_objects(3,4) [where p = p and st = "fst c"]
    new_objects(5,6) [where cl = cl and st = "fst c"]
  by (auto simp: conf_good_def)

text \<open>An operation on a new object.\<close>

lemma object_change:
  assumes "\<And>c st p. conf_good c \<Longrightarrow> new (fst c) = (st, p) \<Longrightarrow> conf_good (st, snd c)"
    and "\<And>c c' p. conf_good c \<Longrightarrow> f p c = Ok c' \<Longrightarrow> conf_good c'"
  shows "config_change (\<lambda>c. True) (\<lambda>c. case new (fst c) of (st, p) \<Rightarrow> f p (st, snd c))"
proof
  fix c c' assume g: "conf_good c" and ok: "(case new (fst c) of (st, p) \<Rightarrow> f p (st, snd c)) = Ok c'"
  obtain st p where n: "new (fst c) = (st, p)" by (cases "new (fst c)")
  then show "conf_good c'" using assms(2) [OF assms(1) [OF g n]] ok by simp
qed

abbreviation with_storage :: "Storage option \<Rightarrow> (ptr \<Rightarrow> conf \<Rightarrow> conf_result) \<Rightarrow> conf \<Rightarrow> conf_result" where
  "with_storage v f \<equiv> \<lambda>c. case newStorageObject v (fst c) of (st, p) \<Rightarrow> f p (st, snd c)"

abbreviation with_policy :: "BackupPolicy \<Rightarrow> (ptr \<Rightarrow> conf \<Rightarrow> conf_result) \<Rightarrow> conf \<Rightarrow> conf_result" where
  "with_policy v f \<equiv> \<lambda>c. case newPolicy v (fst c) of (st, p) \<Rightarrow> f p (st, snd c)"

abbreviation with_cluster :: "AerospikeCluster \<Rightarrow> (ptr \<Rightarrow> conf \<Rightarrow> conf_result) \<Rightarrow> conf \<Rightarrow> conf_result" where
  "with_cluster v f \<equiv> \<lambda>c. case newCluster v (fst c) of (st, p) \<Rightarrow> f p (st, snd c)"

abbreviation with_routine_object :: "BackupRoutine \<Rightarrow> (ptr \<Rightarrow> conf \<Rightarrow> conf_result) \<Rightarrow> conf \<Rightarrow> conf_result" where
  "with_routine_object v f \<equiv> \<lambda>c. case newRoutine v (fst c) of (st, p) \<Rightarrow> f p (st, snd c)"

interpretation storage_added: config_change "\<lambda>c. True" "with_storage v (AddStorage name)" for v name
  by (rule object_change [OF alloc_good(1)]) (use exec_good_cmds(1) in auto)

interpretation storage_updated: config_change "\<lambda>c. True" "with_storage v (UpdateStorage name)" for v name
  by (rule object_change [OF alloc_good(1)]) (use exec_good_cmds(2) in auto)

interpretation storage_deleted: config_change "\<lambda>c. True" "DeleteStorage name" for name
  by unfold_locales (use exec_good_cmds(3) in auto)

interpretation policy_added: config_change "\<lambda>c. True" "with_policy v (AddPolicy name)" for v name
  by (rule object_change [OF alloc_good(2)]) (use exec_good_cmds(4) in auto)

interpretation policy_updated: config_change "\<lambda>c. True" "with_policy v (UpdatePolicy name)" for v name
  by (rule object_change [OF alloc_good(2)]) (use exec_good_cmds(5) in auto)

interpretation policy_deleted: config_change "\<lambda>c. True" "DeletePolicy name" for name
  by unfold_locales (use exec_good_cmds(6) in auto)

interpretation cluster_added: config_change "\<lambda>c. True" "with_cluster v (AddCluster name)" for v name
  by (rule object_change [OF alloc_good(3)]) (use exec_good_cmds(7) in auto)

interpretation cluster_updated: config_change "\<lambda>c. True" "with_cluster v (UpdateCluster name)" for v name
  by (rule object_change [OF alloc_good(3)]) (use exec_good_cmds(8) in auto)

interpretation cluster_deleted: config_change "\<lambda>c. True" "DeleteCluster name" for name
  by unfold_locales (use exec_good_cmds(9) in auto)

text \<open>A new routine must have a name and refer into the tables.\<close>

lemma put_good:
  assumes "conf_good c" and "refers_into c r" and "n \<noteq> []"
    and "newRoutine r (fst c) = (st, p)"
    and "c' = (st, (snd c)\<lparr>cfBackupRoutines := insert_key n p (cfBackupRoutines (snd c))\<rparr>)"
  shows "conf_good c'"
proof -
  let ?a = "stNext (fst c)"
  let ?w = "with_routine ?a r c"
  have a: "stRoutines (fst c) ?a = None" using assms(1) by (auto simp: conf_good_def fresh_def)
  have s: "wf_conf (fst ?w, snd c') \<and> conf_sound (fst ?w, snd c')"
    using assms put_sound [of c r ?a n "(fst ?w, snd c')"] a by (auto simp: conf_good_def newRoutine_def)
  have eq: "stRoutines (fst ?w) = stRoutines (fst c')" using assms(4,5) by (auto simp: newRoutine_def with_routine_def)
  have "fresh (fst c')" using assms(1,4,5) by (auto simp: newRoutine_def conf_good_def fresh_def)
  then show ?thesis using s sound_store [OF eq] by (simp add: conf_good_def)
qed

interpretation routine_added: config_change "\<lambda>c. refers_into c r \<and> n \<noteq> []" "with_routine_object r (AddRoutine n)" for r n
proof
  fix c c'
  assume g: "conf_good c" and p: "refers_into c r \<and> n \<noteq> []" and ok: "with_routine_object r (AddRoutine n) c = Ok c'"
  obtain st p where n: "newRoutine r (fst c) = (st, p)" by (cases "newRoutine r (fst c)")
  from ok n have "c' = (st, (snd c)\<lparr>cfBackupRoutines := insert_key n p (cfBackupRoutines (snd c))\<rparr>)"
    by (auto simp: AddRoutine_def split: if_splits)
  then show "conf_good c'" using put_good [OF g _ _ n] p by simp
qed

interpretation routine_updated: config_change "\<lambda>c. refers_into c r \<and> n \<noteq> []" "with_routine_object r (UpdateRoutine n)" for r n
proof
  fix c c'
  assume g: "conf_good c" and p: "refers_into c r \<and> n \<noteq> []" and ok: "with_routine_object r (UpdateRoutine n) c = Ok c'"
  obtain st p where n: "newRoutine r (fst c) = (st, p)" by (cases "newRoutine r (fst c)")
  from ok n have "c' = (st, (snd c)\<lparr>cfBackupRoutines := insert_key n p (cfBackupRoutines (snd c))\<rparr>)"
    by (auto simp: UpdateRoutine_def split: if_splits)
  then show "conf_good c'" using put_good [OF g _ _ n] p by simp
qed

interpretation routine_deleted: config_change "\<lambda>c. True" "DeleteRoutine n" for n
proof
  fix c c'
  assume g: "conf_good c" and ok: "DeleteRoutine n c = Ok c'"
  then have "fst c' = fst c" by (auto simp: DeleteRoutine_def split: if_splits)
  then show "conf_good c'" using g config_step_sound [OF routine_deleted [OF ok]] by (simp add: conf_good_def)
qed

section \<open>The whole configuration\<close>

text \<open>
  Whether a document converts does not depend on the objects there are: conversions in two stores
  agree on which names are taken, and on the clusters behind the names.
\<close>

definition same_names :: "conf \<Rightarrow> conf \<Rightarrow> bool" where
  "same_names c d \<longleftrightarrow>
     (\<forall>n. (lookup (cfBackupPolicies (snd c)) n = None) = (lookup (cfBackupPolicies (snd d)) n = None) \<and>
       (lookup (cfStorage (snd c)) n = None) = (lookup (cfStorage (snd d)) n = None) \<and>
       (lookup (cfSecretAgents (snd c)) n = None) = (lookup (cfSecretAgents (snd d)) n = None) \<and>
       (lookup (cfBackupRoutines (snd c)) n = None) = (lookup (cfBackupRoutines (snd d)) n = None) \<and>
       map_option (deref stClusters (fst c)) (lookup (cfAerospikeClusters (snd c)) n) =
         map_option (deref stClusters (fst d)) (lookup (cfAerospikeClusters (snd d)) n) \<and>
       (\<forall>p. lookup (cfAerospikeClusters (snd c)) n = Some p \<longrightarrow> valid (fst c) p) \<and>
       (\<forall>p. lookup (cfAerospikeClusters (snd d)) n = Some p \<longrightarrow> valid (fst d) p)) \<and>
     fresh (fst d)"

definition simulated :: "(string \<Rightarrow> 'v \<Rightarrow> conf \<Rightarrow> conf checked) \<Rightarrow> bool" where
  "simulated body \<longleftrightarrow>
     (\<forall>k v c c' d. same_names c c' \<longrightarrow> body k v c = Ok d \<longrightarrow> (\<exists>d'. body k v c' = Ok d' \<and> same_names d d'))"

lemma eachEntry_sim:
  assumes "simulated body"
  shows "same_names c c' \<Longrightarrow> eachEntry body doc c = Ok d \<Longrightarrow> \<exists>d'. eachEntry body doc c' = Ok d' \<and> same_names d d'"
proof (induction doc arbitrary: c c')
  case (Cons kv doc)
  obtain k v where kv: "kv = (k, v)" by (cases kv)
  with Cons.prems obtain m where m: "body k v c = Ok m" "eachEntry body doc m = Ok d" by (auto simp: outcome_simps)
  obtain m' where "body k v c' = Ok m'" "same_names m m'"
    using assms Cons.prems(1) m(1) unfolding simulated_def by blast
  then show ?case using Cons.IH [of m m'] m(2) kv by simp
qed simp

lemma deref_Some_new [simp]: "deref h st (Some a) = h st a"
  by (simp add: deref_def)

lemma cluster_names: "simulated addClusterEntry"
  unfolding simulated_def
proof (intro allI impI)
  fix k v c c' d
  assume assms: "same_names c c'" "addClusterEntry k v c = Ok d"
  obtain a where v: "v = Some a" using assms(2) by (cases v) (auto simp: addClusterEntry_def)
  have k: "lookup (cfAerospikeClusters (snd c)) k = None" and
    d: "d = ((fst c)\<lparr>stClusters := (stClusters (fst c))(stNext (fst c) \<mapsto> clusterToModel a), stNext := stNext (fst c) + 1\<rparr>,
      (snd c)\<lparr>cfAerospikeClusters := insert_key k (Some (stNext (fst c))) (cfAerospikeClusters (snd c))\<rparr>)"
    using assms(2) v by (auto simp: addClusterEntry_def newCluster_def added_def AddCluster_def split: if_splits)
  let ?d' = "((fst c')\<lparr>stClusters := (stClusters (fst c'))(stNext (fst c') \<mapsto> clusterToModel a), stNext := stNext (fst c') + 1\<rparr>,
      (snd c')\<lparr>cfAerospikeClusters := insert_key k (Some (stNext (fst c'))) (cfAerospikeClusters (snd c'))\<rparr>)"
  have "lookup (cfAerospikeClusters (snd c')) k = None"
    using assms(1) k unfolding same_names_def by (metis option.map_disc_iff)
  then have "addClusterEntry k v c' = Ok ?d'" using v by (simp add: addClusterEntry_def newCluster_def added_def AddCluster_def)
  moreover have "same_names d ?d'"
    unfolding same_names_def
  proof (intro conjI allI)
    fix n
    have "map_option (deref stClusters (fst c)) (lookup (cfAerospikeClusters (snd c)) n) =
        map_option (deref stClusters (fst c')) (lookup (cfAerospikeClusters (snd c')) n)"
      "\<forall>p. lookup (cfAerospikeClusters (snd c)) n = Some p \<longrightarrow> valid (fst c) p"
      "\<forall>p. lookup (cfAerospikeClusters (snd c')) n = Some p \<longrightarrow> valid (fst c') p"
      using assms(1) by (auto simp: same_names_def)
    then show "map_option (deref stClusters (fst d)) (lookup (cfAerospikeClusters (snd d)) n) =
        map_option (deref stClusters (fst ?d')) (lookup (cfAerospikeClusters (snd ?d')) n)"
      unfolding d
      by (cases "n = k"; cases "lookup (cfAerospikeClusters (snd c)) n"; cases "lookup (cfAerospikeClusters (snd c')) n")
        (auto simp: deref_def valid_def split: option.splits)
  qed (use assms(1) in \<open>auto simp: same_names_def d valid_def fresh_def less_Suc_eq split: if_splits\<close>)
  ultimately show "\<exists>d'. addClusterEntry k v c' = Ok d' \<and> same_names d d'" by blast
qed

definition names_of :: "conf \<Rightarrow> string \<Rightarrow> bool \<times> bool \<times> bool \<times> bool" where
  "names_of c n =
     (lookup (cfBackupPolicies (snd c)) n = None, lookup (cfStorage (snd c)) n = None,
      lookup (cfSecretAgents (snd c)) n = None, lookup (cfBackupRoutines (snd c)) n = None)"

definition keeps_clusters :: "conf \<Rightarrow> conf \<Rightarrow> bool" where
  "keeps_clusters c d \<longleftrightarrow>
     stClusters (fst d) = stClusters (fst c) \<and> stNext (fst c) \<le> stNext (fst d) \<and>
     cfAerospikeClusters (snd d) = cfAerospikeClusters (snd c)"

lemma same_names_step:
  assumes "same_names c c'" and "keeps_clusters c d" and "keeps_clusters c' d'"
    and "names_of d = names_of d'" and "fresh (fst d')"
  shows "same_names d d'"
proof -
  have "deref stClusters (fst d) = deref stClusters (fst c)" "deref stClusters (fst d') = deref stClusters (fst c')"
    using assms(2,3) by (auto simp: deref_def keeps_clusters_def fun_eq_iff split: option.split)
  moreover have "valid (fst c) p \<Longrightarrow> valid (fst d) p" "valid (fst c') p \<Longrightarrow> valid (fst d') p" for p
    using assms(2,3) by (auto simp: valid_def keeps_clusters_def)
  moreover have "names_of d n = names_of d' n" for n using assms(4) by simp
  ultimately show ?thesis using assms(1,2,3,5) by (simp add: same_names_def keeps_clusters_def names_of_def)
qed

lemma same_names_of: "same_names c c' \<Longrightarrow> names_of c = names_of c'"
  by (auto simp: same_names_def names_of_def fun_eq_iff)

lemma storage_names: "simulated addStorageEntry"
  unfolding simulated_def
proof (intro allI impI)
  fix k v c c' d
  assume assms: "same_names c c'" "addStorageEntry k v c = Ok d"
  obtain x where v: "v = Some x" using assms(2) by (cases v) (auto simp: addStorageEntry_def)
  obtain st p st' p' where n: "newStorageObject (storageToModel x) (fst c) = (st, p)"
    "newStorageObject (storageToModel x) (fst c') = (st', p')" by (meson surj_pair)
  note nm = same_names_of [OF assms(1), unfolded fun_eq_iff names_of_def, simplified]
  have k: "lookup (cfStorage (snd c)) k = None" "d = (st, (snd c)\<lparr>cfStorage := insert_key k p (cfStorage (snd c))\<rparr>)"
    using assms(2) v n by (auto simp: addStorageEntry_def added_def AddStorage_def split: if_splits)
  let ?d' = "(st', (snd c')\<lparr>cfStorage := insert_key k p' (cfStorage (snd c'))\<rparr>)"
  have "addStorageEntry k v c' = Ok ?d'" using v n k nm by (simp add: addStorageEntry_def added_def AddStorage_def)
  moreover have "same_names d ?d'"
    by (rule same_names_step [OF assms(1)])
      (use n k nm assms(1) new_objects(2) [of "fst c'" "storageToModel x"] in
        \<open>auto simp: keeps_clusters_def newStorageObject_def names_of_def fun_eq_iff same_names_def split: option.splits\<close>)
  ultimately show "\<exists>d'. addStorageEntry k v c' = Ok d' \<and> same_names d d'" by blast
qed

lemma policy_names: "simulated addPolicyEntry"
  unfolding simulated_def
proof (intro allI impI)
  fix k v c c' d
  assume assms: "same_names c c'" "addPolicyEntry k v c = Ok d"
  obtain x where v: "v = Some x" using assms(2) by (cases v) (auto simp: addPolicyEntry_def)
  obtain st p st' p' where n: "newPolicy (backupPolicyToModel x) (fst c) = (st, p)"
    "newPolicy (backupPolicyToModel x) (fst c') = (st', p')" by (meson surj_pair)
  note nm = same_names_of [OF assms(1), unfolded fun_eq_iff names_of_def, simplified]
  have k: "lookup (cfBackupPolicies (snd c)) k = None"
    "d = (st, (snd c)\<lparr>cfBackupPolicies := insert_key k p (cfBackupPolicies (snd c))\<rparr>)"
    using assms(2) v n by (auto simp: addPolicyEntry_def added_def AddPolicy_def split: if_splits)
  let ?d' = "(st', (snd c')\<lparr>cfBackupPolicies := insert_key k p' (cfBackupPolicies (snd c'))\<rparr>)"
  have "addPolicyEntry k v c' = Ok ?d'" using v n k nm by (simp add: addPolicyEntry_def added_def AddPolicy_def)
  moreover have "same_names d ?d'"
    by (rule same_names_step [OF assms(1)])
      (use n k nm assms(1) new_objects(4) [of "fst c'" "backupPolicyToModel x"] in
        \<open>auto simp: keeps_clusters_def newPolicy_def names_of_def fun_eq_iff same_names_def split: option.splits\<close>)
  ultimately show "\<exists>d'. addPolicyEntry k v c' = Ok d' \<and> same_names d d'" by blast
qed

lemma agent_names: "simulated addAgentEntry"
  unfolding simulated_def
proof (intro allI impI)
  fix k v c c' d
  assume assms: "same_names c c'" "addAgentEntry k v c = Ok d"
  obtain st p st' p' where n: "newAgent (secretAgentToModel v) (fst c) = (st, p)"
    "newAgent (secretAgentToModel v) (fst c') = (st', p')" by (meson surj_pair)
  note nm = same_names_of [OF assms(1), unfolded fun_eq_iff names_of_def, simplified]
  have k: "lookup (cfSecretAgents (snd c)) k = None"
    "d = (st, (snd c)\<lparr>cfSecretAgents := insert_key k p (cfSecretAgents (snd c))\<rparr>)"
    using assms(2) n by (auto simp: addAgentEntry_def added_def AddSecretAgent_def split: if_splits)
  let ?d' = "(st', (snd c')\<lparr>cfSecretAgents := insert_key k p' (cfSecretAgents (snd c'))\<rparr>)"
  have "addAgentEntry k v c' = Ok ?d'" using n k nm by (simp add: addAgentEntry_def added_def AddSecretAgent_def)
  moreover have "same_names d ?d'"
    by (rule same_names_step [OF assms(1)])
      (use n k nm assms(1) new_objects(8) [of "fst c'" "secretAgentToModel v"] in
        \<open>auto simp: keeps_clusters_def newAgent_def names_of_def fun_eq_iff same_names_def split: option.splits\<close>)
  ultimately show "\<exists>d'. addAgentEntry k v c' = Ok d' \<and> same_names d d'" by blast
qed

lemma routineToModel_names:
  assumes "same_names c c'" and "routineToModel r c = Ok m"
  shows "\<exists>m'. routineToModel r c' = Ok m'"
proof -
  obtain policy cluster clusterObject storage where l: "lookup (cfBackupPolicies (snd c)) (dbrBackupPolicy r) = Some policy"
    "lookup (cfAerospikeClusters (snd c)) (dbrSourceCluster r) = Some cluster"
    "deref stClusters (fst c) cluster = Some clusterObject"
    "\<not> (case acMaxParallelScans clusterObject of None \<Rightarrow> False | Some scans \<Rightarrow> sint scans < int (length (dbrSetList r)))"
    "lookup (cfStorage (snd c)) (dbrStorage r) = Some storage"
    "case dbrSecretAgent r of None \<Rightarrow> True | Some name \<Rightarrow> lookup (cfSecretAgents (snd c)) name \<noteq> None"
    using assms(2) by (auto simp: routineToModel_def deref_def outcome_simps split: option.splits if_splits)
  have "map_option (deref stClusters (fst c)) (lookup (cfAerospikeClusters (snd c)) n) =
      map_option (deref stClusters (fst c')) (lookup (cfAerospikeClusters (snd c')) n)" for n
    using assms(1) by (simp add: same_names_def)
  from this [of "dbrSourceCluster r"] l(2,3) obtain cluster' where
    c: "lookup (cfAerospikeClusters (snd c')) (dbrSourceCluster r) = Some cluster'"
    "(case cluster' of None \<Rightarrow> None | Some a \<Rightarrow> stClusters (fst c') a) = Some clusterObject"
    by (cases "lookup (cfAerospikeClusters (snd c')) (dbrSourceCluster r)") (auto simp: deref_def split: option.splits)
  note nm = same_names_of [OF assms(1), unfolded fun_eq_iff names_of_def, simplified]
  obtain policy' storage' where "lookup (cfBackupPolicies (snd c')) (dbrBackupPolicy r) = Some policy'"
    "lookup (cfStorage (snd c')) (dbrStorage r) = Some storage'"
    "case dbrSecretAgent r of None \<Rightarrow> True | Some name \<Rightarrow> lookup (cfSecretAgents (snd c')) name \<noteq> None"
    using nm [rule_format, of "dbrBackupPolicy r"] nm [rule_format, of "dbrStorage r"] nm l(1,5,6)
    by (cases "dbrSecretAgent r") auto
  then show ?thesis using c l(4) by (auto simp: routineToModel_def split: option.splits)
qed

lemma routine_names: "simulated addRoutineEntry"
  unfolding simulated_def
proof (intro allI impI)
  fix k v c c' d
  assume assms: "same_names c c'" "addRoutineEntry k v c = Ok d"
  obtain x m where v: "v = Some x" and m: "routineToModel x c = Ok m"
    using assms(2) by (cases v) (auto simp: addRoutineEntry_def outcome_simps)
  obtain m' where m': "routineToModel x c' = Ok m'" using routineToModel_names [OF assms(1) m] by blast
  obtain st p st' p' where n: "newRoutine m (fst c) = (st, p)" "newRoutine m' (fst c') = (st', p')" by (meson surj_pair)
  note nm = same_names_of [OF assms(1), unfolded fun_eq_iff names_of_def, simplified]
  have k: "lookup (cfBackupRoutines (snd c)) k = None"
    "d = (st, (snd c)\<lparr>cfBackupRoutines := insert_key k p (cfBackupRoutines (snd c))\<rparr>)"
    using assms(2) v n m by (auto simp: addRoutineEntry_def added_def AddRoutine_def outcome_simps split: if_splits)
  let ?d' = "(st', (snd c')\<lparr>cfBackupRoutines := insert_key k p' (cfBackupRoutines (snd c'))\<rparr>)"
  have "addRoutineEntry k v c' = Ok ?d'" using v n k nm m' by (simp add: addRoutineEntry_def added_def AddRoutine_def)
  moreover have "same_names d ?d'"
    by (rule same_names_step [OF assms(1)])
      (use n k nm assms(1) in
        \<open>auto simp: keeps_clusters_def newRoutine_def names_of_def fun_eq_iff same_names_def fresh_def split: option.splits\<close>)
  ultimately show "\<exists>d'. addRoutineEntry k v c' = Ok d' \<and> same_names d d'" by blast
qed

text \<open>A document that converts in the empty store converts in every store, which stays sound.\<close>

lemma configToModel_anywhere:
  assumes "configToModel d emptyStore = Ok c0" and "fresh st"
  obtains c where "configToModel d st = Ok c" and "fresh (fst c)"
proof -
  let ?cfg = "NewConfig\<lparr>cfServiceConfig := serviceToModel (dcfServiceConfig d)\<rparr>"
  have r: "same_names (emptyStore, ?cfg) (st, ?cfg)" using assms(2) by (simp add: same_names_def NewConfig_def)
  obtain m1 m2 m3 m4 where
    e: "eachEntry addClusterEntry (dcfAerospikeClusters d) (emptyStore, ?cfg) = Ok m1"
      "eachEntry addStorageEntry (dcfStorage d) m1 = Ok m2" "eachEntry addPolicyEntry (dcfBackupPolicies d) m2 = Ok m3"
      "eachEntry addAgentEntry (dcfSecretAgents d) m3 = Ok m4" "eachEntry addRoutineEntry (dcfBackupRoutines d) m4 = Ok c0"
    using assms(1) by (auto simp: configToModel_def outcome_simps)
  obtain n1 where n1: "eachEntry addClusterEntry (dcfAerospikeClusters d) (st, ?cfg) = Ok n1" "same_names m1 n1"
    using eachEntry_sim [OF cluster_names r e(1)] by blast
  obtain n2 where n2: "eachEntry addStorageEntry (dcfStorage d) n1 = Ok n2" "same_names m2 n2"
    using eachEntry_sim [OF storage_names n1(2) e(2)] by blast
  obtain n3 where n3: "eachEntry addPolicyEntry (dcfBackupPolicies d) n2 = Ok n3" "same_names m3 n3"
    using eachEntry_sim [OF policy_names n2(2) e(3)] by blast
  obtain n4 where n4: "eachEntry addAgentEntry (dcfSecretAgents d) n3 = Ok n4" "same_names m4 n4"
    using eachEntry_sim [OF agent_names n3(2) e(4)] by blast
  obtain c where c: "eachEntry addRoutineEntry (dcfBackupRoutines d) n4 = Ok c" "same_names c0 c"
    using eachEntry_sim [OF routine_names n4(2) e(5)] by blast
  show thesis
    by (rule that [of c]) (use n1 n2 n3 n4 c in \<open>simp_all add: configToModel_def same_names_def\<close>)
qed

lemma validated_good:
  assumes "validateConfig cron d = Ok d'" and "fresh st"
  obtains c where "configToModel d' st = Ok c" and "conf_good c"
proof -
  obtain c0 where "configToModel d' emptyStore = Ok c0" using validateConfig_Ok(2) [OF assms(1)] by blast
  then obtain c where c: "configToModel d' st = Ok c" "fresh (fst c)" using configToModel_anywhere assms(2) by blast
  show thesis
    by (rule that [OF c(1)])
      (use loaded_sound [OF c(1) validateConfig_Ok(1) [OF assms(1)] assms(2)] c(2) in \<open>simp add: conf_good_def\<close>)
qed

end
