(* ===== verification/ServiceRuns.thy ===== *)
theory ServiceRuns
  imports ServiceProps
begin

text \<open>
  The steps of the service, and what a request keeps of it, whatever backups and restores are on; the
  state at the start of the program. A restore and a backup, as a whole, borrow a client and give it back.
\<close>

section \<open>Borrowing a client\<close>

definition borrows :: "ClientManagerImpl \<Rightarrow> ClientManagerImpl \<Rightarrow> bool" where
  "borrows cm cm' \<longleftrightarrow> cm' = cm \<or>
     (\<exists>lib p cm1 r. GetClient lib cm p = (cm1, r) \<and> (case r of Ok c \<Rightarrow> cm' = Close cm1 c | _ \<Rightarrow> cm' = cm1))"

lemma borrows_refl [simp]: "borrows cm cm"
  by (simp add: borrows_def)

lemma borrows_ok: "GetClient lib cm p = (cm1, Ok c) \<Longrightarrow> borrows cm (Close cm1 c)"
  unfolding borrows_def by force

lemma borrows_failed: "GetClient lib cm p = (cm1, r) \<Longrightarrow> \<not> is_ok r \<Longrightarrow> borrows cm cm1"
  unfolding borrows_def by (cases r) force+

definition same_routines :: "store \<Rightarrow> store \<Rightarrow> bool" where
  "same_routines st st' \<longleftrightarrow> stRoutines st' = stRoutines st \<and> (fresh st \<longrightarrow> fresh st')"

lemma same_routines_refl [simp]: "same_routines st st"
  by (simp add: same_routines_def)

lemma createClient_store: "createClient lib cm p = (cm1, r) \<Longrightarrow> same_routines (cmStore cm) (cmStore cm1)"
  by (auto simp: createClient_def Let_def same_routines_def put_cluster_def fresh_def deref_def
      split: option.splits outcome.splits prod.splits)

lemma restore_borrows:
  "restoreSync env jobID n request s = Ok s2 \<Longrightarrow> borrows (rsClients s) (rsClients s2)"
  "restoreByTimeSync env config errText findIncremental trequest jobID fulls s = Ok (s1, tr) \<Longrightarrow> borrows (rsClients s) (rsClients s1)"
proof -
  show "restoreSync env jobID n request s = Ok s2 \<Longrightarrow> borrows (rsClients s) (rsClients s2)"
    unfolding restoreSync_def Let_def
    by (auto dest: borrows_ok borrows_failed split: prod.splits outcome.splits option.splits)
  show "borrows (rsClients s) (rsClients s1)"
    if "restoreByTimeSync env config errText findIncremental trequest jobID fulls s = Ok (s1, tr)"
    using that by (cases rule: sync_cases) (auto dest: borrows_ok borrows_failed)
qed

section \<open>Steps of the service\<close>

text \<open>
  In \<open>service_step\<close> requests, restores and backups each run to their end; ServiceThreads takes restores and
  backups apart. A backup runs on the handler with number \<open>i\<close> and the clients of the service; what it recorded of
  itself is the handler's.
\<close>

definition routine_state_of :: "nat \<Rightarrow> Service \<Rightarrow> routine_state" where
  "routine_state_of i s = \<lparr>hsHandler = ssHeap (svScheduler s) ! i, hsPool = rsClients (svRestore s), hsEvents = []\<rparr>"

definition run_backup :: "routine_run \<Rightarrow> nat \<Rightarrow> Service \<Rightarrow> Service" where
  "run_backup rr i s =
     (let r = run_step rr (routine_state_of i s)
      in s\<lparr>svScheduler := (svScheduler s)\<lparr>ssHeap := (ssHeap (svScheduler s))[i := hsHandler r]\<rparr>,
           svRestore := (svRestore s)\<lparr>rsClients := hsPool r\<rparr>\<rparr>)"

inductive service_step :: "Service \<Rightarrow> Service \<Rightarrow> bool" where
  request: "service_step s (fst (serve env m r s))"
| restore: "task \<in> set (svTasks s) \<Longrightarrow> run_task env task s = Ok s' \<Longrightarrow>
     service_step s (s'\<lparr>svTasks := remove1 task (svTasks s)\<rparr>)"
| backup: "i < length (ssHeap (svScheduler s)) \<Longrightarrow> service_step s (run_backup rr i s)"

definition handler_idle :: "BackupRoutineHandler \<Rightarrow> bool" where
  "handler_idle h \<longleftrightarrow> \<not> fullBackupInProgress (bhBackend h) \<and> bhFullHandlers h = [] \<and> bhIncrHandlers h = []"

text \<open>
  What a request keeps while backups and restores run: the clients \<open>ls\<close> in use stay in use, the
  handlers \<open>hp\<close> there were stay as they are, and those it adds are idle.
\<close>

definition heap_from :: "BackupRoutineHandler list \<Rightarrow> BackupRoutineHandler list \<Rightarrow> bool" where
  "heap_from hp heap \<longleftrightarrow> (\<exists>new. heap = hp @ new \<and> list_all handler_idle new)"

lemma heap_from_refl [simp]: "heap_from hp hp"
  by (simp add: heap_from_def)

lemma heap_from_Nil [simp]: "heap_from [] heap = list_all handler_idle heap"
  by (simp add: heap_from_def)

lemma heap_from_grows: "heap_from hp heap \<Longrightarrow> handler_idle h \<Longrightarrow> heap_from hp (heap @ [h])"
  by (auto simp: heap_from_def)

definition service_inv :: "nat list \<Rightarrow> BackupRoutineHandler list \<Rightarrow> Service \<Rightarrow> bool" where
  "service_inv ls hp s \<longleftrightarrow> service_good s \<and> config_at (svRestoreConfig s) s \<noteq> None \<and> pool_inv (rsClients (svRestore s)) ls \<and>
     heap_from hp (ssHeap (svScheduler s))"

section \<open>What a step keeps\<close>

lemma service_good_store:
  assumes "service_good s" and "current s' = map_option (\<lambda>c. (service_store s', snd c)) (current s)"
    and "same_routines (service_store s) (service_store s')"
  shows "service_good s'"
proof -
  obtain c where c: "current s = Some c" "conf_good c" using assms(1) by (auto simp: service_good_def)
  then have st: "fst c = service_store s" by (auto simp: current_def)
  have "conf_good (service_store s', snd c)"
    using conf_good_store [OF c(2)] assms(3) c(2) st by (simp add: same_routines_def conf_good_def)
  then show ?thesis using assms(2) c(1) by (simp add: service_good_def)
qed

section \<open>What a request keeps\<close>

text \<open>The handlers that only read, or only reply.\<close>

lemma read_simps [simp]:
  "fst (write_document env v failed s) = s"
  by (simp add: write_document_def split: outcome.split)

lemma decoded_keeps: "P s \<Longrightarrow> (\<And>x. r = Ok x \<Longrightarrow> P (fst (f x))) \<Longrightarrow> P (fst (decoded env r s f))"
  by (simp add: decoded_def split: outcome.split)

lemma named_keeps: "P s \<Longrightarrow> (name \<noteq> [] \<Longrightarrow> P (fst r)) \<Longrightarrow> P (fst (named msg name s r))"
  by (simp add: named_def)

lemma converted_keeps: "P s \<Longrightarrow> (\<And>x. P (fst (f x))) \<Longrightarrow> P (fst (converted s r f))"
  by (simp add: converted_def split: outcome.split)

text \<open>What the configuration requests do to the rest of the service.\<close>

definition same_rest :: "Service \<Rightarrow> Service \<Rightarrow> bool" where
  "same_rest s s' \<longleftrightarrow>
     rsClients (svRestore s') = (rsClients (svRestore s))\<lparr>cmStore := service_store s'\<rparr> \<and>
     svScheduler s' = svScheduler s \<and> svRestoreConfig s' = svRestoreConfig s \<and>
     length (svConfigs s) \<le> length (svConfigs s')"

lemma same_rest_refl [simp]: "same_rest s s"
  by (simp add: same_rest_def)

lemma pool_inv_store [simp]: "pool_inv (cm\<lparr>cmStore := st\<rparr>) ls = pool_inv cm ls"
  by (simp add: pool_inv_def clients_of_def)

lemma same_rest_inv:
  assumes "service_inv ls hp s" and "same_rest s s'" and "service_good s'"
  shows "service_inv ls hp s'"
proof -
  obtain st where "rsClients (svRestore s') = (rsClients (svRestore s))\<lparr>cmStore := st\<rparr>"
    using assms(2) unfolding same_rest_def by blast
  then have "pool_inv (rsClients (svRestore s')) ls" using assms(1) by (simp add: service_inv_def)
  moreover have "config_at (svRestoreConfig s') s' \<noteq> None"
    using assms(1,2) by (auto simp: same_rest_def service_inv_def config_at_def split: option.splits if_splits)
  ultimately show ?thesis using assms by (simp add: service_inv_def same_rest_def)
qed

lemma put_current_rest [simp]: "same_rest s (put_current c s)"
  by (simp add: same_rest_def put_current_def put_store_def split: option.split)

lemma written_rest [simp]: "same_rest s (s'\<lparr>svFile := f\<rparr>) = same_rest s s'"
  by (simp add: same_rest_def)

lemma write_and_reply_rest: "same_rest s s' \<Longrightarrow> same_rest s (fst (write_and_reply env code s'))"
  by (simp add: write_and_reply_def Let_def split: option.split outcome.split)

lemma change_rest: "same_rest s (fst (change env f failed code s))"
  by (simp add: change_def write_and_reply_rest split: option.split outcome.split)

context config_change
begin

lemma change_inv:
  assumes "service_inv ls hp s" and "\<And>c. current s = Some c \<Longrightarrow> P c"
  shows "service_inv ls hp (fst (change env f failed code s))"
  using same_rest_inv [OF assms(1) change_rest] change_good assms by (simp add: service_inv_def)

end

lemma storage_handler_inv:
  assumes "service_inv ls hp s"
  shows "service_inv ls hp (fst (ConfigStorageActionHandler env r s))"
proof -
  note k = decoded_keeps [of "service_inv ls hp"] named_keeps [of "service_inv ls hp"]
  have "service_inv ls hp (fst (addStorage env b n s))" for b n
    unfolding addStorage_def using assms by (intro k storage_added.change_inv) simp_all
  moreover have "service_inv ls hp (fst (updateStorage env b n s))" for b n
    unfolding updateStorage_def using assms by (intro k storage_updated.change_inv) simp_all
  moreover have "service_inv ls hp (fst (deleteStorage env n s))" for n
    unfolding deleteStorage_def using assms by (intro k storage_deleted.change_inv) simp_all
  moreover have "fst (readStorage env n s) = s" for n
    by (simp add: readStorage_def named_def split: option.split)
  ultimately show ?thesis using assms by (simp add: ConfigStorageActionHandler_def split: http_method.split)
qed

lemma policy_handler_inv:
  assumes "service_inv ls hp s"
  shows "service_inv ls hp (fst (ConfigPolicyActionHandler env r s))"
proof -
  note k = decoded_keeps [of "service_inv ls hp"] named_keeps [of "service_inv ls hp"]
  have "service_inv ls hp (fst (addPolicy env b n s))" for b n
    unfolding addPolicy_def using assms by (intro k policy_added.change_inv) simp_all
  moreover have "service_inv ls hp (fst (updatePolicy env b n s))" for b n
    unfolding updatePolicy_def using assms by (intro k policy_updated.change_inv) simp_all
  moreover have "service_inv ls hp (fst (deletePolicy env n s))" for n
    unfolding deletePolicy_def using assms by (intro k policy_deleted.change_inv) simp_all
  moreover have "fst (readPolicy env n s) = s" for n
    by (simp add: readPolicy_def named_def converted_def split: option.split outcome.split)
  ultimately show ?thesis using assms by (simp add: ConfigPolicyActionHandler_def split: http_method.split)
qed

text \<open>The update of a cluster changes the service as the other updates do; only its answer differs.\<close>

lemma updateAerospikeCluster_changes:
  "fst (updateAerospikeCluster env b n s) =
     fst (decoded env (NewClusterFromReader b JSON) s (\<lambda>updatedCluster. named clusterNameNotSpecifiedMsg n s
       (change env (with_cluster (clusterToModel updatedCluster) (UpdateCluster n)) StatusBadRequest StatusOK s)))"
proof -
  have "current s = Some c \<Longrightarrow> current (put_current c' s) = Some c'" for c c' by (rule put_current_current)
  moreover have "svManager (put_current c s) = svManager s" for c
    by (simp add: put_current_def put_store_def split: option.split)
  ultimately show ?thesis
    by (auto simp: updateAerospikeCluster_def decoded_def named_def change_def write_and_reply_def Let_def
        split: outcome.split option.split prod.split)
qed

lemma cluster_handler_inv:
  assumes "service_inv ls hp s"
  shows "service_inv ls hp (fst (ConfigClusterActionHandler env r s))"
proof -
  note k = decoded_keeps [of "service_inv ls hp"] named_keeps [of "service_inv ls hp"]
  have "service_inv ls hp (fst (addAerospikeCluster env b n s))" for b n
    unfolding addAerospikeCluster_def using assms by (intro k cluster_added.change_inv) simp_all
  moreover have "service_inv ls hp (fst (updateAerospikeCluster env b n s))" for b n
    unfolding updateAerospikeCluster_changes using assms by (intro k cluster_updated.change_inv) simp_all
  moreover have "service_inv ls hp (fst (deleteAerospikeCluster env n s))" for n
    unfolding deleteAerospikeCluster_def using assms by (intro k cluster_deleted.change_inv) simp_all
  moreover have "fst (readAerospikeCluster env n s) = s" for n
    by (simp add: readAerospikeCluster_def named_def converted_def split: option.split outcome.split)
  ultimately show ?thesis using assms by (simp add: ConfigClusterActionHandler_def split: http_method.split)
qed

lemma refers_into_ToModel: "routineToModel r c = Ok m \<Longrightarrow> refers_into c m"
  using routineToModel_Ok(1-3) unfolding refers_into_def by blast

lemma with_new_routine_inv:
  assumes "service_inv ls hp s" and "n \<noteq> []"
  shows "service_inv ls hp (fst (with_new_routine env r AddRoutine n code s))"
    and "service_inv ls hp (fst (with_new_routine env r UpdateRoutine n code s))"
  using assms unfolding with_new_routine_def
  by (auto split: option.split intro!: decoded_keeps [of "service_inv ls hp"] routine_added.change_inv routine_updated.change_inv
      dest: refers_into_ToModel)

lemma routine_handler_inv:
  assumes "service_inv ls hp s"
  shows "service_inv ls hp (fst (ConfigRoutineActionHandler env r s))"
proof -
  note k = decoded_keeps [of "service_inv ls hp"] named_keeps [of "service_inv ls hp"]
  have "service_inv ls hp (fst (addRoutine env b n s))" for b n
    unfolding addRoutine_def using assms by (intro k with_new_routine_inv) simp_all
  moreover have "service_inv ls hp (fst (updateRoutine env b n s))" for b n
    unfolding updateRoutine_def using assms by (intro k with_new_routine_inv) simp_all
  moreover have "service_inv ls hp (fst (deleteRoutine env n s))" for n
    unfolding deleteRoutine_def using assms by (intro k routine_deleted.change_inv) simp_all
  moreover have "fst (readRoutine env n s) = s" for n
    by (simp add: readRoutine_def named_def split: option.split)
  ultimately show ?thesis using assms by (simp add: ConfigRoutineActionHandler_def split: http_method.split)
qed

lemma config_handler_inv:
  assumes "service_inv ls hp s"
  shows "service_inv ls hp (fst (ConfigActionHandler env m body s))"
proof -
  have "service_inv ls hp (fst (updateConfig env body s))"
    unfolding updateConfig_def
  proof (rule decoded_keeps [of "service_inv ls hp", OF assms])
    fix d assume "NewConfigFromReader (clCron (hmConfig env)) body JSON = Ok d"
    then obtain raw where v: "validateConfig (clCron (hmConfig env)) raw = Ok d"
      by (auto simp: NewConfigFromReader_def outcome_simps)
    have "fresh (service_store s)" using assms by (auto simp: service_inv_def service_good_def conf_good_def current_def)
    then obtain c where c: "configToModel d (service_store s) = Ok c" "conf_good c" by (rule validated_good [OF v])
    let ?s = "(put_store (fst c) s)\<lparr>svConfigs := svConfigs s @ [snd c], svConfig := Some (length (svConfigs s))\<rparr>"
    have "current ?s = Some c" by (simp add: current_def config_at_def put_store_def)
    then have good: "service_good (fst (write_and_reply env StatusOK ?s))"
      using c(2) by (intro write_and_reply_good) (auto simp: service_good_def)
    have "same_rest s ?s" by (simp add: same_rest_def put_store_def)
    then show "service_inv ls hp (fst (case configToModel d (service_store s) of
         Panic p \<Rightarrow> (s, Panic p)
       | Err e \<Rightarrow> reply (s\<lparr>svConfig := None\<rparr>) (http_Error (dto_shown env e) StatusBadRequest new_writer)
       | Ok c \<Rightarrow> write_and_reply env StatusOK
             ((put_store (fst c) s)\<lparr>svConfigs := svConfigs s @ [snd c], svConfig := Some (length (svConfigs s))\<rparr>)))"
      using same_rest_inv [OF assms write_and_reply_rest good] c(1) by simp
  qed
  moreover have "fst (readConfig env s) = s"
    by (simp add: readConfig_def converted_def split: outcome.split)
  ultimately show ?thesis using assms by (simp add: ConfigActionHandler_def split: http_method.split)
qed

text \<open>Requests that touch neither the configuration nor the clients.\<close>

lemma scheduler_inv:
  "service_inv ls hp s \<Longrightarrow> heap_from hp (ssHeap sch) \<Longrightarrow> service_inv ls hp (s\<lparr>svScheduler := sch\<rparr>)"
  "service_inv ls hp s \<Longrightarrow> heap_from hp (ssHeap sch) \<Longrightarrow> service_inv ls hp (s\<lparr>svScheduler := sch, svHandlers := hs\<rparr>)"
  by (simp_all add: service_inv_def service_good_def config_at_def cong: option.case_cong if_cong)

definition backends_idle :: "schedule_state \<Rightarrow> bool" where
  "backends_idle sch \<longleftrightarrow> (\<forall>name b. Get name (ssBackends sch) = Some b \<longrightarrow> \<not> fullBackupInProgress b)"

lemma buildBackends_idle:
  "buildBackends st rs bs = Ok bs' \<Longrightarrow> \<forall>name b. lookup bs name = Some b \<longrightarrow> \<not> fullBackupInProgress b \<Longrightarrow>
   lookup bs' name = Some b \<Longrightarrow> \<not> fullBackupInProgress b"
proof (induction st rs bs rule: buildBackends.induct)
  case (2 st routineName routine rs bs)
  obtain r b' where r: "deref_routine st routine = Some r" "(newBackend st routineName r :: (string, BackupBackend) outcome) = Ok b'"
    "buildBackends st rs (insert_key routineName b' bs) = Ok bs'"
    using "2.prems"(1) by (auto simp: outcome_simps split: option.splits)
  have "\<not> fullBackupInProgress b'" using r(2) by (auto simp: newBackend_def outcome_simps split: option.splits)
  then show ?case using "2.IH" [OF r(1,2,3)] "2.prems" by (auto split: if_splits)
qed simp

lemma makeHandlersLoop_idle:
  "backends_idle s \<Longrightarrow> heap_from hp (ssHeap s) \<Longrightarrow>
   heap_from hp (ssHeap (fst (makeHandlersLoop env config rs hs s)))"
proof (induction env config rs hs s rule: makeHandlersLoop.induct)
  case (2 env config routineName routine rs hs s)
  obtain now1 now2 now3 where n: "seClock env routineName = (now1, now2, now3)" by (meson prod_cases3)
  show ?case
  proof (cases "newBackupRoutineHandler now1 now2 now3 (seCodec env) (seStorage env) config routineName
        (Get routineName (ssBackends s))")
    case (Ok h)
    then have "handler_idle h" using "2.prems"(1)
      by (auto simp: newBackupRoutineHandler_def handler_idle_def backends_idle_def outcome_simps split: option.splits)
    then show ?thesis using "2.IH" [OF n [symmetric] refl Ok] "2.prems" n Ok heap_from_grows by (simp add: backends_idle_def)
  qed (use "2.prems" n in simp_all)
qed simp

lemma bind_step_keeps: "P (fst r) \<Longrightarrow> (\<And>x t. P t \<Longrightarrow> P (fst (f x t))) \<Longrightarrow> P (fst (bind_step r f))"
  by (cases r; cases "snd r") auto

lemma schedule_heap:
  "ssHeap (fst (ScheduleJob env d t s)) = ssHeap s"
  "ssHeap (fst (scheduleFullBackup env h i n s)) = ssHeap s"
  "ssHeap (fst (scheduleIncrementalBackup env h i n s)) = ssHeap s"
  "ssHeap (fst (scheduleLoop env st hs rs s)) = ssHeap s"
proof -
  have j: "ssHeap (fst (ScheduleJob env d t s)) = ssHeap s" for d t s
    by (simp add: ScheduleJob_def split: option.split)
  then show "ssHeap (fst (ScheduleJob env d t s)) = ssHeap s" .
  have f: "ssHeap (fst (scheduleFullBackup env h i n s)) = ssHeap s" for h i n s
    unfolding scheduleFullBackup_def Let_def
    by (auto split: option.split intro!: bind_step_keeps [of "\<lambda>t. ssHeap t = ssHeap s"] simp: j put_job_def)
  then show "ssHeap (fst (scheduleFullBackup env h i n s)) = ssHeap s" .
  have g: "ssHeap (fst (scheduleIncrementalBackup env h i n s)) = ssHeap s" for h i n s
    unfolding scheduleIncrementalBackup_def Let_def
    by (auto split: option.split intro!: bind_step_keeps [of "\<lambda>t. ssHeap t = ssHeap s"] simp: j put_job_def)
  then show "ssHeap (fst (scheduleIncrementalBackup env h i n s)) = ssHeap s" .
  show "ssHeap (fst (scheduleLoop env st hs rs s)) = ssHeap s"
  proof (induction rs arbitrary: s)
    case (Cons np rs)
    obtain name p where "np = (name, p)" by (cases np)
    then show ?case
      by (auto simp: Let_def step_err_def f g Cons split: option.split
          intro!: bind_step_keeps [of "\<lambda>t. ssHeap t = ssHeap s"])
  qed simp
qed

lemma apply_idle:
  assumes "heap_from hp (ssHeap s)"
  shows "heap_from hp (ssHeap (fst (ApplyNewConfig env c s)))"
proof -
  have "heap_from hp (ssHeap (fst (bind_step (MakeHandlers env c (SetData backends (s\<lparr>ssScheduled := []\<rparr>)))
      (\<lambda>handlers s. bind_step (scheduleRoutines env c handlers s) (\<lambda>_ s. (s, Ok handlers))))))"
    if b: "BuildBackupBackends env c = Ok backends" for backends
  proof (rule bind_step_keeps [of "\<lambda>t. heap_from hp (ssHeap t)"])
    have "backends_idle (SetData backends (s\<lparr>ssScheduled := []\<rparr>))"
      using buildBackends_idle [OF b [unfolded BuildBackupBackends_def]] by (auto simp: backends_idle_def SetData_def Get_def)
    then show "heap_from hp (ssHeap (fst (MakeHandlers env c (SetData backends (s\<lparr>ssScheduled := []\<rparr>)))))"
      unfolding MakeHandlers_def using assms by (intro makeHandlersLoop_idle) (simp_all add: SetData_def)
  next
    fix handlers and t :: schedule_state assume "heap_from hp (ssHeap t)"
    then show "heap_from hp (ssHeap (fst (bind_step (scheduleRoutines env c handlers t) (\<lambda>_ s. (s, Ok handlers)))))"
      by (intro bind_step_keeps [of "\<lambda>t. heap_from hp (ssHeap t)"]) (simp_all add: scheduleRoutines_def schedule_heap)
  qed
  then show ?thesis using assms by (simp add: ApplyNewConfig_def Let_def split: option.split outcome.split)
qed

lemma ApplyConfig_inv:
  assumes "service_inv ls hp s"
  shows "service_inv ls hp (fst (ApplyConfig env s))"
proof -
  obtain c where c: "current s = Some c" using assms by (auto simp: service_inv_def service_good_def)
  obtain sch r where a: "ApplyNewConfig (hmSchedule env) c (svScheduler s) = (sch, r)" by fastforce
  have "heap_from hp (ssHeap (svScheduler s))" using assms by (simp add: service_inv_def)
  from apply_idle [OF this, of "hmSchedule env" c] have "heap_from hp (ssHeap sch)" by (simp add: a)
  then show ?thesis using scheduler_inv [OF assms] c a by (cases r) (simp_all add: ApplyConfig_def)
qed

lemma ScheduleFullBackup_inv:
  assumes "service_inv ls hp s"
  shows "service_inv ls hp (fst (ScheduleFullBackup env name delay s))"
proof -
  have "service_inv ls hp (s\<lparr>svScheduler := sch\<rparr>)" if "ScheduleJob e d t (svScheduler s) = (sch, r)" for e d t sch r
    using scheduler_inv(1) [OF assms, of sch] schedule_heap(1) [of e d t "svScheduler s"] assms that
    by (simp add: service_inv_def)
  then show ?thesis using assms
    by (auto simp: ScheduleFullBackup_def named_def split: outcome.split option.split prod.split)
qed

text \<open>Restore requests allocate objects of the request and make a job.\<close>

lemma accepted_inv:
  assumes "service_inv ls hp s" and "same_routines (service_store s) st"
    and "rsClients r = (rsClients (svRestore s))\<lparr>cmStore := st\<rparr>"
  shows "service_inv ls hp (fst (accepted jobID task (put_restore r (put_store st s))))"
proof -
  let ?s = "(put_restore r (put_store st s))\<lparr>svTasks := svTasks s @ [task]\<rparr>"
  have "current ?s = map_option (\<lambda>c. (service_store ?s, snd c)) (current s)"
    by (simp add: current_def config_at_def put_restore_def put_store_def option.map_comp comp_def cong: option.case_cong if_cong)
  moreover have "same_routines (service_store s) (service_store ?s)" using assms(2,3) by (simp add: put_restore_def)
  ultimately have good: "service_good ?s" using service_good_store assms(1) unfolding service_inv_def by blast
  have "same_rest s ?s" using assms(3) by (simp add: same_rest_def put_restore_def put_store_def)
  from same_rest_inv [OF assms(1) this good] show ?thesis
    by (simp add: accepted_def put_restore_def put_store_def)
qed

lemma put_store_inv:
  assumes "service_inv ls hp s" and "same_routines (service_store s) st"
  shows "service_inv ls hp (put_store st s)"
proof -
  have "current (put_store st s) = map_option (\<lambda>c. (st, snd c)) (current s)"
    by (simp add: current_def config_at_def put_store_def option.map_comp comp_def cong: option.case_cong if_cong)
  then have "service_good (put_store st s)"
    using service_good_store [of s "put_store st s"] assms by (simp add: service_inv_def put_store_def)
  then show ?thesis using same_rest_inv [OF assms(1)] by (simp add: same_rest_def put_store_def)
qed

lemma request_objects:
  "restoreRequestToModel r st = Ok (st', m) \<Longrightarrow> same_routines st st'"
  "restoreTimestampRequestToModel t st = Ok (st', n) \<Longrightarrow> same_routines st st'"
  by (auto simp: restoreRequestToModel_def restoreTimestampRequestToModel_def same_routines_def Let_def newCluster_def
      newStorageObject_def newAgent_def fresh_def split: option.splits)

lemma restore_clients_same:
  "Restore env jobID now m s = Ok (i, n, r) \<Longrightarrow> rsClients r = rsClients s"
  "RestoreByTime env backends jobID now t s = Ok (i, reader, fulls, r) \<Longrightarrow> rsClients r = rsClients s"
  by (auto simp: Restore_def RestoreByTime_def Let_def outcome_simps split: outcome.splits option.splits)

lemma restore_handlers_inv:
  assumes "service_inv ls hp s"
  shows "service_inv ls hp (fst (RestoreFullHandler env body s))" and "service_inv ls hp (fst (RestoreIncrementalHandler env body s))"
    and "service_inv ls hp (fst (RestoreByTimeHandler env tbody s))"
proof -
  have path: "service_inv ls hp (fst (case restoreRequestToModel q (service_store s) of
       Panic p \<Rightarrow> (s, Panic p)
     | Err e \<Rightarrow> reply s (http_Error (dto_shown env e) StatusBadRequest new_writer)
     | Ok (st, m) \<Rightarrow>
         (let s = put_store st s in
          case Restore (hmRestore env) (hmJobID env) (hmNow env) m (svRestore s) of
            Panic p \<Rightarrow> (s, Panic p)
          | Err e \<Rightarrow> reply s (http_Error e StatusBadRequest new_writer)
          | Ok (jobID, totalRecords, r) \<Rightarrow> accepted jobID (RestoreTask jobID totalRecords m) (put_restore r s))))" for q
  proof (cases "restoreRequestToModel q (service_store s)")
    case (Ok x)
    obtain st m where x: "x = (st, m)" by (cases x)
    have sr: "same_routines (service_store s) st" using request_objects(1) Ok x by blast
    have "rsClients r = (rsClients (svRestore s))\<lparr>cmStore := st\<rparr>"
      if "Restore (hmRestore env) (hmJobID env) (hmNow env) m (svRestore (put_store st s)) = Ok (i, n, r)" for i n r
      using restore_clients_same(1) [OF that] by (simp add: put_store_def)
    then show ?thesis using accepted_inv [OF assms sr] put_store_inv [OF assms sr] Ok x
      by (auto simp: Let_def split: outcome.split prod.split)
  qed (simp_all add: assms)
  note k = decoded_keeps [of "service_inv ls hp", OF assms]
  show "service_inv ls hp (fst (RestoreFullHandler env body s))"
    unfolding RestoreFullHandler_def by (intro k path)
  show "service_inv ls hp (fst (RestoreIncrementalHandler env body s))"
    unfolding RestoreIncrementalHandler_def by (intro k path)
  have time: "service_inv ls hp (fst (case restoreTimestampRequestToModel q (service_store s) of
       Panic p \<Rightarrow> (s, Panic p)
     | Err e \<Rightarrow> reply s (http_Error (dto_shown env e) StatusBadRequest new_writer)
     | Ok (st, m) \<Rightarrow>
         (let s = put_store st s in
          case RestoreByTime (hmRestore env) (ssBackends (svScheduler s)) (hmJobID env) (hmNow env) m (svRestore s) of
            Panic p \<Rightarrow> (s, Panic p)
          | Err e \<Rightarrow> reply s (http_Error e StatusBadRequest new_writer)
          | Ok (jobID, reader, fullBackups, r) \<Rightarrow>
              accepted jobID (TimestampTask jobID reader fullBackups m) (put_restore r s))))" for q
  proof (cases "restoreTimestampRequestToModel q (service_store s)")
    case (Ok x)
    obtain st m where x: "x = (st, m)" by (cases x)
    have sr: "same_routines (service_store s) st" using request_objects(2) Ok x by blast
    have "rsClients r = (rsClients (svRestore s))\<lparr>cmStore := st\<rparr>"
      if "RestoreByTime (hmRestore env) (ssBackends (svScheduler s)) (hmJobID env) (hmNow env) m (svRestore (put_store st s)) =
            Ok (i, reader, fulls, r)" for i reader fulls r
      using restore_clients_same(2) [OF that] by (simp add: put_store_def)
    moreover have "svScheduler (put_store st s) = svScheduler s" by (simp add: put_store_def)
    ultimately show ?thesis using accepted_inv [OF assms sr] put_store_inv [OF assms sr] Ok x
      by (auto simp: Let_def split: outcome.split prod.split)
  qed (simp_all add: assms)
  show "service_inv ls hp (fst (RestoreByTimeHandler env tbody s))"
    unfolding RestoreByTimeHandler_def by (intro k time)
qed

lemma reads_nothing:
  "fst (ReadAerospikeClusters env s) = s" "fst (ReadAllStorage env s) = s" "fst (ReadPolicies env s) = s"
  "fst (ReadRoutines env s) = s" "fst (RestoreStatusHandler env jobId s) = s" "fst (RetrieveConfig env name t s) = s"
  "fst (readBackupsForRoutine env full from to name s) = s" "fst (readAllBackups env full from to s) = s"
  "fst (GetCurrentBackupInfo env name s) = s"
  by (auto simp: ReadAerospikeClusters_def ReadAllStorage_def ReadPolicies_def ReadRoutines_def RestoreStatusHandler_def
      RetrieveConfig_def readBackupsForRoutine_def readAllBackups_def GetCurrentBackupInfo_def with_bounds_def named_def
      converted_def split: option.split outcome.split prod.split)

lemma serve_inv:
  assumes "service_inv ls hp s"
  shows "service_inv ls hp (fst (serve env m r s))"
proof -
  have "service_inv ls hp (fst (route_handler env m r s))"
    using assms config_handler_inv ApplyConfig_inv cluster_handler_inv storage_handler_inv policy_handler_inv
      routine_handler_inv restore_handlers_inv ScheduleFullBackup_inv
    by (cases r) (simp_all add: reads_nothing GetFullBackupsForRoutine_def GetAllFullBackups_def
        GetIncrementalBackupsForRoutine_def GetAllIncrementalBackups_def RootActionHandler_def HealthActionHandler_def
        ReadyActionHandler_def VersionActionHandler_def)
  then show ?thesis using assms by (simp add: serve_def)
qed

section \<open>The start\<close>

lemma Load_good:
  assumes "Load lib configFile remote = Ok (config, manager)"
  shows "conf_good config"
proof -
  obtain raw d where v: "validateConfig (clCron lib) raw = Ok d" and m: "configToModel d emptyStore = Ok config"
    using assms by (auto simp: Load_def with_text_def outcome_simps)
  from validated_good [OF v fresh_empty] m show ?thesis by auto
qed

lemma start_inv:
  assumes "startService env ni configFile remote = Ok h"
  shows "service_inv [] [] (htService h)"
proof -
  let ?jobs = "\<lambda>config backends. bind_step (MakeHandlers (hmSchedule env) config (SetData backends initialSchedule))
    (\<lambda>handlers sch. bind_step (ScheduleBackup (hmSchedule env) config handlers sch) (\<lambda>_ sch. (sch, Ok handlers)))"
  obtain config manager backends where
    l: "Load (hmConfig env) configFile remote = Ok (config, manager)" and
    b: "BuildBackupBackends (hmSchedule env) config = Ok backends" and
    rest: "(case ?jobs config backends of (sch, Panic p) \<Rightarrow> Panic p | (sch, Err e) \<Rightarrow> Err e
       | (sch, Ok handlers) \<Rightarrow> NewHTTPServer ni config sch handlers manager) = Ok h"
    using assms unfolding startService_def with_text_def by (auto simp: outcome_simps)
  obtain sch r where sch: "?jobs config backends = (sch, r)" by fastforce
  then obtain handlers where h: "NewHTTPServer ni config sch handlers manager = Ok h"
    using rest by (cases r) (simp_all split: prod.splits)
  have "list_all handler_idle (ssHeap (fst (bind_step (MakeHandlers (hmSchedule env) config (SetData backends initialSchedule))
      (\<lambda>handlers sch. bind_step (ScheduleBackup (hmSchedule env) config handlers sch) (\<lambda>_ sch. (sch, Ok handlers))))))"
  proof (rule bind_step_keeps [of "\<lambda>t. list_all handler_idle (ssHeap t)"])
    have "backends_idle (SetData backends initialSchedule)"
      using buildBackends_idle [OF b [unfolded BuildBackupBackends_def]] by (auto simp: backends_idle_def SetData_def Get_def)
    then show "list_all handler_idle (ssHeap (fst (MakeHandlers (hmSchedule env) config (SetData backends initialSchedule))))"
      unfolding MakeHandlers_def by (intro makeHandlersLoop_idle [of _ "[]", simplified]) (simp_all add: SetData_def initialSchedule_def)
  next
    fix handlers and t :: schedule_state assume "list_all handler_idle (ssHeap t)"
    then show "list_all handler_idle (ssHeap (fst (bind_step (ScheduleBackup (hmSchedule env) config handlers t) (\<lambda>_ s. (s, Ok handlers)))))"
      by (intro bind_step_keeps [of "\<lambda>t. list_all handler_idle (ssHeap t)"])
        (simp_all add: ScheduleBackup_def scheduleRoutines_def schedule_heap)
  qed
  then have idle: "list_all handler_idle (ssHeap sch)" by (simp add: sch)
  have s: "htService h = NewService config manager sch handlers"
    using h by (auto simp: NewHTTPServer_def Let_def outcome_simps split: option.splits)
  have "current (NewService config manager sch handlers) = Some config"
    by (simp add: current_def config_at_def NewService_def NewClientManager_def)
  then have "service_good (htService h)" using Load_good [OF l] by (simp add: service_good_def s)
  then show ?thesis using idle pool_inv_new by (simp add: service_inv_def s NewService_def config_at_def)
qed

section \<open>A concrete service\<close>

definition demo_config_lib :: config_lib where
  "demo_config_lib =
     \<lparr>clStorage = demo_lib, clCancelled = None, clNewRequest = (\<lambda>u. None), clHTTPGet = (\<lambda>u. Err ''refused''), clOpen = (\<lambda>p. Ok (Ok ''doc'')),
      clReadDisk = (\<lambda>p. Ok ''doc''), clWriteDisk = (\<lambda>p d. None), clLeft = (\<lambda>old d. Some []),
      clMarshalYAML = (\<lambda>d. Ok ''yaml''),
      clUnmarshalConfig = (\<lambda>b d. Ok d), clUnmarshalStorage = (\<lambda>b. Ok newStorage), clCron = (\<lambda>s. None),
      clShow = (\<lambda>e. ''error''), clQuote = (\<lambda>s. s), clShowStorage = (\<lambda>s. ''storage'')\<rparr>"

definition demo_handler_env :: handler_env where
  "demo_handler_env =
     \<lparr>hmConfig = demo_config_lib, hmSchedule = demo_schedule_env, hmRestore = demo_env, hmJSON = (\<lambda>v. Ok ''json''),
      hmJobID = 7, hmNow = timeUnixMilli 100, hmCast = (\<lambda>q. 0),
      hmRestoreStats = (\<lambda>h. \<lparr>lsReadRecords = 0, lsRecordsInserted = 0, lsSIndexes = 0, lsUDFs = 0, lsRecordsFresher = 0,
         lsRecordsSkipped = 0, lsRecordsExisted = 0, lsRecordsExpired = 0, lsTotalBytesRead = 0\<rparr>),
      hmBackupStats = (\<lambda>h. demo_stats), hmPick = (\<lambda>m. m), hmSort = (\<lambda>bs. bs), hmZip = (\<lambda>es. Ok ''zip''),
      hmNumText = (\<lambda>e. ''number''), hmBoundsText = (\<lambda>e. ''bounds'')\<rparr>"

definition demo_netip :: "(string, string) netip" where
  "demo_netip = \<lparr>niAddr = (\<lambda>s. Some s), niPrefix = (\<lambda>s. None), niContains = (\<lambda>p a. False)\<rparr>"

definition demo_config :: conf where
  "demo_config = (emptyStore, NewConfig\<lparr>cfServiceConfig := serviceToModel (dcfServiceConfig NewConfigWithDefaultValues)\<rparr>)"

lemma demo_loads: "configToModel NewConfigWithDefaultValues emptyStore = Ok demo_config"
  by (simp add: configToModel_def NewConfigWithDefaultValues_def demo_config_def)

lemma demo_default_valid: "validateConfig (\<lambda>s. None) NewConfigWithDefaultValues = Ok NewConfigWithDefaultValues"
proof -
  have "validateHTTPServer (dscHTTPServer (dcfServiceConfig NewConfigWithDefaultValues)) = Ok ()"
    by (simp add: NewConfigWithDefaultValues_def validateHTTPServer_def negative_def)
  moreover have "validateLogger (dscLogger (dcfServiceConfig NewConfigWithDefaultValues)) =
      Ok (dscLogger (dcfServiceConfig NewConfigWithDefaultValues))"
    by (simp add: NewConfigWithDefaultValues_def validateLogger_def validateFileLogger_def)
  ultimately show ?thesis
    using demo_loads by (simp add: validateConfig_def NewConfigWithDefaultValues_def Let_def)
qed

lemma demo_load: "Load demo_config_lib ''abs.yml'' False = Ok (demo_config, FileConfigurationManager ''abs.yml'')"
  by (simp add: Load_def newConfigManager_def fileReadConfiguration_def isHTTPPath_def HasPrefix_def demo_config_lib_def with_text_def demo_default_valid demo_loads)

definition demo_started :: "(string, (string, string, nat) HTTPServer) outcome" where
  "demo_started = startService demo_handler_env demo_netip ''abs.yml'' False"

definition demo_server :: "(string, string, nat) HTTPServer" where
  "demo_server =
     \<lparr>htAddr = ''0.0.0.0'' @ '':'' @ FormatInt 8080, htTimeout = 5000000000,
      htWhiteList = \<lparr>wlAddresses = [], wlNetworks = [], wlAllowAny = False\<rparr>,
      htLimiter = NewIPRateLimiter 1024 1024,
      htService = NewService demo_config (FileConfigurationManager ''abs.yml'') initialSchedule []\<rparr>"

lemma demo_log:
  "(LogHandler (scLogger (cfServiceConfig (snd demo_config))) :: (string, log_handler) outcome) = Ok (TextHandler LevelDebug StdoutWriter)"
  by code_simp

lemma demo_jobs:
  "BuildBackupBackends demo_schedule_env demo_config = Ok []"
  "MakeHandlers demo_schedule_env demo_config (SetData [] initialSchedule) = (initialSchedule, Ok [])"
  "ScheduleBackup demo_schedule_env demo_config [] initialSchedule = (initialSchedule, Ok ())"
  by (simp_all add: BuildBackupBackends_def MakeHandlers_def ScheduleBackup_def scheduleRoutines_def demo_config_def
      NewConfig_def demo_schedule_env_def permuted_def SetData_def initialSchedule_def)

lemma demo_server_starts: "NewHTTPServer demo_netip demo_config initialSchedule [] (FileConfigurationManager ''abs.yml'') = Ok demo_server"
proof -
  have "scHTTPServer (cfServiceConfig (snd demo_config)) =
      Some \<lparr>hsAddress = None, hsPort = None, hsRate = None, hsContextPath = None, hsTimeout = None\<rparr>"
    by (simp add: demo_config_def NewConfigWithDefaultValues_def serviceToModel_def httpToModel_def rateToModel_def)
  then show ?thesis
    by (simp add: NewHTTPServer_def demo_server_def NewIPWhiteList_def GetRateOrDefault_def GetWhiteListOrDefault_def
        GetAddressOrDefault_def GetPortOrDefault_def GetTimeout_def GetTpsOrDefault_def GetSizeOrDefault_def or_default_def
        defaultHttp_def defaultRate_def)
qed

lemma demo_starts: "demo_started = Ok demo_server"
  using demo_load demo_log demo_jobs demo_server_starts
  by (simp add: demo_started_def startService_def demo_handler_env_def with_text_def)

definition demo_post :: handled where
  "demo_post = serve demo_handler_env MethodPost
     (PolicyRequest ''q'' \<lparr>decodeJSON = Ok newBackupPolicy, decodeYAML = Err ''yaml''\<rparr>) (htService demo_server)"

lemma demo_policy_read:
  "NewBackupPolicyFromReader \<lparr>decodeJSON = Ok newBackupPolicy, decodeYAML = Err ''yaml''\<rparr> JSON = Ok newBackupPolicy"
  by (simp add: NewBackupPolicyFromReader_def Deserialize_def newBackupPolicy_def validateBackupPolicy_def positive_def negative_def
      validateEncryption_def validateCompression_def)

end
