(* ===== verification/HandlerProps.thy ===== *)
theory HandlerProps
  imports ServiceRuns
begin

text \<open>
  What a client of the HTTP server can rely on: the statuses it may see, what a read leaves alone,
  when a change of the configuration is on disk, how a restore it was promised ends, and that the
  requests of one address do not spend the limit of another.
\<close>

section \<open>Answers\<close>

definition known_statuses :: "nat set" where
  "known_statuses = {200, 201, 202, 204, 400, 404, 405, 500}"

text \<open>A handler answers, with a known status, or panics; it has no other way out.\<close>

definition answers :: "handled \<Rightarrow> bool" where
  "answers r \<longleftrightarrow> (\<forall>e. snd r \<noteq> Err e) \<and> (\<forall>code. status_of r = Some code \<longrightarrow> code \<in> known_statuses)"

lemma answers_panic [simp]: "answers (s, Panic p)"
  by (simp add: answers_def status_of_def)

lemma answers_reply: "answers (reply s w) \<longleftrightarrow> (case hwStatus w of None \<Rightarrow> True | Some code \<Rightarrow> code \<in> known_statuses)"
  by (simp add: answers_def status_of_def reply_def known_statuses_def split: option.split)

lemma writer_status [simp]:
  "hwStatus new_writer = None"
  "hwStatus (WriteHeader code w) = (case hwStatus w of None \<Rightarrow> Some code | Some c \<Rightarrow> Some c)"
  "hwStatus (Write text w) = (case hwStatus w of None \<Rightarrow> Some 200 | Some c \<Rightarrow> Some c)"
  "hwStatus (http_Error msg code w) = (case hwStatus w of None \<Rightarrow> Some code | Some c \<Rightarrow> Some c)"
  by (simp_all add: new_writer_def WriteHeader_def Write_def http_Error_def split: option.split)

lemma answers_replies [simp]:
  "answers (reply s new_writer)"
  "answers (reply s (WriteHeader code new_writer)) = (code \<in> known_statuses)"
  "answers (reply s (http_Error msg code new_writer)) = (code \<in> known_statuses)"
  "answers (reply s (WriteHeader c (http_Error msg code new_writer))) = (code \<in> known_statuses)"
  "answers (reply s (Write text new_writer))"
  "answers (reply s (Write text (WriteHeader code new_writer))) = (code \<in> known_statuses)"
  by (simp_all add: answers_reply known_statuses_def)

lemma known [simp]:
  "200 \<in> known_statuses" "201 \<in> known_statuses" "202 \<in> known_statuses" "204 \<in> known_statuses"
  "400 \<in> known_statuses" "404 \<in> known_statuses" "405 \<in> known_statuses" "500 \<in> known_statuses"
  by (simp_all add: known_statuses_def)

lemma answers_parts:
  "(\<And>x. r = Ok x \<Longrightarrow> answers (f x)) \<Longrightarrow> answers (decoded env r s f)"
  "answers q \<Longrightarrow> answers (named msg name s q)"
  "(\<And>x. answers (f x)) \<Longrightarrow> answers (converted s r f)"
  "(\<And>tb. answers (g tb)) \<Longrightarrow> answers (with_bounds env from to s g)"
  "answers (write_document env v failed s)"
  "code \<in> known_statuses \<Longrightarrow> answers (write_and_reply env code s)"
  "code \<in> known_statuses \<Longrightarrow> bad \<in> known_statuses \<Longrightarrow> answers (change env h bad code s)"
  by (auto simp: decoded_def named_def converted_def with_bounds_def write_document_def write_and_reply_def change_def Let_def
      split: outcome.split option.split)

lemma entity_answers:
  "answers (ConfigStorageActionHandler env r1 s)"
  "answers (ConfigPolicyActionHandler env r2 s)"
  "answers (ConfigClusterActionHandler env r3 s)"
  "answers (ConfigRoutineActionHandler env r4 s)"
  "answers (ConfigActionHandler env m body s)"
proof -
  note k = answers_parts
  have "answers (addStorage env b n s)" "answers (readStorage env n s)" "answers (updateStorage env d n s)"
    "answers (deleteStorage env n s)" for b d n
    unfolding addStorage_def readStorage_def updateStorage_def deleteStorage_def
    by (intro k; simp add: k split: option.split)+
  then show "answers (ConfigStorageActionHandler env r1 s)"
    by (simp add: ConfigStorageActionHandler_def split: http_method.split)
  have "answers (addPolicy env b n s)" "answers (readPolicy env n s)" "answers (updatePolicy env b n s)"
    "answers (deletePolicy env n s)" for b n
    unfolding addPolicy_def readPolicy_def updatePolicy_def deletePolicy_def
    by (intro k; simp add: k split: option.split)+
  then show "answers (ConfigPolicyActionHandler env r2 s)"
    by (simp add: ConfigPolicyActionHandler_def split: http_method.split)
  have "answers (addAerospikeCluster env b n s)" "answers (readAerospikeCluster env n s)" "answers (updateAerospikeCluster env b n s)"
    "answers (deleteAerospikeCluster env n s)" for b n
    unfolding addAerospikeCluster_def readAerospikeCluster_def updateAerospikeCluster_def deleteAerospikeCluster_def
    by (intro k; simp add: k Let_def split: option.split outcome.split prod.split)+
  then show "answers (ConfigClusterActionHandler env r3 s)"
    by (simp add: ConfigClusterActionHandler_def split: http_method.split)
  have "answers (addRoutine env b n s)" "answers (readRoutine env n s)" "answers (updateRoutine env b n s)"
    "answers (deleteRoutine env n s)" for b n
    unfolding addRoutine_def readRoutine_def updateRoutine_def deleteRoutine_def with_new_routine_def
    by (intro k; simp add: k split: option.split)+
  then show "answers (ConfigRoutineActionHandler env r4 s)"
    by (simp add: ConfigRoutineActionHandler_def split: http_method.split)
  have "answers (readConfig env s)" "answers (updateConfig env body s)"
    unfolding readConfig_def updateConfig_def by (intro k; simp add: k split: outcome.split)+
  then show "answers (ConfigActionHandler env m body s)"
    by (simp add: ConfigActionHandler_def split: http_method.split)
qed

lemma read_answers:
  "answers (ReadAerospikeClusters env s)" "answers (ReadAllStorage env s)" "answers (ReadPolicies env s)"
  "answers (ReadRoutines env s)" "answers (RestoreStatusHandler env jobId s)" "answers (RetrieveConfig env name t s)"
  "answers (readBackupsForRoutine env full from to name s)" "answers (readAllBackups env full from to s)"
  "answers (GetCurrentBackupInfo env name s)"
proof -
  show "answers (RestoreStatusHandler env jobId s)"
    by (cases "getStatus (hmCast env) (hmNow env) (hmRestoreStats env) (case ParseInt jobId of Ok i \<Rightarrow> i) (rsJobs (svRestore s))")
      (auto simp: RestoreStatusHandler_def answers_reply getStatus_def split: outcome.split option.split)
qed (simp_all add: ReadAerospikeClusters_def ReadAllStorage_def ReadPolicies_def ReadRoutines_def RetrieveConfig_def
    readBackupsForRoutine_def readAllBackups_def GetCurrentBackupInfo_def answers_parts split: option.split outcome.split)

lemma start_answers:
  "answers (RestoreFullHandler env body s)" "answers (RestoreIncrementalHandler env body s)"
  "answers (RestoreByTimeHandler env tbody s)" "answers (ScheduleFullBackup env name delay s)" "answers (ApplyConfig env s)"
  by (simp_all add: RestoreFullHandler_def RestoreIncrementalHandler_def RestoreByTimeHandler_def accepted_def
      ScheduleFullBackup_def ApplyConfig_def answers_parts Let_def split: option.split outcome.split prod.split)

lemma serve_answers: "answers (serve env m r s)"
proof -
  have "answers (route_handler env m r s)"
    by (cases r) (simp_all add: entity_answers read_answers start_answers GetFullBackupsForRoutine_def GetAllFullBackups_def
        GetIncrementalBackupsForRoutine_def GetAllIncrementalBackups_def RootActionHandler_def HealthActionHandler_def
        ReadyActionHandler_def VersionActionHandler_def)
  then show ?thesis by (simp add: serve_def)
qed

section \<open>Reads\<close>

lemma get_reads: "fst (route_handler env MethodGet r s) = s" if "MethodGet \<in> set (route_methods r)"
  using that
  by (cases r) (simp_all add: reads_nothing ConfigStorageActionHandler_def ConfigPolicyActionHandler_def
      ConfigClusterActionHandler_def ConfigRoutineActionHandler_def ConfigActionHandler_def readStorage_def readPolicy_def
      readAerospikeCluster_def readRoutine_def readConfig_def named_def converted_def RootActionHandler_def
      HealthActionHandler_def ReadyActionHandler_def VersionActionHandler_def GetFullBackupsForRoutine_def GetAllFullBackups_def
      GetIncrementalBackupsForRoutine_def GetAllIncrementalBackups_def reply_def split: option.split outcome.split)

section \<open>Changes of the configuration\<close>

fun changes_config :: "request \<Rightarrow> bool" where
  "changes_config (ConfigRequest body) = True"
| "changes_config (ClusterRequest name body) = True"
| "changes_config (StorageRequest name body) = True"
| "changes_config (PolicyRequest name body) = True"
| "changes_config (RoutineRequest name body) = True"
| "changes_config r = False"

text \<open>
  \<open>recorded env s r\<close>: the answer \<open>r\<close> of a request to the service \<open>s\<close> is true to the file. After a
  success the file holds the configuration in memory; after an error the configuration and the file
  are the old ones, or it was the write that failed.
\<close>

definition unwritten :: "handler_env \<Rightarrow> Service \<Rightarrow> Service \<Rightarrow> bool" where
  "unwritten env s s' \<longleftrightarrow>
     (\<exists>c e. current s' = Some c \<and> WriteConfiguration (hmConfig env) (svManager s) c = Err e \<and>
        (case prepare (hmConfig env) (svManager s) c of
           Ok data \<Rightarrow> svFile s' = clLeft (hmConfig env) (svFile s) data
         | _ \<Rightarrow> svFile s' = svFile s))"

definition recorded :: "handler_env \<Rightarrow> Service \<Rightarrow> handled \<Rightarrow> bool" where
  "recorded env s r \<longleftrightarrow>
     (let s' = fst r in
      case status_of r of
        None \<Rightarrow> True
      | Some code \<Rightarrow>
          if code < 300
          then (\<exists>c data. current s' = Some c \<and> WriteConfiguration (hmConfig env) (svManager s) c = Ok data \<and> svFile s' = Some data)
          else current s' = current s \<and> svFile s' = svFile s \<or> unwritten env s s')"

lemma recorded_panic [simp]: "recorded env s (s', Panic p)"
  by (simp add: recorded_def status_of_def)

lemma recorded_error [simp]: "300 \<le> code \<Longrightarrow> recorded env s (reply s (http_Error msg code new_writer))"
  by (simp add: recorded_def status_of_def reply_def)

lemma recorded_parts:
  "(\<And>x. r = Ok x \<Longrightarrow> recorded env s (f x)) \<Longrightarrow> recorded env s (decoded env r s f)"
  "recorded env s q \<Longrightarrow> recorded env s (named msg name s q)"
  by (auto simp: decoded_def named_def split: outcome.split)

lemma current_file [simp]: "current (s\<lparr>svFile := f\<rparr>) = current s"
  by (simp add: current_def config_at_def cong: option.case_cong if_cong)

text \<open>\<open>s'\<close> is the service after the change in memory.\<close>

lemma unwritten_after:
  assumes "current s' = Some c" and "WriteConfiguration (hmConfig env) (svManager s) c = Err e" and "svFile s' = svFile s"
  shows "unwritten env s (s'\<lparr>svFile := file_after (hmConfig env) (svManager s) c (svFile s)\<rparr>)"
proof -
  have "case prepare (hmConfig env) (svManager s) c of
      Ok data \<Rightarrow> file_after (hmConfig env) (svManager s) c (svFile s) = clLeft (hmConfig env) (svFile s) data
    | _ \<Rightarrow> file_after (hmConfig env) (svManager s) c (svFile s) = svFile s"
    using assms(2) by (auto simp: WriteConfiguration_parts file_after_def outcome_simps split: outcome.split)
  then show ?thesis using assms(1,2) unfolding unwritten_def
    by (intro exI [of _ c] exI [of _ e]) (auto split: outcome.splits)
qed

lemma recorded_write:
  assumes "code < 300" and "svManager s' = svManager s" and "svFile s' = svFile s"
  shows "recorded env s (write_and_reply env code s')"
proof (cases "current s'")
  case (Some c)
  then show ?thesis using assms unwritten_after [OF Some _ assms(3)] file_after_written
    by (cases c; cases "WriteConfiguration (hmConfig env) (svManager s) c")
      (simp_all add: write_and_reply_def recorded_def status_of_def reply_def)
qed (simp add: write_and_reply_def)

lemma put_current_frame [simp]:
  "svManager (put_current c s) = svManager s" "svFile (put_current c s) = svFile s"
  by (simp_all add: put_current_def put_store_def split: option.split)

lemma recorded_change: "code < 300 \<Longrightarrow> 300 \<le> failed \<Longrightarrow> recorded env s (change env f failed code s)"
  by (simp add: change_def recorded_write split: option.split outcome.split)

lemma recorded_cluster: "recorded env s (updateAerospikeCluster env b n s)"
  unfolding updateAerospikeCluster_def
proof (intro recorded_parts)
  fix d
  show "recorded env s (case current s of
         None \<Rightarrow> (s, Panic NilDereference)
       | Some c \<Rightarrow>
           (case newCluster (clusterToModel d) (fst c) of (st, p) \<Rightarrow>
            (case UpdateCluster n p (st, snd c) of
               Panic q \<Rightarrow> (s, Panic q)
             | Err e \<Rightarrow> reply s (http_Error (shown env e) StatusBadRequest new_writer)
             | Ok c' \<Rightarrow>
                 (let s = put_current c' s;
                      s' = s\<lparr>svFile := file_after (hmConfig env) (svManager s) c' (svFile s)\<rparr> in
                  case WriteConfiguration (hmConfig env) (svManager s) c' of
                    Panic q \<Rightarrow> (s', Panic q)
                  | Err e \<Rightarrow> reply s' (WriteHeader StatusOK (http_Error e StatusBadRequest new_writer))
                  | Ok data \<Rightarrow> reply s' (WriteHeader StatusOK new_writer)))))"
  proof (cases "current s")
    case (Some c)
    obtain st p where a: "newCluster (clusterToModel d) (fst c) = (st, p)" by fastforce
    show ?thesis
    proof (cases "UpdateCluster n p (st, snd c)")
      case (Ok c')
      have "current (put_current c' s) = Some c'" using Some by (rule put_current_current)
      then show ?thesis using Some a Ok unwritten_after [of "put_current c' s" c'] file_after_written
        by (cases c'; cases "WriteConfiguration (hmConfig env) (svManager s) c'")
          (simp_all add: recorded_def status_of_def reply_def)
    qed (simp_all add: Some a)
  qed simp
qed

lemma recorded_config:
  assumes "service_good s"
  shows "recorded env s (updateConfig env body s)"
  unfolding updateConfig_def
proof (intro recorded_parts)
  fix d assume "NewConfigFromReader (clCron (hmConfig env)) body JSON = Ok d"
  then obtain raw where v: "validateConfig (clCron (hmConfig env)) raw = Ok d"
    by (auto simp: NewConfigFromReader_def outcome_simps)
  have "fresh (service_store s)" using assms by (auto simp: service_good_def conf_good_def current_def)
  then obtain c where "configToModel d (service_store s) = Ok c" by (rule validated_good [OF v])
  then show "recorded env s (case configToModel d (service_store s) of
         Panic p \<Rightarrow> (s, Panic p)
       | Err e \<Rightarrow> reply (s\<lparr>svConfig := None\<rparr>) (http_Error (dto_shown env e) StatusBadRequest new_writer)
       | Ok c \<Rightarrow> write_and_reply env StatusOK
             ((put_store (fst c) s)\<lparr>svConfigs := svConfigs s @ [snd c], svConfig := Some (length (svConfigs s))\<rparr>))"
    by (simp add: recorded_write put_store_def)
qed

lemma recorded_entities:
  assumes "m \<in> {MethodPost, MethodPut, MethodDelete}"
  shows "recorded env s (ConfigStorageActionHandler env \<lparr>erMethod = m, erName = n, erBody = b1\<rparr> s)"
    and "recorded env s (ConfigPolicyActionHandler env \<lparr>erMethod = m, erName = n, erBody = b2\<rparr> s)"
    and "recorded env s (ConfigClusterActionHandler env \<lparr>erMethod = m, erName = n, erBody = b3\<rparr> s)"
    and "recorded env s (ConfigRoutineActionHandler env \<lparr>erMethod = m, erName = n, erBody = b4\<rparr> s)"
  using assms
  by (auto simp: ConfigStorageActionHandler_def addStorage_def updateStorage_def deleteStorage_def
      ConfigPolicyActionHandler_def addPolicy_def updatePolicy_def deletePolicy_def
      ConfigClusterActionHandler_def addAerospikeCluster_def recorded_cluster deleteAerospikeCluster_def
      ConfigRoutineActionHandler_def addRoutine_def updateRoutine_def deleteRoutine_def with_new_routine_def
      intro!: recorded_parts recorded_change split: option.split)

section \<open>What a request on an entity asks for\<close>

text \<open>
  The operation of the configuration that a request asks for, or why it asks for none: its body cannot
  be decoded or is not valid, it names no entity, a name in a routine's document is not in the configuration.
\<close>

definition for_entity :: "string \<Rightarrow> 'd checked \<Rightarrow> ('d \<Rightarrow> 'a checked) \<Rightarrow> 'a checked" where
  "for_entity name body f = and_then body (\<lambda>d. if name = [] then Err (Message ''no name'') else f d)"

fun asked :: "handler_env \<Rightarrow> conf \<Rightarrow> http_method \<Rightarrow> request \<Rightarrow> (conf \<Rightarrow> conf_result) checked" where
  "asked env c m (StorageRequest n body) =
     (if m = MethodPost then for_entity n (NewStorageFromReader body JSON) (\<lambda>d. Ok (with_storage (storageToModel d) (AddStorage n)))
      else if m = MethodPut then for_entity n (map_err Message (decodeJSON body)) (\<lambda>d. Ok (with_storage (storageToModel d) (UpdateStorage n)))
      else for_entity n (Ok ()) (\<lambda>_. Ok (DeleteStorage n)))"
| "asked env c m (PolicyRequest n document) =
     (if m = MethodDelete then for_entity n (Ok ()) (\<lambda>_. Ok (DeletePolicy n))
      else for_entity n (NewBackupPolicyFromReader document JSON)
        (\<lambda>d. Ok (with_policy (backupPolicyToModel d) (if m = MethodPost then AddPolicy n else UpdatePolicy n))))"
| "asked env c m (ClusterRequest n cluster) =
     (if m = MethodDelete then for_entity n (Ok ()) (\<lambda>_. Ok (DeleteCluster n))
      else for_entity n (NewClusterFromReader cluster JSON)
        (\<lambda>d. Ok (with_cluster (clusterToModel d) (if m = MethodPost then AddCluster n else UpdateCluster n))))"
| "asked env c m (RoutineRequest n routine) =
     (if m = MethodDelete then for_entity n (Ok ()) (\<lambda>_. Ok (DeleteRoutine n))
      else for_entity n (NewRoutineFromReader (clCron (hmConfig env)) routine JSON)
        (\<lambda>d. and_then (routineToModel d c)
          (\<lambda>r. Ok (with_routine_object r (if m = MethodPost then AddRoutine n else UpdateRoutine n)))))"
| "asked env c m r = Err (Message ''not a change of an entity'')"

text \<open>The requests meant, and the statuses of a success and of an operation the configuration refuses.\<close>

fun on_entity :: "request \<Rightarrow> bool" where
  "on_entity (StorageRequest n body) = True"
| "on_entity (PolicyRequest n document) = True"
| "on_entity (ClusterRequest n cluster) = True"
| "on_entity (RoutineRequest n routine) = True"
| "on_entity r = False"

fun success_status :: "http_method \<Rightarrow> nat" where
  "success_status MethodPost = 201"
| "success_status MethodDelete = 204"
| "success_status m = 200"

fun refused_status :: "http_method \<Rightarrow> request \<Rightarrow> nat" where
  "refused_status m (ClusterRequest n cluster) = (if m = MethodPost then 500 else 400)"
| "refused_status m r = 400"

text \<open>What is expected of an answer to a request that got through to its handler.\<close>

definition expected :: "handler_env \<Rightarrow> conf \<Rightarrow> nat \<Rightarrow> nat \<Rightarrow> Service \<Rightarrow> (conf \<Rightarrow> conf_result) checked \<Rightarrow> handled \<Rightarrow> bool" where
  "expected env c success refused s q r \<longleftrightarrow>
     (case q of
        Err e \<Rightarrow> status_of r = Some 400 \<and> fst r = s
      | Panic p \<Rightarrow> r = (s, Panic p)
      | Ok f \<Rightarrow>
          (case f c of
             Err e \<Rightarrow> status_of r = Some refused \<and> fst r = s
           | Panic p \<Rightarrow> r = (s, Panic p)
           | Ok c' \<Rightarrow> current (fst r) = Some c' \<and>
               (case WriteConfiguration (hmConfig env) (svManager s) c' of
                  Ok data \<Rightarrow> status_of r = Some success \<and> svFile (fst r) = Some data
                | Err e \<Rightarrow> status_of r = Some 400
                | Panic p \<Rightarrow> snd r = Panic p)))"

lemma status_replies [simp]:
  "status_of (reply s (http_Error msg code w)) = Some (case hwStatus w of None \<Rightarrow> code | Some c \<Rightarrow> c)"
  "status_of (reply s (WriteHeader code w)) = Some (case hwStatus w of None \<Rightarrow> code | Some c \<Rightarrow> c)"
  "fst (reply s w) = s" "status_of (s, Panic p) = None"
  by (simp_all add: status_of_def reply_def split: option.split)

lemma expected_change:
  assumes "current s = Some c"
  shows "expected env c code failed s (Ok f) (change env f failed code s)"
proof (cases "f c")
  case (Ok c')
  moreover have "current (put_current c' s) = Some c'" using assms by (rule put_current_current)
  ultimately show ?thesis using assms file_after_written
    by (cases "WriteConfiguration (hmConfig env) (svManager s) c'")
      (simp_all add: expected_def change_def write_and_reply_def)
qed (simp_all add: expected_def change_def assms)

lemma expected_entity:
  assumes "\<And>d. body = Ok d \<Longrightarrow> name \<noteq> [] \<Longrightarrow> expected env c success refused s (f d) (g d)"
  shows "expected env c success refused s (for_entity name body f) (decoded env body s (\<lambda>d. named msg name s (g d)))"
  using assms by (cases body) (simp_all add: for_entity_def decoded_def named_def expected_def)

lemma expected_delete:
  "current s = Some c \<Longrightarrow>
   expected env c code failed s (for_entity name (Ok ()) (\<lambda>_. Ok f)) (named msg name s (change env f failed code s))"
  using expected_entity [of "Ok ()" name env c code failed s "\<lambda>_. Ok f" "\<lambda>_. change env f failed code s" msg] expected_change
  by (simp add: decoded_def)

lemma expected_routine:
  assumes "current s = Some c"
  shows "expected env c code 400 s (and_then (routineToModel d c) (\<lambda>r. Ok (with_routine_object r (f name))))
    (with_new_routine env d f name code s)"
  using expected_change [OF assms] 
  by (cases "routineToModel d c") (simp_all add: with_new_routine_def assms decoded_def, simp_all add: expected_def)

lemma expected_cluster:
  assumes "current s = Some c" and "updatedCluster = d"
  shows "expected env c 200 400 s (Ok (with_cluster (clusterToModel d) (UpdateCluster name)))
    (case current s of
         None \<Rightarrow> (s, Panic NilDereference)
       | Some c \<Rightarrow>
           (case newCluster (clusterToModel updatedCluster) (fst c) of (st, p) \<Rightarrow>
            (case UpdateCluster name p (st, snd c) of
               Panic q \<Rightarrow> (s, Panic q)
             | Err e \<Rightarrow> reply s (http_Error (shown env e) StatusBadRequest new_writer)
             | Ok c' \<Rightarrow>
                 (let s = put_current c' s;
                      s' = s\<lparr>svFile := file_after (hmConfig env) (svManager s) c' (svFile s)\<rparr> in
                  case WriteConfiguration (hmConfig env) (svManager s) c' of
                    Panic q \<Rightarrow> (s', Panic q)
                  | Err e \<Rightarrow> reply s' (WriteHeader StatusOK (http_Error e StatusBadRequest new_writer))
                  | Ok data \<Rightarrow> reply s' (WriteHeader StatusOK new_writer)))))"
proof -
  obtain st p where a: "newCluster (clusterToModel d) (fst c) = (st, p)" by fastforce
  show ?thesis
  proof (cases "UpdateCluster name p (st, snd c)")
    case (Ok c')
    moreover have "current (put_current c' s) = Some c'" using assms(1) by (rule put_current_current)
    ultimately show ?thesis using assms a file_after_written
      by (cases "WriteConfiguration (hmConfig env) (svManager s) c'") (simp_all add: expected_def Let_def)
  qed (simp_all add: expected_def assms a)
qed

text \<open>Every handler of an entity answers as expected.\<close>

lemma expected_handler:
  assumes "on_entity r" and "m \<in> {MethodPost, MethodPut, MethodDelete}" and "current s = Some c"
  shows "expected env c (success_status m) (refused_status m r) s (asked env c m r) (route_handler env m r s)"
proof (cases r)
  case (StorageRequest n body)
  then show ?thesis using assms(2)
    by (auto simp: ConfigStorageActionHandler_def addStorage_def updateStorage_def deleteStorage_def
        intro!: expected_entity expected_change expected_delete assms(3))
next
  case (PolicyRequest n body)
  then show ?thesis using assms(2)
    by (auto simp: ConfigPolicyActionHandler_def addPolicy_def updatePolicy_def deletePolicy_def
        intro!: expected_entity expected_change expected_delete assms(3))
next
  case (ClusterRequest n body)
  then show ?thesis using assms(2)
    by (auto simp: ConfigClusterActionHandler_def addAerospikeCluster_def updateAerospikeCluster_def deleteAerospikeCluster_def
        intro!: expected_entity expected_change expected_delete expected_cluster assms(3))
next
  case (RoutineRequest n body)
  then show ?thesis using assms(2)
    by (auto simp: ConfigRoutineActionHandler_def addRoutine_def updateRoutine_def deleteRoutine_def
        intro!: expected_entity expected_routine expected_delete assms(3))
qed (use assms(1) in simp_all)

section \<open>Restores\<close>

definition has_job :: "RestoreJobID \<Rightarrow> Service \<Rightarrow> bool" where
  "has_job jobID s \<longleftrightarrow> lookup (rsJobs (svRestore s)) jobID \<noteq> None"

text \<open>Only the requests that start a restore and the restores themselves touch the jobs, and none is removed.\<close>

lemma has_job_simps [simp]:
  "has_job i (put_store st s) = has_job i s"
  "has_job i (put_current c s) = has_job i s"
  "has_job i (s\<lparr>svFile := f\<rparr>) = has_job i s"
  "has_job i (s\<lparr>svScheduler := sch\<rparr>) = has_job i s"
  "has_job i (s\<lparr>svScheduler := sch, svHandlers := hs\<rparr>) = has_job i s"
  "has_job i (s\<lparr>svTasks := ts\<rparr>) = has_job i s"
  "has_job i (s\<lparr>svConfig := p\<rparr>) = has_job i s"
  "has_job i (s\<lparr>svConfigs := cs\<rparr>) = has_job i s"
  "fst (reply s w) = s"
  by (simp_all add: has_job_def put_store_def put_current_def reply_def split: option.split)

lemma job_kept_parts:
  "has_job i s \<Longrightarrow> has_job i (fst (write_and_reply env code s))"
  "has_job i s \<Longrightarrow> has_job i (fst (change env f failed code s))"
  by (auto simp: write_and_reply_def change_def Let_def split: option.split outcome.split)

definition started_job :: "RestoreJobID \<Rightarrow> RestoreJobsHolder \<Rightarrow> RestoreJobsHolder \<Rightarrow> bool" where
  "started_job jobID h h' \<longleftrightarrow> (\<exists>now label. h' = newJob jobID now label h)"

lemma started_newJob [simp]: "started_job jobID h (newJob jobID now label h)"
  unfolding started_job_def by blast

lemma started_restores:
  "Restore renv jobID now q r = Ok (j, n, r') \<Longrightarrow> j = jobID \<and> started_job jobID (rsJobs r) (rsJobs r')"
  "RestoreByTime renv bs jobID now tq r = Ok (j, b, fs, r') \<Longrightarrow> j = jobID \<and> started_job jobID (rsJobs r) (rsJobs r')"
  by (auto simp: Restore_def RestoreByTime_def Let_def outcome_simps split: outcome.splits option.splits)

fun task_job :: "restore_task \<Rightarrow> RestoreJobID" where
  "task_job (RestoreTask jobID n m) = jobID"
| "task_job (TimestampTask jobID reader fulls m) = jobID"

definition job_status :: "RestoreJobID \<Rightarrow> Service \<Rightarrow> JobStatus option" where
  "job_status jobID s = map_option jiStatus (lookup (rsJobs (svRestore s)) jobID)"

text \<open>\<open>promised env s r\<close>: an answer 202 names a job that runs and whose goroutine has been started.\<close>

definition promised :: "handler_env \<Rightarrow> Service \<Rightarrow> handled \<Rightarrow> bool" where
  "promised env s r \<longleftrightarrow>
     (\<exists>task. svTasks (fst r) = svTasks s @ [task] \<and> job_status (task_job task) (fst r) = Some JobStatusRunning \<and>
        snd r = Ok (Write (FormatInt (task_job task)) (WriteHeader StatusAccepted new_writer)))"

definition fulfils :: "handler_env \<Rightarrow> Service \<Rightarrow> handled \<Rightarrow> bool" where
  "fulfils env s r \<longleftrightarrow>
     (\<forall>i. has_job i s \<longrightarrow> has_job i (fst r)) \<and> (status_of r = Some StatusAccepted \<longrightarrow> promised env s r)"

lemma fulfils_parts:
  "fulfils env s (put_store st s, Panic p)"
  "fulfils env s (s, Panic p)"
  "code \<noteq> 202 \<Longrightarrow> fulfils env s (reply (put_store st s) (http_Error msg code new_writer))"
  "code \<noteq> 202 \<Longrightarrow> fulfils env s (reply s (http_Error msg code new_writer))"
  "(\<And>x. q = Ok x \<Longrightarrow> fulfils env s (f x)) \<Longrightarrow> fulfils env s (decoded env q s f)"
  by (auto simp: fulfils_def status_of_def reply_def decoded_def split: outcome.split)

lemma fulfils_accepted:
  assumes "started_job jobID (rsJobs (svRestore (put_store st s))) (rsJobs r)" and "task_job task = jobID"
  shows "fulfils env s (accepted jobID task (put_restore r (put_store st s)))"
  using assms by (auto simp: started_job_def fulfils_def promised_def accepted_def put_restore_def put_store_def job_status_def
      has_job_def newJob_def reply_def)

lemma restore_fulfils:
  "fulfils env s (RestoreFullHandler env body s)"
  "fulfils env s (RestoreIncrementalHandler env body s)"
  "fulfils env s (RestoreByTimeHandler env tbody s)"
  unfolding RestoreFullHandler_def RestoreIncrementalHandler_def RestoreByTimeHandler_def
  by (auto simp: Let_def intro!: fulfils_parts fulfils_accepted dest!: started_restores split: outcome.split prod.split)

text \<open>The other requests.\<close>

lemma entity_jobs:
  "has_job i s \<Longrightarrow> has_job i (fst (ConfigStorageActionHandler env r1 s))"
  "has_job i s \<Longrightarrow> has_job i (fst (ConfigPolicyActionHandler env r2 s))"
  "has_job i s \<Longrightarrow> has_job i (fst (ConfigClusterActionHandler env r3 s))"
  "has_job i s \<Longrightarrow> has_job i (fst (ConfigRoutineActionHandler env r4 s))"
  "has_job i s \<Longrightarrow> has_job i (fst (ConfigActionHandler env m body s))"
proof -
  note k = decoded_keeps [of "has_job i"] named_keeps [of "has_job i"]
  have read: "fst (readStorage env n s) = s" "fst (readPolicy env n s) = s" "fst (readAerospikeCluster env n s) = s"
    "fst (readRoutine env n s) = s" "fst (readConfig env s) = s" for n
    using get_reads [of "StorageRequest n undefined" env s] get_reads [of "PolicyRequest n undefined" env s]
      get_reads [of "ClusterRequest n undefined" env s] get_reads [of "RoutineRequest n undefined" env s]
      get_reads [of "ConfigRequest undefined" env s]
    by (simp_all add: ConfigStorageActionHandler_def ConfigPolicyActionHandler_def ConfigClusterActionHandler_def
        ConfigRoutineActionHandler_def ConfigActionHandler_def)
  assume h: "has_job i s"
  show "has_job i (fst (ConfigStorageActionHandler env r1 s))"
    using h by (auto simp: ConfigStorageActionHandler_def addStorage_def updateStorage_def deleteStorage_def read
        intro!: k job_kept_parts split: http_method.split)
  show "has_job i (fst (ConfigPolicyActionHandler env r2 s))"
    using h by (auto simp: ConfigPolicyActionHandler_def addPolicy_def updatePolicy_def deletePolicy_def read
        intro!: k job_kept_parts split: http_method.split)
  show "has_job i (fst (ConfigClusterActionHandler env r3 s))"
    using h by (auto simp: ConfigClusterActionHandler_def addAerospikeCluster_def updateAerospikeCluster_changes
        deleteAerospikeCluster_def read intro!: k job_kept_parts split: http_method.split)
  show "has_job i (fst (ConfigRoutineActionHandler env r4 s))"
    using h by (auto simp: ConfigRoutineActionHandler_def addRoutine_def updateRoutine_def deleteRoutine_def with_new_routine_def
        read intro!: k job_kept_parts split: http_method.split option.split)
  show "has_job i (fst (ConfigActionHandler env m body s))"
    using h by (auto simp: ConfigActionHandler_def updateConfig_def read
        intro!: k job_kept_parts split: http_method.split outcome.split)
qed

lemma scheduler_jobs:
  "has_job i s \<Longrightarrow> has_job i (fst (ScheduleFullBackup env name delay s))"
  "has_job i s \<Longrightarrow> has_job i (fst (ApplyConfig env s))"
  by (auto simp: ScheduleFullBackup_def ApplyConfig_def named_def split: option.split outcome.split prod.split)

lemma serve_jobs: "has_job i s \<Longrightarrow> has_job i (fst (serve env m r s))"
proof -
  assume "has_job i s"
  then have "has_job i (fst (route_handler env m r s))"
    using entity_jobs scheduler_jobs restore_fulfils
    by (cases r) (simp_all add: reads_nothing fulfils_def GetFullBackupsForRoutine_def GetAllFullBackups_def
        GetIncrementalBackupsForRoutine_def GetAllIncrementalBackups_def RootActionHandler_def HealthActionHandler_def
        ReadyActionHandler_def VersionActionHandler_def)
  then show ?thesis using \<open>has_job i s\<close> by (simp add: serve_def)
qed

definition settled :: "RestoreJobID \<Rightarrow> Service \<Rightarrow> bool" where
  "settled jobID s \<longleftrightarrow> job_status jobID s \<in> {Some JobStatusDone, Some JobStatusFailed}"

text \<open>The goroutine of a restore, when it ends, has settled its job and left the others.\<close>

definition ended :: "RestoreJobID \<Rightarrow> RestoreJobsHolder \<Rightarrow> RestoreJobsHolder \<Rightarrow> bool" where
  "ended jobID h h' \<longleftrightarrow>
     (lookup h jobID \<noteq> None \<longrightarrow> map_option jiStatus (lookup h' jobID) \<in> {Some JobStatusDone, Some JobStatusFailed}) \<and>
     (\<forall>i. lookup h i \<noteq> None \<longrightarrow> lookup h' i \<noteq> None)"

lemma ended_simps [simp]:
  "ended jobID h (setDone jobID h)"
  "ended jobID h (setFailed e jobID h)"
  "ended jobID h (setDone jobID (addHandler k jobID (addTotalRecords t jobID h)))"
  "ended jobID h (setFailed e jobID (addHandler k jobID (addTotalRecords t jobID h)))"
  "ended jobID h (setDone jobID (fold (apply_update jobID) us h))"
  "ended jobID h (setFailed e jobID (fold (apply_update jobID) us h))"
  by (auto simp: ended_def setDone_def setFailed_def addHandler_def addTotalRecords_def with_job_lookup apply_updates_lookup)

lemma restores_end:
  "restoreSync env jobID n request r = Ok r' \<Longrightarrow> ended jobID (rsJobs r) (rsJobs r')"
  "restoreByTimeSync env config errText find_incr trequest jobID fulls r = Ok (r', tr) \<Longrightarrow> ended jobID (rsJobs r) (rsJobs r')"
proof -
  show "restoreSync env jobID n request r = Ok r' \<Longrightarrow> ended jobID (rsJobs r) (rsJobs r')"
    by (auto simp: restoreSync_def Let_def split: prod.splits outcome.splits option.splits)
  show "ended jobID (rsJobs r) (rsJobs r')"
    if "restoreByTimeSync env config errText find_incr trequest jobID fulls r = Ok (r', tr)"
    using that by (cases rule: sync_cases) (auto split: option.split)
qed

lemma run_task_ends: "run_task env task s = Ok s' \<Longrightarrow> ended (task_job task) (rsJobs (svRestore s)) (rsJobs (svRestore s'))"
  by (cases task) (auto simp: run_task_def put_restore_def outcome_simps dest: restores_end split: option.splits)

lemma task_settles: "run_task env task s = Ok s' \<Longrightarrow> has_job (task_job task) s \<Longrightarrow> settled (task_job task) s'"
  using run_task_ends by (simp add: ended_def settled_def job_status_def has_job_def)

lemma tasks_jobs: "run_task env task s = Ok s' \<Longrightarrow> has_job i s \<Longrightarrow> has_job i s'"
  using run_task_ends by (simp add: ended_def has_job_def)

lemma run_task_not_Err: "run_task env task s \<noteq> Err e"
proof (cases task)
  case (RestoreTask jobID n request)
  then show ?thesis
    by (auto simp: run_task_def restoreSync_def outcome_simps Let_def split: prod.split outcome.split option.split)
next
  case (TimestampTask jobID reader fulls request)
  then show ?thesis
    by (auto simp: run_task_def restoreByTimeSync_def outcome_simps Let_def split: prod.split outcome.split option.split)
qed

lemma steps_jobs: "service_step\<^sup>*\<^sup>* s s' \<Longrightarrow> has_job i s \<Longrightarrow> has_job i s'"
proof (induction rule: rtranclp_induct)
  case (step s1 s2)
  have "has_job i (run_backup rr k s)" if "has_job i s" for rr k s
    using that by (simp add: has_job_def run_backup_def Let_def)
  with step show ?case by (auto elim!: service_step.cases intro: serve_jobs tasks_jobs)
qed

section \<open>Limits\<close>

text \<open>
  What the server answers to requests of several addresses: whether each was let through. The
  router answers a method a route does not have without asking the limiter. An environment holds
  the time of its request.
\<close>

definition let_through :: "(string, http_writer) outcome \<Rightarrow> bool" where
  "let_through w = (case w of Ok w \<Rightarrow> hwStatus w \<noteq> Some StatusTooManyRequests | _ \<Rightarrow> True)"

type_synonym addressed = "handler_env \<times> string \<times> http_method \<times> request"

fun limit_answers :: "('a, 'p) netip \<Rightarrow> 'l rate_lib \<Rightarrow> addressed list \<Rightarrow> ('a, 'p, 'l) HTTPServer \<Rightarrow> (string \<times> bool) list" where
  "limit_answers ni rl [] h = []"
| "limit_answers ni rl ((env, ip, m, r) # qs) h =
     (case serve_limited ni rl env (Some ip) m r h of (h', w) \<Rightarrow>
        if m \<in> set (route_methods r) then (ip, let_through w) # limit_answers ni rl qs h'
        else limit_answers ni rl qs h')"

definition times_of :: "string \<Rightarrow> addressed list \<Rightarrow> time list" where
  "times_of ip qs = map (hmNow \<circ> fst) (filter (\<lambda>(env, i, m, r). i = ip \<and> m \<in> set (route_methods r)) qs)"

text \<open>What one limiter of the library answers at given times.\<close>

fun one_limiter :: "'l rate_lib \<Rightarrow> time list \<Rightarrow> 'l \<Rightarrow> bool list" where
  "one_limiter rl [] limiter = []"
| "one_limiter rl (now # ts) limiter =
     (case rlAllow rl now limiter of (ok, limiter') \<Rightarrow> ok # one_limiter rl ts limiter')"

definition limiter_of :: "'l rate_lib \<Rightarrow> string \<Rightarrow> 'l IPRateLimiter \<Rightarrow> 'l" where
  "limiter_of rl ip l =
     (case lookup (ilLimiters l) ip of
        Some limiter \<Rightarrow> limiter | None \<Rightarrow> rlNew rl (ilTokensPerSecond l) (ilTokenBucketSize l))"

lemma limiter_allows_of:
  assumes "limiter_allows rl now ip l = (l', ok)" and "rlAllow rl now (limiter_of rl ip l) = (ok', limiter')"
  shows "ok = ok' \<and> limiter_of rl ip l' = limiter' \<and> (\<forall>i. i \<noteq> ip \<longrightarrow> limiter_of rl i l' = limiter_of rl i l)"
  using assms by (auto simp: limiter_allows_def GetLimiter_def AddLimiter_def limiter_of_def Let_def split: option.splits)

text \<open>Whether a request of a remote address gets to its handler.\<close>

definition gets_through :: "('a, 'p) netip \<Rightarrow> 'l rate_lib \<Rightarrow> time \<Rightarrow> string option \<Rightarrow> ('a, 'p, 'l) HTTPServer \<Rightarrow> bool" where
  "gets_through ni rl now remote h =
     (case remote of
        None \<Rightarrow> False
      | Some ip \<Rightarrow> IsAllowed ni (htWhiteList h) ip \<or> fst (rlAllow rl now (limiter_of rl ip (htLimiter h))))"

lemma limiter_answers: "limiter_allows rl now ip l = (l', ok) \<Longrightarrow> ok = fst (rlAllow rl now (limiter_of rl ip l))"
  by (auto simp: limiter_allows_def GetLimiter_def AddLimiter_def limiter_of_def Let_def split: option.splits prod.splits)

lemma served_through: "m \<in> set (route_methods r) \<Longrightarrow> let_through (snd (route_handler env m r s))"
  using serve_answers [of env m r s]
  by (auto simp: serve_def answers_def let_through_def status_of_def known_statuses_def split: outcome.split option.splits)

lemma limited_request:
  assumes "serve_limited ni rl env (Some ip) m r h = (h', w)"
    and "rlAllow rl (hmNow env) (limiter_of rl ip (htLimiter h)) = (ok, limiter)" and "m \<in> set (route_methods r)"
  shows "htWhiteList h' = htWhiteList h \<and>
    (if IsAllowed ni (htWhiteList h) ip then let_through w \<and> htLimiter h' = htLimiter h
     else let_through w = ok \<and> limiter_of rl ip (htLimiter h') = limiter) \<and>
    (\<forall>i. i \<noteq> ip \<longrightarrow> limiter_of rl i (htLimiter h') = limiter_of rl i (htLimiter h))"
proof -
  obtain l' ok' where a: "limiter_allows rl (hmNow env) ip (htLimiter h) = (l', ok')" by fastforce
  have t: "let_through q" if "route_handler env m r (htService h) = (s', q)" for s' q
    using served_through [OF assms(3), of env "htService h"] that by simp
  show ?thesis using assms(1,3) a limiter_allows_of [OF a assms(2)]
    by (auto simp: serve_limited_def RateLimiter_def reply_def let_through_def [of "Ok (http_Error m c new_writer)" for m c]
        dest: t split: if_splits prod.splits)
qed

section \<open>Properties\<close>

text \<open>
  C30: A request to create, update or delete a storage, policy, cluster or routine is answered with
  exactly what became of it. Refused by the limiter it is answered with 429 (or 500 when its address
  cannot be told) and nothing changes. Otherwise: when its body is not a valid document, it names no
  entity or its document refers to a name that is not there, the answer is 400 and nothing
  changes; when the configuration refuses the operation, the answer is 400 (500 for a new cluster) and nothing
  changes; when the operation is done, the configuration in memory is its result, and the answer is 201, 200 or 204
  if that configuration was written, and 400 if it was not. Its handler panics exactly when one of these steps does.
\<close>

theorem entity_requests_answered:
  assumes "on_entity r" and "m \<in> {MethodPost, MethodPut, MethodDelete}" and "current (htService h) = Some c"
    and "serve_limited ni rl env remote m r h = (h', w)"
  shows "if \<not> gets_through ni rl (hmNow env) remote h
    then htService h' = htService h \<and> status_of (htService h', w) = Some (if remote = None then 500 else 429)
    else case asked env c m r of
        Err e \<Rightarrow> htService h' = htService h \<and> status_of (htService h', w) = Some 400
      | Panic p \<Rightarrow> htService h' = htService h \<and> w = Panic p
      | Ok f \<Rightarrow>
          (case f c of
             Err e \<Rightarrow> htService h' = htService h \<and> status_of (htService h', w) = Some (refused_status m r)
           | Panic p \<Rightarrow> htService h' = htService h \<and> w = Panic p
           | Ok c' \<Rightarrow> current (htService h') = Some c' \<and>
               (case WriteConfiguration (hmConfig env) (svManager (htService h)) c' of
                  Ok data \<Rightarrow> status_of (htService h', w) = Some (success_status m) \<and> svFile (htService h') = Some data
                | Err e \<Rightarrow> status_of (htService h', w) = Some 400
                | Panic p \<Rightarrow> w = Panic p))"
proof (cases "gets_through ni rl (hmNow env) remote h")
  case True
  have "m \<in> set (route_methods r)" using assms(1,2) by (cases r) auto
  with True assms(4) have "route_handler env m r (htService h) = (htService h', w)"
    by (auto simp: serve_limited_def RateLimiter_def gets_through_def dest: limiter_answers split: option.splits prod.splits if_splits)
  with expected_handler [OF assms(1-3), of env] True show ?thesis
    by (auto simp: expected_def split: outcome.splits)
next
  case False
  have "m \<in> set (route_methods r)" using assms(1,2) by (cases r) auto
  with False assms(4) show ?thesis
    by (auto simp: serve_limited_def RateLimiter_def gets_through_def reply_def status_of_def dest: limiter_answers split: option.splits prod.splits if_splits)
qed

text \<open>C31: A GET request changes nothing: not the configuration, the file, the jobs, the clients or the schedule.\<close>

theorem get_changes_nothing: "fst (serve env MethodGet r s) = s"
  using get_reads by (simp add: serve_def reply_def)

text \<open>
  C3: A request to change the configuration, taken by itself, is answered with a success only after
  the new configuration was written without an error, and then the file of the configuration holds
  it. With any other answer the configuration in memory and the file are both the old ones, with one
  exception: the change was made in memory and it was the write that failed. In that case the file is the old one
  when the configuration could not be marshalled (or the context was cancelled); when the bytes could
  not be stored, it holds what the file system or the storage leaves. (A storage holds what its writer was handed: the code
  drops the error of the writer's \<open>Close\<close>.)
\<close>

theorem acknowledged_means_written:
  assumes "service_good s" and "changes_config r" and "m \<noteq> MethodGet" and "status_of (serve env m r s) = Some code"
    and "s' = fst (serve env m r s)"
  shows "if code < 300
    then \<exists>c data. current s' = Some c \<and> WriteConfiguration (hmConfig env) (svManager s) c = Ok data \<and> svFile s' = Some data
    else current s' = current s \<and> svFile s' = svFile s \<or>
      (\<exists>c e. current s' = Some c \<and> WriteConfiguration (hmConfig env) (svManager s) c = Err e \<and>
         (case prepare (hmConfig env) (svManager s) c of
            Ok data \<Rightarrow> svFile s' = clLeft (hmConfig env) (svFile s) data
          | _ \<Rightarrow> svFile s' = svFile s))"
proof -
  have "recorded env s (serve env m r s)"
  proof (cases "m \<in> set (route_methods r)")
    case True
    then show ?thesis using assms(1-3)
      by (cases r) (auto simp: serve_def recorded_entities ConfigActionHandler_def recorded_config)
  qed (simp add: serve_def recorded_def status_of_def reply_def)
  then show ?thesis using assms(4) unfolding assms(5) recorded_def unwritten_def Let_def by simp
qed

text \<open>
  C16: A restore that was accepted goes on to an end. The answer 202 carries the id of a running job
  whose goroutine was started; whatever happens in between, when the goroutine runs to its end, and
  it never ends in an error of its own, the job is done or failed.
\<close>

theorem accepted_restore_settles:
  assumes "serve env MethodPost r s = (s1, Ok w)" and "hwStatus w = Some 202"
    and "r = RestoreFullRequest body \<or> r = RestoreIncrementalRequest body \<or> r = RestoreTimeRequest tbody"
    and "service_step\<^sup>*\<^sup>* s1 s2"
  shows "\<exists>task. svTasks s1 = svTasks s @ [task] \<and> hwBody w = FormatInt (task_job task) \<and>
    job_status (task_job task) s1 = Some JobStatusRunning \<and>
    (case run_task env' task s2 of
       Ok s3 \<Rightarrow> job_status (task_job task) s3 = Some JobStatusDone \<or> job_status (task_job task) s3 = Some JobStatusFailed
     | Err e \<Rightarrow> False
     | Panic p \<Rightarrow> True)"
proof -
  have "fulfils env s (serve env MethodPost r s)"
    using assms(3) restore_fulfils by (auto simp: serve_def)
  then obtain task where task: "svTasks s1 = svTasks s @ [task]" "job_status (task_job task) s1 = Some JobStatusRunning"
    "w = Write (FormatInt (task_job task)) (WriteHeader StatusAccepted new_writer)"
    using assms(1,2) by (auto simp: fulfils_def promised_def status_of_def)
  then have "has_job (task_job task) s1" by (auto simp: job_status_def has_job_def)
  then have "has_job (task_job task) s2" using steps_jobs [OF assms(4)] by blast
  moreover have "run_task env' task s2 \<noteq> Err e" for e by (rule run_task_not_Err)
  ultimately show ?thesis using task task_settles [of env' task s2]
    by (intro exI [of _ task]) (auto simp: settled_def Write_def WriteHeader_def new_writer_def split: outcome.split)
qed

text \<open>
  C32: Each address has a limiter of its own. Whatever other addresses ask for in between, an
  address of the white list is always let through, and the requests of another are let through
  exactly as one limiter of the library says that sees them alone. (A method that a route does not
  have is answered before the limiter.)
\<close>

theorem limits_per_address:
  "map snd (filter (\<lambda>a. fst a = ip) (limit_answers ni rl qs h)) =
   (if IsAllowed ni (htWhiteList h) ip then map (\<lambda>t. True) (times_of ip qs)
    else one_limiter rl (times_of ip qs) (limiter_of rl ip (htLimiter h)))"
proof (induction ni rl qs h rule: limit_answers.induct)
  case (2 ni rl env i m r qs h)
  obtain h' w where a: "serve_limited ni rl env (Some i) m r h = (h', w)" by fastforce
  obtain ok limiter where b: "rlAllow rl (hmNow env) (limiter_of rl i (htLimiter h)) = (ok, limiter)" by fastforce
  show ?case
  proof (cases "m \<in> set (route_methods r)")
    case True
    then show ?thesis using "2.IH"(1) [OF a [symmetric]] limited_request [OF a b True] a b
      by (cases "i = ip") (simp_all add: times_of_def split: if_splits)
  next
    case False
    then have "h' = h" using a by (simp add: serve_limited_def)
    then show ?thesis using "2.IH"(2) [OF a [symmetric]] a False by (simp add: times_of_def)
  qed
qed (simp add: times_of_def)

section \<open>A concrete client\<close>

lemma demo_service_good: "service_good (htService demo_server)"
  using start_inv [OF demo_starts [unfolded demo_started_def]] by (simp add: service_inv_def)

lemma demo_policy_shown:
  "\<exists>d. NewBackupPolicyFromModel (Some (backupPolicyToModel newBackupPolicy)) = Ok d"
  by (auto simp: NewBackupPolicyFromModel_def backupPolicyFromModel_def newBackupPolicy_def Let_def split: option.split)

lemma demo_post_status: "status_of demo_post = Some 201"
proof -
  obtain d where "NewBackupPolicyFromModel (Some (backupPolicyToModel newBackupPolicy)) = Ok d"
    using demo_policy_shown by blast
  then show ?thesis
    by (simp add: demo_post_def serve_def ConfigPolicyActionHandler_def addPolicy_def decoded_def demo_policy_read named_def
        change_def demo_server_def NewService_def current_def config_at_def NewClientManager_def demo_config_def NewConfig_def
        newPolicy_def emptyStore_def AddPolicy_def put_current_def put_store_def write_and_reply_def demo_handler_env_def
        demo_config_lib_def fileWriteConfiguration_def marshalConfig_def NewConfigFromModel_def with_text_def deref_def
        Let_def status_of_def reply_def)
qed

theorem acknowledged_means_written_witness:
  "\<exists>c data. current (fst demo_post) = Some c \<and>
     WriteConfiguration demo_config_lib (FileConfigurationManager ''abs.yml'') c = Ok data \<and> svFile (fst demo_post) = Some data"
  using acknowledged_means_written [OF demo_service_good _ _ demo_post_status [unfolded demo_post_def] refl]
  by (simp add: demo_post_def demo_handler_env_def demo_server_def NewService_def)

definition demo_rate_lib :: "nat rate_lib" where
  "demo_rate_lib = \<lparr>rlNew = (\<lambda>tps size. unat size), rlAllow = (\<lambda>now n. (0 < n, n - 1))\<rparr>"

definition demo_limited_post :: "(string, string, nat) HTTPServer \<times> (string, http_writer) outcome" where
  "demo_limited_post = serve_limited demo_netip demo_rate_lib demo_handler_env (Some ''10.0.0.1'') MethodPost
     (PolicyRequest ''q'' \<lparr>decodeJSON = Ok newBackupPolicy, decodeYAML = Err ''yaml''\<rparr>) demo_server"

theorem entity_requests_answered_witness:
  "status_of (htService (fst demo_limited_post), snd demo_limited_post) = Some 201"
proof -
  let ?r = "PolicyRequest ''q'' \<lparr>decodeJSON = Ok newBackupPolicy, decodeYAML = Err ''yaml''\<rparr>"
  have c: "current (htService demo_server) = Some demo_config"
    by (simp add: demo_server_def NewService_def current_def config_at_def NewClientManager_def)
  have "gets_through demo_netip demo_rate_lib (hmNow demo_handler_env) (Some ''10.0.0.1'') demo_server"
    by (simp add: gets_through_def limiter_of_def demo_rate_lib_def demo_server_def NewIPRateLimiter_def)
  moreover obtain d where "NewBackupPolicyFromModel (Some (backupPolicyToModel newBackupPolicy)) = Ok d"
    using demo_policy_shown by blast
  ultimately show ?thesis
    using entity_requests_answered [of ?r MethodPost demo_server demo_config demo_netip demo_rate_lib demo_handler_env "Some ''10.0.0.1''"
        "fst demo_limited_post" "snd demo_limited_post"] c
    by (simp add: demo_limited_post_def for_entity_def demo_policy_read demo_config_def NewConfig_def newPolicy_def emptyStore_def AddPolicy_def
        demo_handler_env_def demo_config_lib_def demo_server_def NewService_def fileWriteConfiguration_def marshalConfig_def
        NewConfigFromModel_def with_text_def deref_def)
qed

definition demo_restore :: handled where
  "demo_restore = serve demo_handler_env MethodPost
     (RestoreFullRequest \<lparr>decodeJSON = Ok demo_restore_request, decodeYAML = Err ''yaml''\<rparr>) (htService demo_server)"

lemma demo_restore_valid: "validateRestoreRequest demo_restore_request = Ok demo_restore_request"
  by (simp add: demo_restore_request_def demo_cluster_doc_def demo_restore_policy_def newStorage_def
      validateRestoreRequest_def validateCluster_def validateSeedNode_def validateStorage_def
      storageValidators_def validateLocalStorage_def validateRestorePolicy_def positive_def
      validateEncryption_def validateCompression_def validateRetry_def)

lemma demo_restore_accepted:
  obtains st m s1 task where "restoreRequestToModel demo_restore_request emptyStore = Ok (st, m)"
    and "demo_restore = (s1, Ok (Write (FormatInt 7) (WriteHeader StatusAccepted new_writer)))"
    and "rsClients (svRestore s1) = NewClientManager st" and "svTasks s1 = [task]"
proof -
  let ?s = "htService demo_server"
  have s: "rsClients (svRestore ?s) = NewClientManager emptyStore" "svTasks ?s = []"
    by (simp_all add: demo_server_def NewService_def demo_config_def)
  have "\<exists>x. restoreRequestToModel demo_restore_request emptyStore = Ok x"
    by (simp add: restoreRequestToModel_def demo_restore_request_def Let_def split_beta)
  then obtain st m where m: "restoreRequestToModel demo_restore_request emptyStore = Ok (st, m)" by auto
  have "recordsInBackup demo_env st m \<noteq> Panic p" for p
    using m by (auto simp: recordsInBackup_def outcome_simps restoreRequestToModel_def demo_restore_request_def alloc_defs Let_def
        storageToModel_def newStorage_def deref_def ReadFile_def CreateReader_connected connected_def demo_env_def demo_lib_def
        NewMetadataFromBytes_def demo_yaml_def split: option.splits prod.splits)
  then obtain n r where r: "Restore demo_env 7 (timeUnixMilli 100) m (svRestore (put_store st ?s)) = Ok (7, n, r)"
    using s by (cases "recordsInBackup demo_env st m") (auto simp: Restore_def Let_def put_store_def NewClientManager_def)
  have "rsClients r = NewClientManager st"
    using restore_clients_same(1) [OF r] s by (simp add: put_store_def NewClientManager_def)
  moreover have "demo_restore = ((put_restore r (put_store st ?s))\<lparr>svTasks := [RestoreTask 7 n m]\<rparr>,
      Ok (Write (FormatInt 7) (WriteHeader StatusAccepted new_writer)))"
    using m r s by (simp add: demo_restore_def serve_def RestoreFullHandler_def decoded_def demo_restore_valid Let_def
        demo_handler_env_def accepted_def reply_def put_restore_def put_store_def NewClientManager_def)
  ultimately show thesis using that m by (simp add: put_restore_def)
qed

theorem accepted_restore_settles_witness:
  "\<exists>task. svTasks (fst demo_restore) = [task] \<and> job_status (task_job task) (fst demo_restore) = Some JobStatusRunning \<and>
     (case run_task demo_handler_env task (fst demo_restore) of
        Ok s \<Rightarrow> job_status (task_job task) s = Some JobStatusDone \<or> job_status (task_job task) s = Some JobStatusFailed
      | Err e \<Rightarrow> False
      | Panic p \<Rightarrow> True)"
proof -
  obtain s1 where s1: "demo_restore = (s1, Ok (Write (FormatInt 7) (WriteHeader StatusAccepted new_writer)))"
    by (rule demo_restore_accepted)
  show ?thesis
    using accepted_restore_settles [OF s1 [unfolded demo_restore_def] _ disjI1 [OF refl] rtranclp.rtrancl_refl, of demo_handler_env]
    by (auto simp: s1 demo_server_def NewService_def)
qed

end
