(* ===== verification/ServiceThreads.thy ===== *)
theory ServiceThreads
  imports HandlerProps
begin

text \<open>
  The running service with its goroutines: while requests are handled, any number of backups and
  restores is on, and each goes on in parts. What stays true of the configuration, the clients and
  the handlers at every moment.
\<close>

section \<open>Goroutines of the service\<close>

text \<open>
  A goroutine is parked, in the backup of the handler with a given number, at some phase of its run,
  or in a restore with its client.
\<close>

datatype goroutine = Parked | Backing nat phase | Restoring nat

fun phase_at :: "nat \<Rightarrow> goroutine \<Rightarrow> phase" where
  "phase_at i (Backing j p) = (if i = j then p else Waiting)"
| "phase_at i g = Waiting"

fun taken :: "goroutine \<Rightarrow> nat list" where
  "taken Parked = []"
| "taken (Backing i p) = clients_held p"
| "taken (Restoring c) = [c]"

definition phases :: "nat \<Rightarrow> goroutine list \<Rightarrow> phase list" where
  "phases i gs = map (phase_at i) gs"

definition in_use :: "goroutine list \<Rightarrow> nat list" where
  "in_use gs = concat (map taken gs)"

definition put_backup :: "nat \<Rightarrow> routine_state \<Rightarrow> Service \<Rightarrow> Service" where
  "put_backup i t s =
     s\<lparr>svScheduler := (svScheduler s)\<lparr>ssHeap := (ssHeap (svScheduler s))[i := hsHandler t]\<rparr>,
       svRestore := (svRestore s)\<lparr>rsClients := hsPool t\<rparr>\<rparr>"

definition put_clients :: "ClientManagerImpl \<Rightarrow> Service \<Rightarrow> Service" where
  "put_clients cm s = put_restore ((svRestore s)\<lparr>rsClients := cm\<rparr>) s"

definition put_jobs :: "RestoreJobsHolder \<Rightarrow> Service \<Rightarrow> Service" where
  "put_jobs jobs s = put_restore ((svRestore s)\<lparr>rsJobs := jobs\<rparr>) s"

text \<open>
  A request is handled in one step. A backup goes on by the steps of the goroutines of its routine,
  on its handler and the clients as they are then. A restore was started by a request; it takes a
  client, or ends without one, and gives the client back at its end. What it does to the jobs is left open.
\<close>

inductive thread_step :: "Service \<times> goroutine list \<Rightarrow> Service \<times> goroutine list \<Rightarrow> bool" where
  serves: "thread_step (s, gs) (fst (serve env m r s), gs)"
| backup_begins: "k < length gs \<Longrightarrow> gs ! k = Parked \<Longrightarrow> i < length (ssHeap (svScheduler s)) \<Longrightarrow>
    thread_step (s, gs) (s, gs[k := Backing i Waiting])"
| backup_works: "k < length gs \<Longrightarrow> gs ! k = Backing i p \<Longrightarrow>
    hsHandler r = ssHeap (svScheduler s) ! i \<Longrightarrow> hsPool r = rsClients (svRestore s) \<Longrightarrow> routine_step (r, [p]) (t, [q]) \<Longrightarrow>
    thread_step (s, gs) (put_backup i t s, gs[k := Backing i q])"
| backup_ends: "k < length gs \<Longrightarrow> gs ! k = Backing i Waiting \<Longrightarrow> thread_step (s, gs) (s, gs[k := Parked])"
| restore_takes: "k < length gs \<Longrightarrow> gs ! k = Parked \<Longrightarrow> task \<in> set (svTasks s) \<Longrightarrow>
    GetClient lib (rsClients (svRestore s)) p = (cm, Ok c) \<Longrightarrow>
    thread_step (s, gs) ((put_clients cm s)\<lparr>svTasks := remove1 task (svTasks s)\<rparr>, gs[k := Restoring c])"
| restore_refused: "task \<in> set (svTasks s) \<Longrightarrow> GetClient lib (rsClients (svRestore s)) p = (cm, r) \<Longrightarrow> \<not> is_ok r \<Longrightarrow>
    thread_step (s, gs) ((put_jobs jobs (put_clients cm s))\<lparr>svTasks := remove1 task (svTasks s)\<rparr>, gs)"
| restore_fails: "task \<in> set (svTasks s) \<Longrightarrow>
    thread_step (s, gs) ((put_jobs jobs s)\<lparr>svTasks := remove1 task (svTasks s)\<rparr>, gs)"
| restore_works: "k < length gs \<Longrightarrow> gs ! k = Restoring c \<Longrightarrow> thread_step (s, gs) (put_jobs jobs s, gs)"
| restore_ends: "k < length gs \<Longrightarrow> gs ! k = Restoring c \<Longrightarrow>
    thread_step (s, gs) (put_clients (Close (rsClients (svRestore s)) c) s, gs[k := Parked])"

section \<open>One step of a backup\<close>

text \<open>A goroutine among others does what it does alone.\<close>

lemma routine_step_among:
  assumes "routine_step (r, [p]) (t, [q])" and "k < length ps" and "ps ! k = p"
  shows "routine_step (r, ps) (t, ps[k := q])"
proof -
  have same: "ps[k := p] = ps" using assms(3) by auto
  from assms(1) show ?thesis
    by (cases rule: routine_step.cases) (use assms(2,3) same in \<open>auto intro: routine_step.intros\<close>)
qed

definition handlers_ok :: "BackupRoutineHandler \<Rightarrow> phase list \<Rightarrow> bool" where
  "handlers_ok h ps \<longleftrightarrow>
     (bhFullHandlers h \<noteq> [] \<longrightarrow> (\<exists>k < length ps. \<exists>c. ps ! k = FullBackup c)) \<and>
     (bhIncrHandlers h \<noteq> [] \<longrightarrow> (\<exists>k < length ps. \<exists>c. ps ! k = IncrBackup c))"

lemma part_handlers:
  "t \<in> full_part env now c s \<Longrightarrow> bhIncrHandlers (hsHandler t) = bhIncrHandlers (hsHandler s)"
  "t \<in> incr_part env now c s \<Longrightarrow> bhFullHandlers (hsHandler t) = bhFullHandlers (hsHandler s)"
proof -
  show "bhIncrHandlers (hsHandler t) = bhIncrHandlers (hsHandler s)" if "t \<in> full_part env now c s"
    using that unfolding full_part_def
    by (elim insertE emptyE) (simp_all add: kept_other(1) [OF kept_start_full_all] kept_other(1) [OF kept_wait_full_all]
        kept_other(1) [OF kept_delete] kept_other(1) [OF kept_conf] record_full_def)
  show "bhFullHandlers (hsHandler t) = bhFullHandlers (hsHandler s)" if "t \<in> incr_part env now c s"
    using that unfolding incr_part_def
    by (elim insertE emptyE) (simp_all add: kept_other(2) [OF kept_start_incr_all] kept_other(2) [OF kept_wait_incr_all]
        record_incr_def)
qed

lemma handlers_ok_update:
  assumes "handlers_ok h ps" and "k < length ps" and "\<And>c. ps ! k = FullBackup c \<Longrightarrow> (\<exists>c'. q = FullBackup c') \<or> bhFullHandlers h' = []"
    and "\<And>c. ps ! k = IncrBackup c \<Longrightarrow> (\<exists>c'. q = IncrBackup c') \<or> bhIncrHandlers h' = []"
    and "bhFullHandlers h' = bhFullHandlers h \<or> bhFullHandlers h' = [] \<or> (\<exists>c. q = FullBackup c)"
    and "bhIncrHandlers h' = bhIncrHandlers h \<or> bhIncrHandlers h' = [] \<or> (\<exists>c. q = IncrBackup c)"
  shows "handlers_ok h' (ps[k := q])"
  unfolding handlers_ok_def
proof (intro conjI impI)
  assume n: "bhFullHandlers h' \<noteq> []"
  show "\<exists>j < length (ps[k := q]). \<exists>c. ps[k := q] ! j = FullBackup c"
  proof (cases "\<exists>c. q = FullBackup c")
    case False
    then have "bhFullHandlers h \<noteq> []" using n assms(5) by auto
    then obtain j c where "j < length ps" "ps ! j = FullBackup c" using assms(1) by (auto simp: handlers_ok_def)
    moreover from this have "j \<noteq> k" using assms(3) False n by blast
    ultimately show ?thesis by auto
  qed (use assms(2) in auto)
next
  assume n: "bhIncrHandlers h' \<noteq> []"
  show "\<exists>j < length (ps[k := q]). \<exists>c. ps[k := q] ! j = IncrBackup c"
  proof (cases "\<exists>c. q = IncrBackup c")
    case False
    then have "bhIncrHandlers h \<noteq> []" using n assms(6) by auto
    then obtain j c where "j < length ps" "ps ! j = IncrBackup c" using assms(1) by (auto simp: handlers_ok_def)
    moreover from this have "j \<noteq> k" using assms(4) False n by blast
    ultimately show ?thesis by auto
  qed (use assms(2) in auto)
qed

lemma setInProgress_handlers [simp]:
  "bhFullHandlers (hsHandler (setInProgress b s)) = bhFullHandlers (hsHandler s)"
  "bhIncrHandlers (hsHandler (setInProgress b s)) = bhIncrHandlers (hsHandler s)"
  "hsPool (setInProgress b s) = hsPool s"
  by (simp_all add: setInProgress_def)

lemma cleared_handlers [simp]:
  "bhFullHandlers (hsHandler (clearFull s)) = []" "bhIncrHandlers (hsHandler (clearFull s)) = bhIncrHandlers (hsHandler s)"
  "bhIncrHandlers (hsHandler (clearIncr s)) = []" "bhFullHandlers (hsHandler (clearIncr s)) = bhFullHandlers (hsHandler s)"
  "hsHandler (closeClient c s) = hsHandler s" "hsPool (clearFull s) = hsPool s" "hsPool (clearIncr s) = hsPool s"
  "hsPool (closeClient c s) = Close (hsPool s) c"
  by (simp_all add: clearFull_def clearIncr_def closeClient_def)

lemma step_handlers:
  assumes "routine_step (r, [p]) (t, [q])" and "handlers_ok (hsHandler r) ps" and "k < length ps" and "ps ! k = p"
  shows "handlers_ok (hsHandler t) (ps[k := q])"
  using assms(1)
  by (cases rule: routine_step.cases)
    (use assms(2-4) in \<open>auto intro!: handlers_ok_update [of "hsHandler r" ps] dest: takeClient_frame(1) part_handlers\<close>)

lemma Close_store: "cmStore (Close cm c) = cmStore cm"
  by (simp add: Close_def split: option.split)

lemma GetClient_store: "GetClient lib cm p = (cm1, r) \<Longrightarrow> same_routines (cmStore cm) (cmStore cm1)"
  using createClient_store by (auto simp: GetClient_def split: option.splits outcome.splits prod.splits)

lemma takeClient_store: "takeClient env s = (t, r) \<Longrightarrow> same_routines (the_store s) (the_store t)"
  using GetClient_store by (auto simp: takeClient_def split: option.splits prod.splits)

lemma step_store:
  assumes "routine_step (r, [p]) (t, [q])"
  shows "same_routines (the_store r) (the_store t)"
  using assms
  by (cases rule: routine_step.cases) (use part_frame(1) in \<open>force simp: Close_store dest: takeClient_store\<close>)+

section \<open>What every step keeps\<close>

text \<open>The clients of the goroutines that are not in a backup of the handler with number \<open>i\<close>.\<close>

fun taken_elsewhere :: "nat \<Rightarrow> goroutine \<Rightarrow> nat list" where
  "taken_elsewhere i (Backing j p) = (if i = j then [] else clients_held p)"
| "taken_elsewhere i g = taken g"

definition elsewhere :: "nat \<Rightarrow> goroutine list \<Rightarrow> nat list" where
  "elsewhere i gs = concat (map (taken_elsewhere i) gs)"

lemma in_use_split: "mset (held (phases i gs) @ elsewhere i gs) = mset (in_use gs)"
proof (induction gs)
  case (Cons g gs)
  have "mset (clients_held (phase_at i g)) + mset (taken_elsewhere i g) = mset (taken g)" by (cases g) simp_all
  with Cons show ?case by (simp add: held_def phases_def elsewhere_def in_use_def) (metis add.left_commute add.assoc)
qed (simp add: held_def phases_def elsewhere_def in_use_def)

lemma in_use_update:
  "k < length gs \<Longrightarrow> mset (in_use (gs[k := g])) + mset (taken (gs ! k)) = mset (in_use gs) + mset (taken g)"
proof (induction gs arbitrary: k)
  case (Cons h gs)
  then show ?case by (cases k) (simp_all add: in_use_def ac_simps)
qed simp

lemma held_one: "length (clients_held p) \<le> 1"
  by (cases p) simp_all

lemma elsewhere_length: "length (elsewhere i gs) \<le> length gs"
proof (induction gs)
  case (Cons g gs)
  have "length (taken_elsewhere i g) \<le> 1" using held_one by (cases g) simp_all
  with Cons show ?case by (simp add: elsewhere_def)
qed (simp add: elsewhere_def)

lemma in_use_length: "length (in_use gs) \<le> length gs"
proof (induction gs)
  case (Cons g gs)
  have "length (taken g) \<le> 1" using held_one by (cases g) simp_all
  with Cons show ?case by (simp add: in_use_def)
qed (simp add: in_use_def)

lemma phases_simps [simp]:
  "length (phases i gs) = length gs" "k < length gs \<Longrightarrow> phases i gs ! k = phase_at i (gs ! k)"
  "phases i (gs[k := g]) = (phases i gs)[k := phase_at i g]"
  by (simp_all add: phases_def map_update)

lemma elsewhere_update:
  "k < length gs \<Longrightarrow> taken_elsewhere i g = taken_elsewhere i (gs ! k) \<Longrightarrow> elsewhere i (gs[k := g]) = elsewhere i gs"
  by (metis elsewhere_def list_update_id map_update)

text \<open>The lock of a handler is held exactly by the one goroutine in a full run on it.\<close>

definition lock_ok :: "BackupRoutineHandler \<Rightarrow> phase list \<Rightarrow> bool" where
  "lock_ok h ps \<longleftrightarrow>
     (fullBackupInProgress (bhBackend h) \<longleftrightarrow> (\<exists>i < length ps. full_phase (ps ! i))) \<and>
     (\<forall>i < length ps. \<forall>j < length ps. full_phase (ps ! i) \<longrightarrow> full_phase (ps ! j) \<longrightarrow> i = j)"

definition threads_sound :: "Service \<times> goroutine list \<Rightarrow> bool" where
  "threads_sound = (\<lambda>(s, gs).
     service_good s \<and> config_at (svRestoreConfig s) s \<noteq> None \<and> pool_inv (rsClients (svRestore s)) (in_use gs) \<and>
     (\<forall>i < length (ssHeap (svScheduler s)).
        lock_ok (ssHeap (svScheduler s) ! i) (phases i gs) \<and> handlers_ok (ssHeap (svScheduler s) ! i) (phases i gs)) \<and>
     (\<forall>g \<in> set gs. \<forall>i p. g = Backing i p \<longrightarrow> i < length (ssHeap (svScheduler s))) \<and> 2 * length gs + 1 < 2 ^ 64)"

lemma sound_parts:
  assumes "threads_sound (s, gs)"
  shows "service_good s" "config_at (svRestoreConfig s) s \<noteq> None" "pool_inv (rsClients (svRestore s)) (in_use gs)"
    and "i < length (ssHeap (svScheduler s)) \<Longrightarrow> lock_ok (ssHeap (svScheduler s) ! i) (phases i gs)"
    and "i < length (ssHeap (svScheduler s)) \<Longrightarrow> handlers_ok (ssHeap (svScheduler s) ! i) (phases i gs)"
    and "Backing i p \<in> set gs \<Longrightarrow> i < length (ssHeap (svScheduler s))" and "2 * length gs + 1 < 2 ^ 64"
  using assms by (auto simp: threads_sound_def)

lemma unused_handler:
  assumes "\<And>p. Backing i p \<notin> set gs" and "handler_idle h"
  shows "lock_ok h (phases i gs)" and "handlers_ok h (phases i gs)"
proof -
  have "phase_at i (gs ! k) = Waiting" if "k < length gs" for k
    using assms(1) nth_mem [OF that] by (cases "gs ! k") auto
  then show "lock_ok h (phases i gs)" "handlers_ok h (phases i gs)"
    using assms(2) by (auto simp: lock_ok_def handlers_ok_def handler_idle_def)
qed

lemma serves_sound:
  assumes "threads_sound (s, gs)"
  shows "threads_sound (fst (serve env m r s), gs)"
proof -
  let ?s = "fst (serve env m r s)" and ?heap = "ssHeap (svScheduler s)"
  note p = sound_parts [OF assms]
  have "service_inv (in_use gs) ?heap s" using p(1-3) by (simp add: service_inv_def)
  then have i: "service_inv (in_use gs) ?heap ?s" by (rule serve_inv)
  then obtain new where h: "ssHeap (svScheduler ?s) = ?heap @ new" "list_all handler_idle new"
    by (auto simp: service_inv_def heap_from_def)
  have "lock_ok ((?heap @ new) ! j) (phases j gs) \<and> handlers_ok ((?heap @ new) ! j) (phases j gs)" if "j < length (?heap @ new)" for j
  proof (cases "j < length ?heap")
    case True
    then show ?thesis using p(4,5) by (simp add: nth_append)
  next
    case False
    then have "Backing j q \<notin> set gs" for q using p(6) by blast
    moreover have "handler_idle ((?heap @ new) ! j)"
      using False that h(2) by (simp add: nth_append list_all_length)
    ultimately show ?thesis using unused_handler by blast
  qed
  then show ?thesis using i h(1) p(6,7) by (fastforce simp: threads_sound_def service_inv_def)
qed

lemma service_good_clients:
  assumes "service_good s" and "same_routines (service_store s) (service_store s')"
    and "svConfigs s' = svConfigs s" and "svConfig s' = svConfig s"
  shows "service_good s'"
proof (rule service_good_store [OF assms(1) _ assms(2)])
  show "current s' = map_option (\<lambda>c. (service_store s', snd c)) (current s)"
    using assms(3,4) by (simp add: current_def config_at_def option.map_comp comp_def cong: option.case_cong if_cong)
qed

text \<open>The steps of a backup.\<close>

lemma backup_sound:
  assumes "threads_sound (s, gs)" and "k < length gs" and "gs ! k = Backing i p"
    and "hsHandler r = ssHeap (svScheduler s) ! i" and "hsPool r = rsClients (svRestore s)" and step: "routine_step (r, [p]) (t, [q])"
  shows "threads_sound (put_backup i t s, gs[k := Backing i q])"
proof -
  let ?heap = "ssHeap (svScheduler s)" and ?gs = "gs[k := Backing i q]"
  note p = sound_parts [OF assms(1)]
  have i: "i < length ?heap" using p(6) nth_mem [OF assms(2)] assms(3) by metis
  have k: "k < length (phases i gs)" "phases i gs ! k = p" using assms(2,3) by simp_all
  have more: "routine_step (r, phases i gs) (t, phases i ?gs)"
    using routine_step_among [OF step k] by simp
  have "pool_inv (hsPool r) (held (phases i gs) @ elsewhere i gs)"
    using p(3) assms(5) in_use_split by (metis pool_inv_mset)
  moreover have "length gs + length (elsewhere i gs) + 1 < 2 ^ 64" using p(7) elsewhere_length [of i gs] by simp
  ultimately have "threads_inv (elsewhere i gs) (r, phases i gs)"
    using p(4) [OF i] assms(4) by (simp add: threads_inv_def lock_ok_def)
  from routine_step_inv [OF more this]
  have l: "lock_ok (hsHandler t) (phases i ?gs)" and "pool_inv (hsPool t) (held (phases i ?gs) @ elsewhere i gs)"
    unfolding threads_inv_def lock_ok_def by blast+
  moreover have "elsewhere i ?gs = elsewhere i gs" using assms(2,3) by (intro elsewhere_update) simp_all
  ultimately have pool: "pool_inv (hsPool t) (in_use ?gs)" using in_use_split [of i ?gs] by (metis pool_inv_mset)
  have h: "handlers_ok (hsHandler t) (phases i ?gs)"
    using step_handlers [OF step, of "phases i gs" k] p(5) [OF i] assms(4) k by simp
  have "lock_ok (?heap[i := hsHandler t] ! j) (phases j ?gs) \<and> handlers_ok (?heap[i := hsHandler t] ! j) (phases j ?gs)"
    if "j < length ?heap" for j
  proof (cases "j = i")
    case True
    then show ?thesis using l h i by simp
  next
    case False
    then have "phases j ?gs = phases j gs" using assms(2,3) by (metis list_update_id phase_at.simps(1) phases_simps(2,3))
    then show ?thesis using p(4,5) [OF that] False by simp
  qed
  moreover have "service_good (put_backup i t s)"
    using service_good_clients [OF p(1)] step_store [OF step] assms(5) by (simp add: put_backup_def)
  moreover have "config_at (svRestoreConfig s) (put_backup i t s) = config_at (svRestoreConfig s) s"
    by (simp add: config_at_def put_backup_def cong: option.case_cong if_cong)
  moreover have "\<forall>g \<in> set ?gs. \<forall>j q. g = Backing j q \<longrightarrow> j < length ?heap"
    using p(6) i set_update_subset_insert [of gs k "Backing i q"] by blast
  ultimately show ?thesis using pool p(2,7) by (simp add: threads_sound_def put_backup_def)
qed

text \<open>A goroutine that changes what it does, when none of the handlers is concerned.\<close>

lemma phases_same: "k < length gs \<Longrightarrow> (\<And>i. phase_at i g = phase_at i (gs ! k)) \<Longrightarrow> phases i (gs[k := g]) = phases i gs"
  by (metis list_update_id phases_simps(2,3))

lemma sound_service:
  assumes "threads_sound (s, gs)" and "same_routines (service_store s) (service_store s')"
    and "pool_inv (rsClients (svRestore s')) (in_use gs')" and "svScheduler s' = svScheduler s"
    and "svConfigs s' = svConfigs s" and "svConfig s' = svConfig s" and "svRestoreConfig s' = svRestoreConfig s"
    and "\<And>i. phases i gs' = phases i gs" and "length gs' = length gs"
    and "\<And>i p. Backing i p \<in> set gs' \<Longrightarrow> i < length (ssHeap (svScheduler s))"
  shows "threads_sound (s', gs')"
proof -
  have "service_good s'" using service_good_clients assms(1,2,5,6) sound_parts(1) by blast
  moreover have "config_at (svRestoreConfig s') s' = config_at (svRestoreConfig s) s" using assms(5,7) by (simp add: config_at_def cong: option.case_cong if_cong)
  ultimately show ?thesis using assms(3,4,8-) sound_parts [OF assms(1)] by (auto simp: threads_sound_def)
qed

lemma set_update_Backing:
  "threads_sound (s, gs) \<Longrightarrow> Backing i p \<in> set (gs[k := g]) \<Longrightarrow> (\<And>i p. g \<noteq> Backing i p) \<Longrightarrow> i < length (ssHeap (svScheduler s))"
  using set_update_subset_insert [of gs k g] sound_parts(6) by (metis insertE subsetD)

lemma pool_without:
  assumes "pool_inv cm (in_use gs)" and "k < length gs" and "gs ! k = Restoring c"
  shows "pool_inv (Close cm c) (in_use (gs[k := Parked]))"
proof -
  have "Restoring c \<in> set gs" using assms(2,3) nth_mem by metis
  then have c: "c \<in> set (in_use gs)" by (auto simp: in_use_def intro!: bexI [of _ "Restoring c"])
  have "mset (remove1 c (in_use gs)) = mset (in_use (gs[k := Parked]))"
    using in_use_update [OF assms(2), of Parked] assms(3) by simp (metis add_mset_remove_trivial)
  then show ?thesis using manager.close_ok [OF assms(1) c] pool_inv_mset by blast
qed

lemma thread_step_sound:
  assumes "thread_step c c'" and "threads_sound c"
  shows "threads_sound c'"
  using assms
proof (induction rule: thread_step.induct)
  case (serves s gs env m r)
  then show ?case by (rule serves_sound)
next
  case (backup_begins k gs i s)
  note p = sound_parts [OF backup_begins.prems]
  have "taken (gs ! k) = taken (Backing i Waiting)" using backup_begins.hyps by simp
  then have "mset (in_use (gs[k := Backing i Waiting])) = mset (in_use gs)"
    using in_use_update [OF backup_begins.hyps(1)] by (metis add_right_cancel)
  then have "pool_inv (rsClients (svRestore s)) (in_use (gs[k := Backing i Waiting]))" using p(3) pool_inv_mset by metis
  moreover have "phases j (gs[k := Backing i Waiting]) = phases j gs" for j
    using backup_begins.hyps by (intro phases_same) simp_all
  moreover have "j < length (ssHeap (svScheduler s))" if "Backing j q \<in> set (gs[k := Backing i Waiting])" for j q
    using that p(6) backup_begins.hyps(3) set_update_subset_insert [of gs k "Backing i Waiting"] by blast
  ultimately show ?case using sound_service [OF backup_begins.prems] by simp
next
  case (backup_works k gs i p r s t q)
  then show ?case by (intro backup_sound)
next
  case (backup_ends k gs i s)
  note p = sound_parts [OF backup_ends.prems]
  have "taken (gs ! k) = taken Parked" using backup_ends.hyps by simp
  then have "mset (in_use (gs[k := Parked])) = mset (in_use gs)"
    using in_use_update [OF backup_ends.hyps(1)] by (metis add_right_cancel)
  then have "pool_inv (rsClients (svRestore s)) (in_use (gs[k := Parked]))" using p(3) pool_inv_mset by metis
  moreover have "phases j (gs[k := Parked]) = phases j gs" for j
    using backup_ends.hyps by (intro phases_same) simp_all
  ultimately show ?case using sound_service [OF backup_ends.prems] set_update_Backing [OF backup_ends.prems] by simp
next
  case (restore_takes k gs task s lib p cm c)
  note s = sound_parts [OF restore_takes.prems]
  have "length (in_use gs) + 1 < 2 ^ 64" using s(7) in_use_length [of gs] by simp
  from manager.get_ok [OF s(3) this restore_takes.hyps(4)] have "pool_inv cm (c # in_use gs)" .
  moreover have "mset (in_use (gs[k := Restoring c])) = mset (c # in_use gs)"
    using in_use_update [OF restore_takes.hyps(1), of "Restoring c"] restore_takes.hyps(2) by simp
  ultimately have "pool_inv cm (in_use (gs[k := Restoring c]))" using pool_inv_mset by metis
  moreover have "phases j (gs[k := Restoring c]) = phases j gs" for j
    using restore_takes.hyps by (intro phases_same) simp_all
  ultimately show ?case using GetClient_store [OF restore_takes.hyps(4)]
    by (intro sound_service [OF restore_takes.prems])
      (simp_all add: put_clients_def put_restore_def set_update_Backing [OF restore_takes.prems])
next
  case (restore_refused task s lib p cm r gs jobs)
  then show ?case using manager.get_other [OF sound_parts(3) restore_refused.hyps(2,3)] GetClient_store sound_parts(6)
    by (intro sound_service [OF restore_refused.prems]) (auto simp: put_clients_def put_jobs_def put_restore_def)
next
  case (restore_fails task s gs jobs)
  then show ?case using sound_parts(3,6)
    by (intro sound_service [OF restore_fails.prems]) (auto simp: put_jobs_def put_restore_def)
next
  case (restore_works k gs c s jobs)
  then show ?case using sound_parts(3,6)
    by (intro sound_service [OF restore_works.prems]) (auto simp: put_jobs_def put_restore_def)
next
  case (restore_ends k gs c s)
  have "phases j (gs[k := Parked]) = phases j gs" for j
    using restore_ends.hyps by (intro phases_same) simp_all
  then show ?case using pool_without [OF sound_parts(3) restore_ends.hyps] restore_ends.prems
    by (intro sound_service [OF restore_ends.prems])
      (simp_all add: put_clients_def put_restore_def Close_store set_update_Backing [OF restore_ends.prems])
qed

section \<open>Whole runs\<close>

text \<open>
  Every request, restore and backup that runs alone to its end is a sequence of these steps by a
  goroutine that is parked before and after.
\<close>

lemma backing_steps:
  assumes "routine_step\<^sup>*\<^sup>* (r, [p]) (t, ps)" and "k < length gs" and "gs ! k = Backing i p"
    and "hsHandler r = ssHeap (svScheduler s) ! i" and "hsPool r = rsClients (svRestore s)" and "i < length (ssHeap (svScheduler s))"
  shows "\<exists>q. ps = [q] \<and> thread_step\<^sup>*\<^sup>* (s, gs) (put_backup i t s, gs[k := Backing i q])"
  using assms(1)
proof (induction "(t, ps)" arbitrary: t ps rule: rtranclp_induct)
  case base
  have "put_backup i r s = s" using assms(4-6) by (simp add: put_backup_def)
  moreover have "gs[k := Backing i p] = gs" using assms(3) by (metis list_update_id)
  ultimately show ?case by simp
next
  case (step c u qs)
  obtain t ps where c: "c = (t, ps)" by (cases c)
  from step.hyps(3) [OF c] obtain q where q: "ps = [q]" and r: "thread_step\<^sup>*\<^sup>* (s, gs) (put_backup i t s, gs[k := Backing i q])"
    by blast
  have "length qs = 1" using step.hyps(2) c q by (auto elim: routine_step.cases)
  then obtain q' where q': "qs = [q']" by (auto simp: length_Suc_conv)
  let ?s = "put_backup i t s" and ?gs = "gs[k := Backing i q]"
  have "thread_step (?s, ?gs) (put_backup i u ?s, ?gs[k := Backing i q'])"
    using step.hyps(2) c q q' assms(2,6) by (intro backup_works [where r = t and p = q]) (simp_all add: put_backup_def)
  moreover have "put_backup i u ?s = put_backup i u s" by (simp add: put_backup_def)
  ultimately show ?case using r q' by (auto intro: rtranclp.rtrancl_into_rtrancl)
qed

lemma backup_whole:
  assumes "i < length (ssHeap (svScheduler s))" and "k < length gs" and "gs ! k = Parked"
  shows "thread_step\<^sup>*\<^sup>* (s, gs) (run_backup rr i s, gs)"
proof -
  let ?r = "routine_state_of i s" and ?gs = "gs[k := Backing i Waiting]"
  have run: "routine_step\<^sup>*\<^sup>* (?r, [Waiting]) (run_step rr ?r, [Waiting])"
    using full_run_works [of 0 "[Waiting]"] incr_run_works [of 0 "[Waiting]"] by (auto simp: run_step_def)
  have v: "k < length ?gs" "?gs ! k = Backing i Waiting"
    "hsHandler ?r = ssHeap (svScheduler s) ! i" "hsPool ?r = rsClients (svRestore s)"
    using assms by (simp_all add: routine_state_of_def)
  from backing_steps [OF run v assms(1)]
  have "thread_step\<^sup>*\<^sup>* (s, ?gs) (put_backup i (run_step rr ?r) s, ?gs)" by simp
  moreover have "put_backup i (run_step rr ?r) s = run_backup rr i s" by (simp add: put_backup_def run_backup_def Let_def)
  ultimately have w: "thread_step\<^sup>*\<^sup>* (s, ?gs) (run_backup rr i s, ?gs)" by simp
  have "thread_step (s, gs) (s, ?gs)" using assms by (intro backup_begins)
  moreover have "thread_step (run_backup rr i s, ?gs) (run_backup rr i s, ?gs[k := Parked])"
    using v by (intro backup_ends [of _ _ i])
  moreover have "?gs[k := Parked] = gs" using assms(3) by (metis list_update_id list_update_overwrite)
  ultimately show ?thesis using w by (metis converse_rtranclp_into_rtranclp rtranclp.rtrancl_into_rtrancl)
qed

lemma run_task_changes:
  assumes "run_task env task s = Ok s'"
  obtains r where "s' = put_restore r s" and "borrows (rsClients (svRestore s)) (rsClients r)"
proof (cases task)
  case (RestoreTask jobID n request)
  then obtain r where "restoreSync (hmRestore env) jobID n request (svRestore s) = Ok r" "s' = put_restore r s"
    using assms by (auto simp: run_task_def outcome_simps)
  then show thesis using that restore_borrows(1) by blast
next
  case (TimestampTask jobID reader fulls request)
  then obtain config r tr where "s' = put_restore r s"
    "restoreByTimeSync (hmRestore env) config (backendText (rvTimeText (hmRestore env)))
       (FindIncrementalBackupsForNamespace (hmSort env) (rvCodec (hmRestore env)) (rvStorage (hmRestore env)) (service_store s) reader)
       request jobID fulls (svRestore s) = Ok (r, tr)"
    using assms by (auto simp: run_task_def outcome_simps split: option.splits)
  then show thesis using that restore_borrows(2) by blast
qed

lemma borrows_cases:
  assumes "borrows cm cm'"
  obtains "cm' = cm" | lib p cm1 c where "GetClient lib cm p = (cm1, Ok c)" "cm' = Close cm1 c"
    | lib p q where "GetClient lib cm p = (cm', q)" "\<not> is_ok q"
proof (cases "cm' = cm")
  case False
  then obtain lib p cm1 r where g: "GetClient lib cm p = (cm1, r)" "case r of Ok c \<Rightarrow> cm' = Close cm1 c | _ \<Rightarrow> cm' = cm1"
    using assms unfolding borrows_def by blast
  then show thesis using that by (cases r) simp_all
qed

lemma restore_whole:
  assumes "task \<in> set (svTasks s)" and "run_task env task s = Ok s'" and "k < length gs" and "gs ! k = Parked"
  shows "thread_step\<^sup>*\<^sup>* (s, gs) (s'\<lparr>svTasks := remove1 task (svTasks s)\<rparr>, gs)"
proof -
  obtain r where r: "s' = put_restore r s" "borrows (rsClients (svRestore s)) (rsClients r)"
    using run_task_changes [OF assms(2)] .
  let ?cm = "rsClients (svRestore s)" and ?ts = "remove1 task (svTasks s)"
  from r(2) consider "rsClients r = ?cm"
    | lib p cm c where "GetClient lib ?cm p = (cm, Ok c)" "rsClients r = Close cm c"
    | lib p q where "GetClient lib ?cm p = (rsClients r, q)" "\<not> is_ok q"
    by (rule borrows_cases)
  then show ?thesis
  proof cases
    case 1
    have "thread_step (s, gs) ((put_jobs (rsJobs r) s)\<lparr>svTasks := ?ts\<rparr>, gs)" by (rule restore_fails [OF assms(1)])
    moreover have "(svRestore s)\<lparr>rsJobs := rsJobs r\<rparr> = r" using 1 by (intro restore_state.equality) simp_all
    ultimately show ?thesis using r(1) by (simp add: put_jobs_def put_restore_def)
  next
    case (2 lib p cm c)
    let ?gs = "gs[k := Restoring c]" and ?s = "(put_clients cm s)\<lparr>svTasks := ?ts\<rparr>"
    have v: "k < length ?gs" "?gs ! k = Restoring c" "?gs[k := Parked] = gs"
      using assms(3,4) by (simp_all, metis list_update_id)
    have "thread_step (s, gs) (?s, ?gs)" by (rule restore_takes [OF assms(3,4,1) 2(1)])
    moreover have "thread_step (?s, ?gs) (put_jobs (rsJobs r) ?s, ?gs)" by (rule restore_works [OF v(1,2)])
    moreover have "thread_step (put_jobs (rsJobs r) ?s, ?gs) (put_clients (Close cm c) (put_jobs (rsJobs r) ?s), gs)"
      using restore_ends [OF v(1,2), of "put_jobs (rsJobs r) ?s"] v(3) by (simp add: put_jobs_def put_clients_def put_restore_def)
    moreover have "put_clients (Close cm c) (put_jobs (rsJobs r) ?s) = s'\<lparr>svTasks := ?ts\<rparr>"
      using r(1) 2(2) by (simp add: put_jobs_def put_clients_def put_restore_def)
    ultimately show ?thesis by (metis converse_rtranclp_into_rtranclp rtranclp.rtrancl_refl)
  next
    case (3 lib p q)
    have "thread_step (s, gs) ((put_jobs (rsJobs r) (put_clients (rsClients r) s))\<lparr>svTasks := ?ts\<rparr>, gs)"
      by (rule restore_refused [OF assms(1) 3(1,2)])
    moreover have "(svRestore s)\<lparr>rsClients := rsClients r, rsJobs := rsJobs r\<rparr> = r" by (intro restore_state.equality) simp_all
    ultimately show ?thesis using r(1) by (simp add: put_jobs_def put_clients_def put_restore_def)
  qed
qed

lemma service_step_whole:
  assumes "service_step s s'" and "Parked \<in> set gs"
  shows "thread_step\<^sup>*\<^sup>* (s, gs) (s', gs)"
proof -
  obtain k where k: "k < length gs" "gs ! k = Parked" using assms(2) by (metis in_set_conv_nth)
  from assms(1) show ?thesis
  proof cases
    case (request env m r)
    then show ?thesis using serves by auto
  next
    case (restore task env u)
    then show ?thesis using restore_whole [OF _ _ k] by blast
  next
    case (backup i rr)
    then show ?thesis using backup_whole [OF _ k] by blast
  qed
qed

section \<open>The running service\<close>

text \<open>
  C2: From the start of the program on, while any number of backups and restores goes on in parts and
  requests come in between, one at a time: the service holds a well-formed configuration in which
  every storage, policy and cluster of a routine is an entry; no client that a backup or a restore has
  taken is closed; on each handler at most one goroutine is in a full backup, and the lock is held exactly then; and
  whenever no backup or restore is on, every client has been given back and is closed and no handler is
  locked or holds backups. Every request, restore and backup as the code runs it to its end is a sequence of such parts.
  (Requests that overlap each other are the subject of C4, C39 and C40: two of them can leave the configuration
  unsound. The goroutines of the library that a failed backup leaves behind are not goroutines of the service.)
\<close>

theorem service_stays_sound:
  assumes "startService env ni configFile remote = Ok h" and "2 * n + 1 < 2 ^ 64"
    and "thread_step\<^sup>*\<^sup>* (htService h, replicate n Parked) (s, gs)"
  shows "(\<exists>c. current s = Some c \<and> wf_conf c \<and> conf_sound c) \<and>
    (\<forall>g \<in> set gs. \<forall>c \<in> set (taken g). c \<notin> set (cmClosed (rsClients (svRestore s)))) \<and>
    (\<forall>i < length (ssHeap (svScheduler s)).
       (fullBackupInProgress (bhBackend (ssHeap (svScheduler s) ! i)) \<longleftrightarrow> (\<exists>k < length gs. full_phase (phase_at i (gs ! k)))) \<and>
       (\<forall>j < length gs. \<forall>k < length gs. full_phase (phase_at i (gs ! j)) \<longrightarrow> full_phase (phase_at i (gs ! k)) \<longrightarrow> j = k)) \<and>
    (set gs \<subseteq> {Parked} \<longrightarrow> pool_inv (rsClients (svRestore s)) [] \<and>
       (\<forall>x \<in> set (ssHeap (svScheduler s)).
          \<not> fullBackupInProgress (bhBackend x) \<and> bhFullHandlers x = [] \<and> bhIncrHandlers x = [])) \<and>
    (Parked \<in> set gs \<longrightarrow> (\<forall>s'. service_step s s' \<longrightarrow> thread_step\<^sup>*\<^sup>* (s, gs) (s', gs)))"
proof -
  have start: "threads_sound (htService h, replicate n Parked)"
  proof -
    have i: "service_inv [] [] (htService h)" by (rule start_inv [OF assms(1)])
    then have "lock_ok x (phases j (replicate n Parked)) \<and> handlers_ok x (phases j (replicate n Parked))"
      if "x \<in> set (ssHeap (svScheduler (htService h)))" for x j
      using that unused_handler [of j "replicate n Parked" x] by (auto simp: service_inv_def list_all_iff)
    moreover have "in_use (replicate n Parked) = []" by (induction n) (simp_all add: in_use_def)
    ultimately show ?thesis using i assms(2) by (auto simp: threads_sound_def service_inv_def)
  qed
  from assms(3) start have sound: "threads_sound (s, gs)"
    by (induction rule: rtranclp_induct) (auto intro: thread_step_sound)
  note p = sound_parts [OF this]
  have "\<exists>c. current s = Some c \<and> wf_conf c \<and> conf_sound c" using p(1) by (auto simp: service_good_def conf_good_def)
  moreover have "c \<notin> set (cmClosed (rsClients (svRestore s)))" if "g \<in> set gs" "c \<in> set (taken g)" for g c
    using that by (intro manager.open_while_used [OF p(3)]) (auto simp: in_use_def)
  moreover have quiet: "pool_inv (rsClients (svRestore s)) []" "phases i gs = replicate (length gs) Waiting" if "set gs \<subseteq> {Parked}" for i
  proof -
    have r: "gs = replicate (length gs) Parked" using that by (auto intro: replicate_eqI)
    have "in_use (replicate m Parked) = []" for m by (induction m) (simp_all add: in_use_def)
    then show "pool_inv (rsClients (svRestore s)) []" using p(3) r by metis
    show "phases i gs = replicate (length gs) Waiting" using r by (metis map_replicate phase_at.simps(2) phases_def)
  qed
  moreover have "\<not> fullBackupInProgress (bhBackend x) \<and> bhFullHandlers x = [] \<and> bhIncrHandlers x = []"
    if q: "set gs \<subseteq> {Parked}" and x: "x \<in> set (ssHeap (svScheduler s))" for x
  proof -
    obtain i where i: "i < length (ssHeap (svScheduler s))" "x = ssHeap (svScheduler s) ! i" using x by (metis in_set_conv_nth)
    show ?thesis using p(4,5) [OF i(1)] unfolding i(2) quiet(2) [OF q] by (auto simp: lock_ok_def handlers_ok_def)
  qed
  moreover have "lock_ok (ssHeap (svScheduler s) ! i) (phases i gs)" if "i < length (ssHeap (svScheduler s))" for i
    by (rule p(4) [OF that])
  ultimately show ?thesis using service_step_whole by (auto simp: lock_ok_def)
qed

text \<open>A restore is on, with its client, while a policy is added.\<close>

lemma demo_client_taken:
  "case restoreRequestToModel demo_restore_request emptyStore of
     Ok (st, m) \<Rightarrow> (case GetClient (rvClients demo_env) (NewClientManager st) (Some 0) of (cm, Ok c) \<Rightarrow> c = 0 | _ \<Rightarrow> False)
   | _ \<Rightarrow> False"
  by code_simp

theorem service_stays_sound_witness:
  "\<exists>s c. thread_step\<^sup>*\<^sup>* (htService demo_server, [Parked]) (s, [Restoring 0]) \<and>
     current s = Some c \<and> wf_conf c \<and> conf_sound c \<and> 0 \<notin> set (cmClosed (rsClients (svRestore s)))"
proof -
  let ?s1 = "fst demo_restore"
  obtain st m task where m: "restoreRequestToModel demo_restore_request emptyStore = Ok (st, m)"
    and c: "rsClients (svRestore ?s1) = NewClientManager st" and task: "svTasks ?s1 = [task]"
    using demo_restore_accepted by (metis fst_conv)
  obtain cm where cm: "GetClient (rvClients demo_env) (rsClients (svRestore ?s1)) (Some 0) = (cm, Ok 0)"
    using demo_client_taken unfolding m c by (auto split: prod.splits outcome.splits)
  let ?s2 = "(put_clients cm ?s1)\<lparr>svTasks := []\<rparr>"
  let ?s3 = "fst (serve demo_handler_env MethodPost
    (PolicyRequest ''q'' \<lparr>decodeJSON = Ok newBackupPolicy, decodeYAML = Err ''yaml''\<rparr>) ?s2)"
  have "thread_step (htService demo_server, [Parked]) (?s1, [Parked])" unfolding demo_restore_def by (rule serves)
  moreover have "thread_step (?s1, [Parked]) (?s2, [Restoring 0])"
    using restore_takes [of 0 "[Parked]" task ?s1 "rvClients demo_env" "Some 0" cm 0] task cm by simp
  moreover have "thread_step (?s2, [Restoring 0]) (?s3, [Restoring 0])" by (rule serves)
  ultimately have r: "thread_step\<^sup>*\<^sup>* (htService demo_server, replicate 1 Parked) (?s3, [Restoring 0])" by simp
  from service_stays_sound [OF demo_starts [unfolded demo_started_def] _ r] r show ?thesis by (auto simp: exI)
qed

end
