(* ===== verification/RequestThreads.thy ===== *)
theory RequestThreads
  imports ServiceThreads
begin

text \<open>
  Requests that change the configuration, at the same time. Each is a goroutine of the HTTP server;
  the changes in memory are atomic (\<open>model.Config\<close> has a mutex), and so is the write of the file
  manager, which holds its own mutex while it marshals and writes, but not the write of the
  storage manager. A snapshot of the configuration is taken to be atomic.
\<close>

section \<open>Writers\<close>

text \<open>\<open>WriteConfiguration\<close> makes the bytes of the configuration and stores them: whether the manager has a mutex around both.\<close>

fun serialized :: "Manager \<Rightarrow> bool" where
  "serialized (FileConfigurationManager path) = True"
| "serialized m = False"

section \<open>Changes in memory\<close>

inductive config_op :: "(conf \<Rightarrow> conf_result) \<Rightarrow> bool" where
  op_add_storage: "config_op (with_storage v (AddStorage name))"
| op_update_storage: "config_op (with_storage v (UpdateStorage name))"
| op_delete_storage: "config_op (DeleteStorage name)"
| op_add_policy: "config_op (with_policy p (AddPolicy name))"
| op_update_policy: "config_op (with_policy p (UpdatePolicy name))"
| op_delete_policy: "config_op (DeletePolicy name)"
| op_add_cluster: "config_op (with_cluster cl (AddCluster name))"
| op_update_cluster: "config_op (with_cluster cl (UpdateCluster name))"
| op_delete_cluster: "config_op (DeleteCluster name)"
| op_delete_routine: "config_op (DeleteRoutine name)"

definition routine_op :: "(string \<Rightarrow> ptr \<Rightarrow> conf \<Rightarrow> conf_result) \<Rightarrow> bool" where
  "routine_op f \<longleftrightarrow> f = AddRoutine \<or> f = UpdateRoutine"

section \<open>Requests in steps\<close>

text \<open>
  Where a request is. The numbers are ghosts: \<open>Changed k\<close> made the change with number \<open>k\<close>,
  \<open>Marshalled k v data\<close> then marshalled the configuration after change \<open>v\<close>. A routine's document
  is resolved against the configuration before the routine is added, in a step of its own. A request
  is \<open>Torn\<close> when its write failed: \<open>os.WriteFile\<close> truncates first, so the file may then hold anything.
\<close>

datatype write_phase =
    Requested
  | Resolved BackupRoutine
  | Changed nat
  | Marshalled nat nat bytes
  | Acknowledged nat
  | Refused
  | Torn

fun marshalled :: "write_phase \<Rightarrow> bool" where
  "marshalled (Marshalled k v data) = True"
| "marshalled p = False"

text \<open>
  The state: the service, the configurations since the start, the number of the one in the file
  if one was written since, and the requests.
\<close>

type_synonym requests_state = "Service \<times> conf list \<times> nat option \<times> write_phase list"

definition replace_current :: "conf \<Rightarrow> Service \<Rightarrow> Service" where
  "replace_current c s = (put_store (fst c) s)\<lparr>svConfigs := svConfigs s @ [snd c], svConfig := Some (length (svConfigs s))\<rparr>"

inductive request_step :: "requests_state \<Rightarrow> requests_state \<Rightarrow> bool" where
  request_changes: "i < length ps \<Longrightarrow> ps ! i = Requested \<Longrightarrow> config_op f \<Longrightarrow> current s = Some c \<Longrightarrow> f c = Ok c' \<Longrightarrow>
    request_step (s, h, w, ps) (put_current c' s, h @ [c'], w, ps[i := Changed (length h)])"
| request_rejected: "i < length ps \<Longrightarrow> ps ! i = Requested \<Longrightarrow> config_op f \<Longrightarrow> current s = Some c \<Longrightarrow> \<not> is_ok (f c) \<Longrightarrow>
    request_step (s, h, w, ps) (s, h, w, ps[i := Refused])"
| routine_resolves: "i < length ps \<Longrightarrow> ps ! i = Requested \<Longrightarrow> current s = Some c \<Longrightarrow> routineToModel r c = Ok m \<Longrightarrow>
    request_step (s, h, w, ps) (s, h, w, ps[i := Resolved m])"
| routine_changes: "i < length ps \<Longrightarrow> ps ! i = Resolved m \<Longrightarrow> routine_op f \<Longrightarrow> current s = Some c \<Longrightarrow>
    with_routine_object m (f name) c = Ok c' \<Longrightarrow>
    request_step (s, h, w, ps) (put_current c' s, h @ [c'], w, ps[i := Changed (length h)])"
| routine_rejected: "i < length ps \<Longrightarrow> ps ! i = Resolved m \<Longrightarrow> routine_op f \<Longrightarrow> current s = Some c \<Longrightarrow>
    \<not> is_ok (with_routine_object m (f name) c) \<Longrightarrow>
    request_step (s, h, w, ps) (s, h, w, ps[i := Refused])"
| request_replaces: "i < length ps \<Longrightarrow> ps ! i = Requested \<Longrightarrow> validateConfig cron raw = Ok d \<Longrightarrow>
    configToModel d (service_store s) = Ok c \<Longrightarrow>
    request_step (s, h, w, ps) (replace_current c s, h @ [c], w, ps[i := Changed (length h)])"
| request_marshals: "i < length ps \<Longrightarrow> ps ! i = Changed k \<Longrightarrow> current s = Some c \<Longrightarrow>
    \<not> (serialized (svManager s) \<and> (\<exists>j < length ps. marshalled (ps ! j))) \<Longrightarrow> prepare lib (svManager s) c = Ok data \<Longrightarrow>
    request_step (s, h, w, ps) (s, h, w, ps[i := Marshalled k (length h - 1) data])"
| request_unwritable: "i < length ps \<Longrightarrow> ps ! i = Changed k \<Longrightarrow> current s = Some c \<Longrightarrow> \<not> is_ok (prepare lib (svManager s) c) \<Longrightarrow>
    request_step (s, h, w, ps) (s, h, w, ps[i := Refused])"
| request_writes: "i < length ps \<Longrightarrow> ps ! i = Marshalled k v data \<Longrightarrow> store_bytes lib (svManager s) data = Ok () \<Longrightarrow>
    request_step (s, h, w, ps) (s\<lparr>svFile := Some data\<rparr>, h, Some v, ps[i := Acknowledged k])"
| request_unwritten: "i < length ps \<Longrightarrow> ps ! i = Marshalled k v data \<Longrightarrow> \<not> is_ok (store_bytes lib (svManager s) data) \<Longrightarrow>
    request_step (s, h, w, ps) (s\<lparr>svFile := content\<rparr>, h, w, ps[i := Torn])"

section \<open>The file manager\<close>

definition phase_ok :: "Manager \<Rightarrow> conf list \<Rightarrow> nat option \<Rightarrow> write_phase \<Rightarrow> bool" where
  "phase_ok m h w p \<longleftrightarrow>
     (case p of
        Changed k \<Rightarrow> k < length h
      | Marshalled k v data \<Rightarrow> k \<le> v \<and> v < length h \<and> (\<exists>lib. prepare lib m (h ! v) = Ok data) \<and> (\<forall>x. w = Some x \<longrightarrow> x \<le> v)
      | Acknowledged k \<Rightarrow> \<exists>x. w = Some x \<and> k \<le> x
      | _ \<Rightarrow> True)"

definition file_ok :: "Manager \<Rightarrow> conf list \<Rightarrow> nat option \<Rightarrow> bytes option \<Rightarrow> bool" where
  "file_ok m h w content \<longleftrightarrow>
     (\<forall>x. w = Some x \<longrightarrow> x < length h \<and> (\<exists>lib data. content = Some data \<and> prepare lib m (h ! x) = Ok data))"

definition one_writer :: "write_phase list \<Rightarrow> bool" where
  "one_writer ps \<longleftrightarrow> (\<forall>i < length ps. \<forall>j < length ps. marshalled (ps ! i) \<longrightarrow> marshalled (ps ! j) \<longrightarrow> i = j)"

definition requests_inv :: "Manager \<Rightarrow> requests_state \<Rightarrow> bool" where
  "requests_inv m = (\<lambda>(s, h, w, ps).
     svManager s = m \<and> h \<noteq> [] \<and> current s = Some (last h) \<and> list_all (phase_ok m h w) ps \<and> file_ok m h w (svFile s) \<and> one_writer ps)"

lemma grown:
  "phase_ok m h w p \<Longrightarrow> phase_ok m (h @ [c]) w p"
  "list_all (phase_ok m h w) ps \<Longrightarrow> list_all (phase_ok m (h @ [c]) w) ps"
  "file_ok m h w content \<Longrightarrow> file_ok m (h @ [c]) w content"
proof -
  show g: "phase_ok m h w p \<Longrightarrow> phase_ok m (h @ [c]) w p" for p
    by (auto simp: phase_ok_def nth_append split: write_phase.splits)
  then show "list_all (phase_ok m h w) ps \<Longrightarrow> list_all (phase_ok m (h @ [c]) w) ps" by (auto simp: list_all_iff)
  show "file_ok m h w content \<Longrightarrow> file_ok m (h @ [c]) w content"
    by (auto simp: file_ok_def nth_append)
qed

lemma nth_updated: "j < length ps \<Longrightarrow> ps[i := q] ! j = (if j = i then q else ps ! j)"
  by (cases "j = i") simp_all

lemma phases_update: "list_all P ps \<Longrightarrow> P q \<Longrightarrow> list_all P (ps[i := q])"
  by (auto simp: list_all_length nth_updated split: if_splits)

lemma one_writer_update: "one_writer ps \<Longrightarrow> \<not> marshalled q \<Longrightarrow> one_writer (ps[i := q])"
  by (auto simp: one_writer_def nth_updated split: if_splits)

lemma one_writer_new: "\<not> (\<exists>j < length ps. marshalled (ps ! j)) \<Longrightarrow> one_writer (ps[i := q])"
  by (auto simp: one_writer_def nth_updated split: if_splits)

lemma manager_same [simp]:
  "svManager (put_current c s) = svManager s" "svManager (replace_current c s) = svManager s"
  "svFile (replace_current c s) = svFile s" "current (replace_current c s) = Some c"
  by (simp_all add: replace_current_def put_store_def current_def config_at_def)

text \<open>A change in memory, and an answer that leaves the service alone.\<close>

lemma changed_inv:
  assumes "requests_inv m (s, h, w, ps)" and "svManager s' = svManager s" and "svFile s' = svFile s" and "current s' = Some c"
  shows "requests_inv m (s', h @ [c], w, ps[i := Changed (length h)])"
  using assms grown(2,3) [where c = c]
  by (auto simp: requests_inv_def intro!: phases_update one_writer_update) (simp add: phase_ok_def)

lemma answered_inv:
  assumes "requests_inv m (s, h, w, ps)" and "p = Refused \<or> p = Resolved r"
  shows "requests_inv m (s, h, w, ps[i := p])"
  using assms by (auto simp: requests_inv_def phase_ok_def intro!: phases_update one_writer_update)

definition torn :: "requests_state \<Rightarrow> bool" where
  "torn = (\<lambda>(s, h, w, ps). Torn \<in> set ps)"

lemma set_updated: "x \<in> set ps \<Longrightarrow> ps ! i \<noteq> x \<Longrightarrow> x \<in> set (ps[i := q])"
  by (metis in_set_conv_nth length_list_update nth_list_update_neq)

lemma torn_stays: "request_step c c' \<Longrightarrow> torn c \<Longrightarrow> torn c'"
  by (induction rule: request_step.induct) (simp_all add: torn_def set_updated set_update_memI)

lemma request_step_inv:
  assumes "request_step c c'" and "requests_inv m c" and "serialized m"
  shows "torn c' \<or> requests_inv m c'"
  using assms(1,2)
proof (induction rule: request_step.induct)
  case (request_changes i ps f s c c' h w)
  then show ?case using put_current_current by (intro disjI2 changed_inv) auto
next
  case (routine_changes i ps md f s c name c' h w)
  then show ?case using put_current_current by (intro disjI2 changed_inv) auto
next
  case (request_replaces i ps cron raw d s c h w)
  then show ?case by (intro disjI2 changed_inv) auto
next
  case (request_marshals i ps k s c lib data h w)
  then have free: "\<not> (\<exists>j < length ps. marshalled (ps ! j))" and c: "c = last h" and h: "h \<noteq> []"
    and k: "k < length h" and w: "\<forall>x. w = Some x \<longrightarrow> x < length h"
    using assms(3) by (force simp: requests_inv_def list_all_length phase_ok_def file_ok_def)+
  then have "phase_ok m h w (Marshalled k (length h - 1) data)"
    using request_marshals.hyps(5) request_marshals.prems by (auto simp: phase_ok_def requests_inv_def last_conv_nth)
  then show ?case using request_marshals.prems one_writer_new [OF free] by (auto simp: requests_inv_def intro: phases_update intro!: disjI2)
next
  case (request_writes i ps k v data lib s h w)
  have one: "\<not> marshalled (ps ! j)" if "j < length ps" "j \<noteq> i" for j
    using request_writes that by (auto simp: requests_inv_def one_writer_def)
  have p: "phase_ok m h w (Marshalled k v data)"
    using request_writes.hyps(1,2) request_writes.prems by (auto simp: requests_inv_def list_all_length dest!: spec [of _ i])
  have "phase_ok m h (Some v) (ps[i := Acknowledged k] ! j)" if "j < length ps" for j
  proof (cases "j = i")
    case True
    then show ?thesis using p that by (simp add: phase_ok_def)
  next
    case False
    have "phase_ok m h w (ps ! j)" using request_writes.prems that by (simp add: requests_inv_def list_all_length)
    then show ?thesis using one [OF that False] False p
      by (auto simp: phase_ok_def split: write_phase.splits)
  qed
  moreover have "file_ok m h (Some v) (Some data)" using p by (auto simp: file_ok_def phase_ok_def)
  ultimately show ?case using request_writes.prems
    by (auto simp: requests_inv_def list_all_length intro: one_writer_update)
next
  case (request_unwritten i ps k v data lib s content h w)
  then show ?case by (simp add: torn_def set_update_memI)
qed (auto intro: answered_inv)

section \<open>Runs\<close>

text \<open>A request that runs alone does what its handler does.\<close>

lemma alone_is_change:
  assumes "current s = Some c" and "config_op f" and "f c = Ok c'" and "WriteConfiguration (hmConfig env) (svManager s) c' = Ok data"
  shows "request_step\<^sup>*\<^sup>* (s, [c], None, [Requested]) (fst (change env f failed code s), [c, c'], Some 1, [Acknowledged 1])"
proof -
  obtain u where p: "prepare (hmConfig env) (svManager s) c' = Ok data" "store_bytes (hmConfig env) (svManager s) data = Ok u"
    using assms(4) by (auto simp: WriteConfiguration_parts outcome_simps)
  have cur: "current (put_current c' s) = Some c'" using assms(1) by (rule put_current_current)
  have "request_step (s, [c], None, [Requested]) (put_current c' s, [c, c'], None, [Changed 1])"
    using request_changes [of 0 "[Requested]" f s c c' "[c]" None] assms(1-3) by simp
  moreover have "request_step (put_current c' s, [c, c'], None, [Changed 1]) (put_current c' s, [c, c'], None, [Marshalled 1 1 data])"
    using request_marshals [of 0 "[Changed 1]" 1 "put_current c' s" c' "hmConfig env" data "[c, c']" None] cur p(1) by simp
  moreover have "request_step (put_current c' s, [c, c'], None, [Marshalled 1 1 data])
      ((put_current c' s)\<lparr>svFile := Some data\<rparr>, [c, c'], Some 1, [Acknowledged 1])"
    using request_writes [of 0 "[Marshalled 1 1 data]" 1 1 data "hmConfig env" "put_current c' s" "[c, c']" None] p(2) by simp
  moreover have "fst (change env f failed code s) = (put_current c' s)\<lparr>svFile := Some data\<rparr>"
    using assms cur file_after_written [OF assms(4)] by (simp add: change_def write_and_reply_def)
  ultimately show ?thesis by simp
qed

text \<open>Two requests of which the first marshals before the second changes, and writes after the second has written.\<close>

lemma unserialized_run:
  assumes "\<not> serialized (svManager s)" and "current s = Some c"
    and "config_op f" and "f c = Ok c1" and "config_op g" and "g c1 = Ok c2"
    and "prepare lib (svManager s) c1 = Ok d1" and "store_bytes lib (svManager s) d1 = Ok ()"
    and "prepare lib (svManager s) c2 = Ok d2" and "store_bytes lib (svManager s) d2 = Ok ()"
  shows "request_step\<^sup>*\<^sup>* (s, [c], None, [Requested, Requested])
    ((put_current c2 (put_current c1 s))\<lparr>svFile := Some d1\<rparr>, [c, c1, c2], Some 1, [Acknowledged 1, Acknowledged 2])"
proof -
  let ?s1 = "put_current c1 s" let ?s2 = "put_current c2 ?s1"
  have cur: "current ?s1 = Some c1" "current ?s2 = Some c2" using assms(2) put_current_current by blast+
  have "request_step (s, [c], None, [Requested, Requested]) (?s1, [c, c1], None, [Changed 1, Requested])"
    using request_changes [of 0 "[Requested, Requested]" f s c c1 "[c]" None] assms(2-4) by simp
  moreover have "request_step (?s1, [c, c1], None, [Changed 1, Requested]) (?s1, [c, c1], None, [Marshalled 1 1 d1, Requested])"
    using request_marshals [of 0 "[Changed 1, Requested]" 1 ?s1 c1 lib d1 "[c, c1]" None] cur assms(1,7) by simp
  moreover have "request_step (?s1, [c, c1], None, [Marshalled 1 1 d1, Requested]) (?s2, [c, c1, c2], None, [Marshalled 1 1 d1, Changed 2])"
    using request_changes [of 1 "[Marshalled 1 1 d1, Requested]" g ?s1 c1 c2 "[c, c1]" None] cur assms(5,6)
    by (simp add: numeral_2_eq_2)
  moreover have "request_step (?s2, [c, c1, c2], None, [Marshalled 1 1 d1, Changed 2])
      (?s2, [c, c1, c2], None, [Marshalled 1 1 d1, Marshalled 2 2 d2])"
    using request_marshals [of 1 "[Marshalled 1 1 d1, Changed 2]" 2 ?s2 c2 lib d2 "[c, c1, c2]" None] cur assms(1,9)
    by (simp add: numeral_2_eq_2)
  moreover have "request_step (?s2, [c, c1, c2], None, [Marshalled 1 1 d1, Marshalled 2 2 d2])
      (?s2\<lparr>svFile := Some d2\<rparr>, [c, c1, c2], Some 2, [Marshalled 1 1 d1, Acknowledged 2])"
    using request_writes [of 1 "[Marshalled 1 1 d1, Marshalled 2 2 d2]" 2 2 d2 lib ?s2 "[c, c1, c2]" None] assms(10) by simp
  moreover have "request_step (?s2\<lparr>svFile := Some d2\<rparr>, [c, c1, c2], Some 2, [Marshalled 1 1 d1, Acknowledged 2])
      (?s2\<lparr>svFile := Some d1\<rparr>, [c, c1, c2], Some 1, [Acknowledged 1, Acknowledged 2])"
    using request_writes [of 0 "[Marshalled 1 1 d1, Acknowledged 2]" 1 1 d1 lib "?s2\<lparr>svFile := Some d2\<rparr>" "[c, c1, c2]" "Some 2"] assms(8)
    by simp
  ultimately show ?thesis by (meson converse_rtranclp_into_rtranclp rtranclp.rtrancl_refl)
qed

section \<open>Properties\<close>

text \<open>
  C4: When the configuration is in a file, a change that was answered with a success stays in the
  file, however requests to change the configuration interleave: what the file holds was
  marshalled from the configuration as it was after that change or after a later one. In
  particular, once the last change is answered with a success, the file holds the configuration
  in memory. This is so as long as no write of the file failed.
\<close>

theorem acknowledged_changes_stay:
  assumes "svManager s = FileConfigurationManager path" and "current s = Some c"
    and "request_step\<^sup>*\<^sup>* (s, [c], None, replicate n Requested) (s', h, w, ps)" and "Acknowledged k \<in> set ps"
    and "Torn \<notin> set ps"
  shows "current s' = Some (last h) \<and>
    (\<exists>x lib data. k \<le> x \<and> x < length h \<and> svFile s' = Some data \<and> prepare lib (FileConfigurationManager path) (h ! x) = Ok data)"
proof -
  let ?m = "FileConfigurationManager path"
  have "requests_inv ?m (s, [c], None, replicate n Requested)"
    using assms(1,2) by (simp add: requests_inv_def list_all_length phase_ok_def file_ok_def one_writer_def)
  with assms(3) have "torn (s', h, w, ps) \<or> requests_inv ?m (s', h, w, ps)"
  proof (induction rule: rtranclp_induct)
    case (step c c')
    then show ?case using torn_stays request_step_inv [of c c' ?m] by fastforce
  qed simp
  then have inv: "requests_inv ?m (s', h, w, ps)" using assms(5) by (simp add: torn_def)
  then have "phase_ok ?m h w (Acknowledged k)" using assms(4) by (simp add: requests_inv_def list_all_iff)
  then obtain x where "w = Some x" "k \<le> x" by (auto simp: phase_ok_def)
  with inv have "current s' = Some (last h)"
    and "x < length h \<and> (\<exists>lib data. svFile s' = Some data \<and> prepare lib ?m (h ! x) = Ok data)"
    unfolding requests_inv_def file_ok_def by (simp_all del: prepare.simps)
  with \<open>k \<le> x\<close> show ?thesis by blast
qed

text \<open>
  C39: When the configuration is in a storage, a change that was answered with a success can be lost
  from it: two requests can interleave such that both are answered with a success and the storage
  holds the configuration before the second change, while the memory holds it.
\<close>

theorem storage_write_loses_change:
  assumes "svManager s = StorageManager st" and "current s = Some c"
    and "config_op f" and "f c = Ok c1" and "config_op g" and "g c1 = Ok c2"
    and "prepare lib (svManager s) c1 = Ok d1" and "store_bytes lib (svManager s) d1 = Ok ()"
    and "prepare lib (svManager s) c2 = Ok d2" and "store_bytes lib (svManager s) d2 = Ok ()"
  shows "\<exists>s'. request_step\<^sup>*\<^sup>* (s, [c], None, [Requested, Requested]) (s', [c, c1, c2], Some 1, [Acknowledged 1, Acknowledged 2]) \<and>
    current s' = Some c2 \<and> svFile s' = Some d1"
proof -
  let ?s = "(put_current c2 (put_current c1 s))\<lparr>svFile := Some d1\<rparr>"
  have "\<not> serialized (svManager s)" by (simp add: assms(1))
  from unserialized_run [OF this assms(2-10)]
  have "request_step\<^sup>*\<^sup>* (s, [c], None, [Requested, Requested]) (?s, [c, c1, c2], Some 1, [Acknowledged 1, Acknowledged 2])" .
  moreover have "current ?s = Some c2" using put_current_current [OF put_current_current [OF assms(2)]] by simp
  ultimately show ?thesis by (intro exI [of _ ?s]) simp
qed

text \<open>
  C40: A new routine can come to refer to a storage that is no longer in the configuration. Its
  names are resolved before the configuration is locked: when the storage is updated between the
  two, the update rewires the routines there are, and then the new one is added with the old storage.
\<close>

theorem routine_added_with_old_storage:
  assumes "current s = Some c" and "routineToModel r c = Ok m" and "deref stStorages (fst c) (brStorage m) \<noteq> None"
    and "\<forall>x. storages c x = Some (brStorage m) \<longrightarrow> x = dbrStorage r"
    and "fresh (fst c)" and "with_storage (Some v) (UpdateStorage (dbrStorage r)) c = Ok c1"
    and "lookup (cfBackupRoutines (snd c)) name = None"
  shows "\<exists>s' c'. request_step\<^sup>*\<^sup>* (s, [c], None, [Requested, Requested]) (s', [c, c1, c'], None, [Changed 2, Changed 1]) \<and>
    current s' = Some c' \<and> uses brStorage c' name = Some (brStorage m) \<and> (\<forall>x. storages c' x \<noteq> Some (brStorage m))"
proof -
  obtain st p where new: "newStorageObject (Some v) (fst c) = (st, p)" by fastforce
  have p: "p \<noteq> brStorage m" using new assms(3,5) by (auto simp: newStorageObject_def fresh_def deref_def split: option.splits)
  have c1: "cfStorage (snd c1) = insert_key (dbrStorage r) p (cfStorage (snd c))"
    "cfBackupRoutines (snd c1) = cfBackupRoutines (snd c)"
    using assms(6) new by (auto simp: UpdateStorage_def outcome_simps split: option.splits)
  obtain st2 q where new2: "newRoutine m (fst c1) = (st2, q)" by fastforce
  define c' where "c' = (st2, (snd c1)\<lparr>cfBackupRoutines := insert_key name q (cfBackupRoutines (snd c1))\<rparr>)"
  have add: "with_routine_object m (AddRoutine name) c1 = Ok c'"
    using assms(7) by (simp add: new2 AddRoutine_def c1(2) c'_def)
  let ?s1 = "put_current c1 s" let ?s2 = "put_current c' ?s1"
  have cur: "current ?s1 = Some c1" "current ?s2 = Some c'" using assms(1) put_current_current by blast+
  have "request_step (s, [c], None, [Requested, Requested]) (s, [c], None, [Resolved m, Requested])"
    using routine_resolves [of 0 "[Requested, Requested]" s c r m "[c]" None] assms(1,2) by simp
  moreover have "request_step (s, [c], None, [Resolved m, Requested]) (?s1, [c, c1], None, [Resolved m, Changed 1])"
    using request_changes [OF _ _ op_update_storage assms(1,6), of 1 "[Resolved m, Requested]" "[c]" None] by simp
  moreover have "request_step (?s1, [c, c1], None, [Resolved m, Changed 1]) (?s2, [c, c1, c'], None, [Changed 2, Changed 1])"
    using routine_changes [of 0 "[Resolved m, Changed 1]" m AddRoutine ?s1 c1 name c' "[c, c1]" None] add cur
    by (simp add: routine_op_def numeral_2_eq_2)
  ultimately have "request_step\<^sup>*\<^sup>* (s, [c], None, [Requested, Requested]) (?s2, [c, c1, c'], None, [Changed 2, Changed 1])"
    by (meson converse_rtranclp_into_rtranclp rtranclp.rtrancl_refl)
  moreover have "uses brStorage c' name = Some (brStorage m)"
    using new2 by (auto simp: c'_def uses_def routine_at_def deref_routine_def newRoutine_def)
  moreover have "storages c' x \<noteq> Some (brStorage m)" for x
    using assms(4) p by (auto simp: c'_def c1)
  ultimately show ?thesis using cur by blast
qed

section \<open>Concrete requests\<close>

definition demo_put :: "string \<Rightarrow> conf \<Rightarrow> conf_result" where
  "demo_put name = with_policy (backupPolicyToModel newBackupPolicy) (AddPolicy name)"

definition demo_first :: conf where
  "demo_first = (emptyStore\<lparr>stPolicies := [0 \<mapsto> backupPolicyToModel newBackupPolicy], stNext := 1\<rparr>,
     (snd demo_config)\<lparr>cfBackupPolicies := [(''q'', Some 0)]\<rparr>)"

definition demo_second :: conf where
  "demo_second = (emptyStore\<lparr>stPolicies := [0 \<mapsto> backupPolicyToModel newBackupPolicy, 1 \<mapsto> backupPolicyToModel newBackupPolicy], stNext := 2\<rparr>,
     (snd demo_config)\<lparr>cfBackupPolicies := [(''q'', Some 0), (''r'', Some 1)]\<rparr>)"

text \<open>A codec that tells the two configurations apart.\<close>

definition demo_counting_lib :: config_lib where
  "demo_counting_lib = demo_config_lib\<lparr>clMarshalYAML := (\<lambda>d. Ok (if length (dcfBackupPolicies d) = 1 then ''one'' else ''two''))\<rparr>"

definition demo_storage_service :: Service where
  "demo_storage_service = NewService demo_config (StorageManager (Some (Local \<lparr>lsPath = ''/c''\<rparr>))) initialSchedule []"

lemma demo_puts: "demo_put ''q'' demo_config = Ok demo_first" "demo_put ''r'' demo_first = Ok demo_second"
  by (simp_all add: demo_put_def demo_config_def demo_first_def demo_second_def newPolicy_def emptyStore_def AddPolicy_def NewConfig_def)

lemma demo_put_op: "config_op (demo_put name)"
  unfolding demo_put_def by (rule op_add_policy)

lemma demo_marshalled:
  "marshalConfig demo_counting_lib demo_first = Ok ''one''" "marshalConfig demo_counting_lib demo_second = Ok ''two''"
proof -
  obtain d where d: "NewBackupPolicyFromModel (Some (backupPolicyToModel newBackupPolicy)) = Ok d"
    using demo_policy_shown by blast
  show "marshalConfig demo_counting_lib demo_first = Ok ''one''" "marshalConfig demo_counting_lib demo_second = Ok ''two''"
    using d by (simp_all add: marshalConfig_def demo_counting_lib_def demo_config_lib_def NewConfigFromModel_def demo_first_def
        demo_second_def demo_config_def NewConfig_def with_text_def deref_def Let_def)
qed

lemma demo_counting:
  "clCancelled demo_counting_lib = None" "clWriteDisk demo_counting_lib path data = None" "clStorage demo_counting_lib = demo_lib"
  by (simp_all add: demo_counting_lib_def demo_config_lib_def)

lemma demo_current:
  "current (NewService demo_config manager sch hs) = Some demo_config"
  by (simp add: NewService_def current_def config_at_def NewClientManager_def)

theorem acknowledged_changes_stay_witness:
  "\<exists>s' x lib data. request_step\<^sup>*\<^sup>* (htService demo_server, [demo_config], None, [Requested])
       (s', [demo_config, demo_first], Some 1, [Acknowledged 1]) \<and> current s' = Some demo_first \<and>
     1 \<le> x \<and> svFile s' = Some data \<and> prepare lib (FileConfigurationManager ''abs.yml'') ([demo_config, demo_first] ! x) = Ok data"
proof -
  let ?env = "demo_handler_env\<lparr>hmConfig := demo_counting_lib\<rparr>"
  have s: "htService demo_server = NewService demo_config (FileConfigurationManager ''abs.yml'') initialSchedule []"
    by (simp add: demo_server_def)
  have m: "svManager (htService demo_server) = FileConfigurationManager ''abs.yml''" by (simp add: s NewService_def)
  have c: "current (htService demo_server) = Some demo_config" by (simp add: s demo_current)
  have "WriteConfiguration (hmConfig ?env) (svManager (htService demo_server)) demo_first = Ok ''one''"
    by (simp add: m fileWriteConfiguration_def demo_marshalled demo_counting)
  from alone_is_change [OF c demo_put_op demo_puts(1) this]
  obtain s' where r: "request_step\<^sup>*\<^sup>* (htService demo_server, [demo_config], None, [Requested])
      (s', [demo_config, demo_first], Some 1, [Acknowledged 1])" by blast
  have "replicate 1 Requested = [Requested]" by simp
  from acknowledged_changes_stay [OF m c, of 1, unfolded this, OF r, of 1] r show ?thesis by (auto simp del: prepare.simps)
qed

theorem storage_write_loses_change_witness:
  "\<exists>s'. request_step\<^sup>*\<^sup>* (demo_storage_service, [demo_config], None, [Requested, Requested])
       (s', [demo_config, demo_first, demo_second], Some 1, [Acknowledged 1, Acknowledged 2]) \<and>
     current s' = Some demo_second \<and> svFile s' = Some ''one'' \<and> marshalConfig demo_counting_lib demo_second = Ok ''two''"
proof -
  let ?st = "Some (Local \<lparr>lsPath = ''/c''\<rparr>)"
  have m: "svManager demo_storage_service = StorageManager ?st" by (simp add: demo_storage_service_def NewService_def)
  have c: "current demo_storage_service = Some demo_config" by (simp add: demo_storage_service_def demo_current)
  have w: "store_bytes demo_counting_lib (svManager demo_storage_service) data = Ok ()" for data
    by (simp add: m WriteFile_def CreateWriter_connected connected_def demo_counting demo_lib_def)
  have p: "prepare demo_counting_lib (svManager demo_storage_service) demo_first = Ok ''one''"
    "prepare demo_counting_lib (svManager demo_storage_service) demo_second = Ok ''two''"
    by (simp_all add: m demo_marshalled)
  from storage_write_loses_change [OF m c demo_put_op demo_puts(1) demo_put_op demo_puts(2) p(1) w p(2) w] demo_marshalled(2)
  show ?thesis by blast
qed

definition demo_moved :: Storage where
  "demo_moved = Local \<lparr>lsPath = ''/moved''\<rparr>"

lemma demo_race:
  "is_ok (routineToModel demo_routine_doc demo_loaded)"
  "cfStorage (snd demo_loaded) = [(''s'', Some 1)]" "deref stStorages (fst demo_loaded) (Some 1) \<noteq> None"
  "is_ok (with_storage (Some demo_moved) (UpdateStorage ''s'') demo_loaded)"
  "lookup (cfBackupRoutines (snd demo_loaded)) ''new'' = None"
  by code_simp+

theorem routine_added_with_old_storage_witness:
  "\<exists>s' c' m h ps. request_step\<^sup>*\<^sup>* (NewService demo_loaded (FileConfigurationManager ''abs.yml'') initialSchedule [], [demo_loaded], None,
       [Requested, Requested]) (s', h, None, ps) \<and> current s' = Some c' \<and> uses brStorage c' ''new'' = Some m \<and> (\<forall>x. storages c' x \<noteq> Some m)"
proof -
  have c: "current (NewService demo_loaded (FileConfigurationManager ''abs.yml'') initialSchedule []) = Some demo_loaded"
    by (simp add: NewService_def current_def config_at_def NewClientManager_def)
  obtain m where m: "routineToModel demo_routine_doc demo_loaded = Ok m" using demo_race(1) by (auto simp: is_ok_iff)
  have s: "dbrStorage demo_routine_doc = ''s''" by (simp add: demo_routine_doc_def)
  have b: "brStorage m = Some 1" using routineToModel_Ok(3) [OF m] demo_race(2) by (simp add: s)
  obtain c1 where c1: "with_storage (Some demo_moved) (UpdateStorage (dbrStorage demo_routine_doc)) demo_loaded = Ok c1"
    using demo_race(4) by (auto simp: is_ok_iff s)
  have "fresh (fst demo_loaded)" using validated_good [OF demo_document_valid fresh_empty] demo_document_loads by (auto simp: conf_good_def)
  moreover have "\<forall>x. storages demo_loaded x = Some (brStorage m) \<longrightarrow> x = dbrStorage demo_routine_doc"
    by (simp add: demo_race(2) s)
  moreover have "deref stStorages (fst demo_loaded) (brStorage m) \<noteq> None" unfolding b by (rule demo_race(3))
  ultimately show ?thesis using routine_added_with_old_storage [OF c m _ _ _ c1 demo_race(5)] by blast
qed

end
