(* ===== verification/Metrics.thy ===== *)
theory Metrics
  imports RequestThreads
begin

text \<open>
  \<open>pkg/service/metrics.go\<close>: the gauges of progress, which a goroutine of the service fills every
  second from the handlers and the restore jobs, and what they show after the configuration was
  applied again. Counters and durations are not read by the program.
\<close>

section \<open>The collector\<close>

text \<open>
  A vector of gauges is a map from its labels to its values, which are of type \<open>float64\<close>. The
  collector holds the handlers the service was started with; the jobs it holds are those of the
  restore manager. \<open>order\<close> is the order in which a map is ranged over.
\<close>

type_synonym 'l gauge_vec = "('l, rat) gomap"

record MetricsCollector =
  mcBackupHandler :: BackupHandlerHolder

definition NewMetricsCollector :: "BackupHandlerHolder \<Rightarrow> MetricsCollector" where
  "NewMetricsCollector bh = \<lparr>mcBackupHandler = bh\<rparr>"

definition progress_value :: "RunningJob \<Rightarrow> rat" where
  "progress_value job = fl (of_nat (unat (rjPercentageDone job)))"

definition set_progress :: "'l \<Rightarrow> RunningJob option \<Rightarrow> 'l gauge_vec \<Rightarrow> 'l gauge_vec" where
  "set_progress labels job g = (case job of None \<Rightarrow> g | Some j \<Rightarrow> insert_key labels (progress_value j) g)"

definition current_stat :: "handler_env \<Rightarrow> BackupRoutineHandler \<Rightarrow> (string, CurrentBackups) outcome" where
  "current_stat env h = GetCurrentStat (hmPick env) (hmCast env) (hmNow env) (hmBackupStats env) h"

fun collectBackupLoop ::
  "handler_env \<Rightarrow> schedule_state \<Rightarrow> (string \<times> nat) list \<Rightarrow> (string \<times> string) gauge_vec \<Rightarrow>
   (string, (string \<times> string) gauge_vec) outcome" where
  "collectBackupLoop env sch [] g = Ok g"
| "collectBackupLoop env sch ((routineName, i) # rest) g =
     (case handler_at (Some i) sch of
        None \<Rightarrow> Panic NilDereference
      | Some h \<Rightarrow>
          and_then (current_stat env h) (\<lambda>currentStat.
          collectBackupLoop env sch rest
            (set_progress (routineName, ''Incremental'') (cbIncremental currentStat)
              (set_progress (routineName, ''Full'') (cbFull currentStat) g))))"

definition collectBackupMetrics ::
  "handler_env \<Rightarrow> ((string \<times> nat) list \<Rightarrow> (string \<times> nat) list) \<Rightarrow> MetricsCollector \<Rightarrow> schedule_state \<Rightarrow>
   (string, (string \<times> string) gauge_vec) outcome" where
  "collectBackupMetrics env order mc sch = collectBackupLoop env sch (permuted order (mcBackupHandler mc)) []"

definition collectRestoreMetrics ::
  "handler_env \<Rightarrow> ((RestoreJobID \<times> jobInfo) list \<Rightarrow> (RestoreJobID \<times> jobInfo) list) \<Rightarrow> RestoreJobsHolder \<Rightarrow> string gauge_vec" where
  "collectRestoreMetrics env order jobs =
     fold (\<lambda>(id, job) g. set_progress (jiLabel job)
             (CurrentRestore (restoreJobStatus (hmCast env) (hmNow env) (hmRestoreStats env) job)) g)
       (permuted order jobs) []"

definition collectMetrics ::
  "handler_env \<Rightarrow> ((string \<times> nat) list \<Rightarrow> (string \<times> nat) list) \<Rightarrow> ((RestoreJobID \<times> jobInfo) list \<Rightarrow> (RestoreJobID \<times> jobInfo) list) \<Rightarrow>
   MetricsCollector \<Rightarrow> Service \<Rightarrow> (string, (string \<times> string) gauge_vec \<times> string gauge_vec) outcome" where
  "collectMetrics env order jobOrder mc s =
     and_then (collectBackupMetrics env order mc (svScheduler s)) (\<lambda>backups.
     Ok (backups, collectRestoreMetrics env jobOrder (rsJobs (svRestore s))))"

text \<open>
  The goroutine of \<open>Start\<close>: at a tick it collects from the service as it then is, and it returns when
  the context is cancelled. \<open>gs\<close> is what the gauges hold; a panic of the goroutine ends the program.
\<close>

datatype collector_event = Tick Service | Cancelled

type_synonym gauges = "(string \<times> string) gauge_vec \<times> string gauge_vec"

fun Start ::
  "handler_env \<Rightarrow> ((string \<times> nat) list \<Rightarrow> (string \<times> nat) list) \<Rightarrow> ((RestoreJobID \<times> jobInfo) list \<Rightarrow> (RestoreJobID \<times> jobInfo) list) \<Rightarrow>
   MetricsCollector \<Rightarrow> collector_event list \<Rightarrow> gauges \<Rightarrow> (string, gauges) outcome" where
  "Start env order jobOrder mc [] gs = Ok gs"
| "Start env order jobOrder mc (Cancelled # es) gs = Ok gs"
| "Start env order jobOrder mc (Tick s # es) gs =
     and_then (collectMetrics env order jobOrder mc s) (Start env order jobOrder mc es)"

section \<open>What the gauges show\<close>

text \<open>The statistics of a map of handlers exist unless one of the handlers is nil.\<close>

abbreviation has_nil :: "(string, ptr) gomap \<Rightarrow> bool" where
  "has_nil hs \<equiv> None \<in> snd ` set hs"

definition all_records :: "(nat \<Rightarrow> LibBackupStats) \<Rightarrow> (LibBackupStats \<Rightarrow> uint64) \<Rightarrow> (string, ptr) gomap \<Rightarrow> uint64" where
  "all_records stats f hs = sum_list (map (\<lambda>(ns, q). case q of None \<Rightarrow> 0 | Some n \<Rightarrow> f (stats n)) hs)"

lemma sumHandlers_eq:
  "sumHandlers stats hs r d =
     (if has_nil hs then Panic NilDereference
      else Ok (r + all_records stats bsTotalRecords hs, d + all_records stats bsReadRecords hs))"
proof (induction hs arbitrary: r d)
  case (Cons x hs)
  obtain ns q where x: "x = (ns, q)" by (cases x)
  show ?case using Cons.IH unfolding x by (cases q) (simp_all add: all_records_def ac_simps)
qed (simp add: all_records_def)

definition status_of_handlers :: "handler_env \<Rightarrow> (string, ptr) gomap \<Rightarrow> RunningJob option" where
  "status_of_handlers env hs =
     (case getAnyHandler (hmPick env) hs of
        None \<Rightarrow> None
      | Some n \<Rightarrow> NewRunningJob (hmCast env) (hmNow env) (bsStartTime (hmBackupStats env n))
                    (all_records (hmBackupStats env) bsReadRecords hs) (all_records (hmBackupStats env) bsTotalRecords hs))"

lemma getAnyHandler_some:
  assumes "hs \<noteq> []" and "\<not> has_nil hs"
  shows "\<exists>n. getAnyHandler pick hs = Some n"
proof -
  obtain ns q rest where p: "permuted pick hs = (ns, q) # rest"
    using assms(1) by (metis length_0_conv length_permuted list.exhaust prod.exhaust)
  then have "(ns, q) \<in> set hs" by (metis list.set_intros(1) set_permuted)
  then have "q \<noteq> None" using assms(2) by force
  then show ?thesis using p by (auto simp: getAnyHandler_def)
qed

lemma currentBackupStatus_eq:
  "currentBackupStatus (hmPick env) (hmCast env) (hmNow env) (hmBackupStats env) hs =
     (if has_nil hs then Panic NilDereference else Ok (status_of_handlers env hs))"
proof (cases "hs = []")
  case True
  then show ?thesis by (simp add: currentBackupStatus_def status_of_handlers_def getAnyHandler_def)
next
  case False
  then show ?thesis using getAnyHandler_some [OF False, of "hmPick env"]
    by (auto simp: currentBackupStatus_def sumHandlers_eq status_of_handlers_def)
qed

definition no_nil :: "BackupRoutineHandler \<Rightarrow> bool" where
  "no_nil h \<longleftrightarrow> \<not> has_nil (bhFullHandlers h) \<and> \<not> has_nil (bhIncrHandlers h)"

lemma current_stat_eq:
  "current_stat env h =
     (if no_nil h
      then Ok \<lparr>cbFull = status_of_handlers env (bhFullHandlers h), cbIncremental = status_of_handlers env (bhIncrHandlers h)\<rparr>
      else Panic NilDereference)"
  by (simp add: current_stat_def GetCurrentStat_def currentBackupStatus_eq no_nil_def)

text \<open>What the gauge of a routine and a kind of backup is to show.\<close>

definition shown_progress :: "handler_env \<Rightarrow> BackupRoutineHandler \<Rightarrow> string \<Rightarrow> rat option" where
  "shown_progress env h kind =
     (if kind = ''Full'' then map_option progress_value (status_of_handlers env (bhFullHandlers h))
      else if kind = ''Incremental'' then map_option progress_value (status_of_handlers env (bhIncrHandlers h))
      else None)"

lemma set_progress_lookup:
  "lookup (set_progress labels job g) x = (if x = labels \<and> job \<noteq> None then map_option progress_value job else lookup g x)"
  by (simp add: set_progress_def split: option.split)

definition collectable :: "schedule_state \<Rightarrow> (string \<times> nat) list \<Rightarrow> bool" where
  "collectable sch hs \<longleftrightarrow> (\<forall>(name, i) \<in> set hs. i < length (ssHeap sch) \<and> no_nil (ssHeap sch ! i))"

lemma collectBackupLoop_total:
  "if collectable sch hs then \<exists>g'. collectBackupLoop env sch hs g = Ok g'
   else collectBackupLoop env sch hs g = Panic NilDereference"
proof (induction hs arbitrary: g)
  case (Cons x hs)
  obtain name i where x: "x = (name, i)" by (cases x)
  show ?case using Cons.IH unfolding x by (simp add: handler_at_def current_stat_eq collectable_def)
qed (simp add: collectable_def)

lemma collectable_permuted [simp]: "collectable sch (permuted order hs) = collectable sch hs"
  by (simp add: collectable_def)

lemma collectBackupLoop_shows:
  assumes "collectBackupLoop env sch hs g = Ok g'" and "distinct (map fst hs)"
  shows "lookup g' (name, kind) =
    (case map_of hs name of
       None \<Rightarrow> lookup g (name, kind)
     | Some i \<Rightarrow> (case shown_progress env (ssHeap sch ! i) kind of None \<Rightarrow> lookup g (name, kind) | Some v \<Rightarrow> Some v))"
  using assms
proof (induction hs arbitrary: g)
  case (Cons x hs)
  obtain n i where x: "x = (n, i)" by (cases x)
  let ?h = "ssHeap sch ! i"
  let ?g = "set_progress (n, ''Incremental'') (status_of_handlers env (bhIncrHandlers ?h))
      (set_progress (n, ''Full'') (status_of_handlers env (bhFullHandlers ?h)) g)"
  have "collectBackupLoop env sch hs ?g = Ok g'"
    using Cons.prems(1) unfolding x by (auto simp: handler_at_def current_stat_eq split: if_splits)
  from Cons.IH [OF this] have IH: "lookup g' (name, kind) =
    (case map_of hs name of
       None \<Rightarrow> lookup ?g (name, kind)
     | Some i \<Rightarrow> (case shown_progress env (ssHeap sch ! i) kind of None \<Rightarrow> lookup ?g (name, kind) | Some v \<Rightarrow> Some v))"
    using Cons.prems(2) by simp
  show ?case
  proof (cases "name = n")
    case True
    then have "map_of hs name = None" using Cons.prems(2) x by (simp add: map_of_eq_None_iff)
    then show ?thesis using IH True x by (auto simp: set_progress_lookup shown_progress_def split: option.split)
  next
    case False
    then show ?thesis using IH x by (simp add: set_progress_lookup cong: option.case_cong)
  qed
qed simp

text \<open>
  C22: The gauges of progress after a collection. The collection needs the object of every handler and
  no nil handler of a backup in it, and panics otherwise; it answers no error. The gauge of a routine
  and a kind of backup is then the progress of the backups of that kind the handler has under way, and
  there is no such gauge when it has none, nor any of another routine, whatever was shown before and
  in whatever order the map of handlers is ranged over.
\<close>

theorem metrics_show_progress:
  assumes "wf_map (mcBackupHandler mc)"
  shows "case collectBackupMetrics env order mc sch of
      Ok g \<Rightarrow> collectable sch (mcBackupHandler mc) \<and>
        (\<forall>name kind. lookup g (name, kind) =
           (case lookup (mcBackupHandler mc) name of None \<Rightarrow> None | Some i \<Rightarrow> shown_progress env (ssHeap sch ! i) kind))
    | Err e \<Rightarrow> False
    | Panic p \<Rightarrow> \<not> collectable sch (mcBackupHandler mc)"
proof -
  let ?hs = "permuted order (mcBackupHandler mc)"
  have d: "distinct (map fst ?hs)" using keys_permuted [OF assms] by simp
  note total = collectBackupLoop_total [of sch ?hs env "[]"]
  show ?thesis
  proof (cases "collectBackupMetrics env order mc sch")
    case (Ok g)
    then have g: "collectBackupLoop env sch ?hs [] = Ok g" by (simp add: collectBackupMetrics_def)
    then have "collectable sch (mcBackupHandler mc)" using total by (auto split: if_splits)
    then show ?thesis using Ok collectBackupLoop_shows [OF g d] lookup_permuted [OF assms, of order]
      by (auto split: option.split)
  qed (use total in \<open>auto simp: collectBackupMetrics_def split: if_splits\<close>)
qed

section \<open>A backup that could not start\<close>

lemma collectBackupLoop_nil:
  assumes "(name, i) \<in> set hs" and "ssHeap sch ! i = h" and "\<not> no_nil h"
  shows "\<not> collectable sch hs"
  using assms by (auto simp: collectable_def)

text \<open>
  C37: An incremental backup that could not be started stops the collection of metrics: from when the
  run has started the backups of its namespaces, one of which was refused, until it clears them, a
  tick of the collector over the handler of the routine panics, on the nil handler that stands for the
  refused backup. The goroutine of the collector does not recover from it, and the program ends.
\<close>

theorem failed_start_stops_metrics:
  assumes "startIncrementalBackupForAllNamespaces renv c now s = (u, Ok ())"
    and "getNamespacesToBackup renv (bhNamespaces (hsHandler s)) = Ok nss" and "distinct nss" and "ns \<in> set nss"
    and "runBackup renv (bhIncrPolicy (hsHandler s)) c (window False (hsHandler s) now) ns (incr_folder s ns now) s = Err e"
    and "(name, i) \<in> set (mcBackupHandler mc)" and "ssHeap (svScheduler srv) ! i = hsHandler u"
  shows "Start env order jobOrder mc (Tick srv # es) gs = Panic NilDereference"
proof -
  have l: "startIncrLoop renv now c (window False (hsHandler s) now) nss (clearIncr s) = (u, Ok ())"
    using assms(1,2) by (simp add: startIncrementalBackupForAllNamespaces_def incrementalBounds_window clearIncr_def
        split: if_splits)
  have "runBackup renv (bhIncrPolicy (hsHandler (clearIncr s))) c (window False (hsHandler s) now) ns
      (incr_folder (clearIncr s) ns now) (clearIncr s) = Err e"
    using assms(5) unfolding runBackup_clearIncr by (simp add: clearIncr_def)
  from startIncrLoop_failed [OF l assms(3,4) this] have "None \<in> snd ` set (bhIncrHandlers (hsHandler u))"
    by (force dest: lookup_in_set)
  then have "\<not> no_nil (hsHandler u)" by (simp add: no_nil_def)
  from collectBackupLoop_nil [OF assms(6,7) this] show ?thesis
    using collectBackupLoop_total [of "svScheduler srv" "permuted order (mcBackupHandler mc)" env "[]"]
    by (simp add: collectBackupMetrics_def collectMetrics_def)
qed

section \<open>A configuration that is applied again\<close>

lemma collectBackupLoop_same:
  assumes "\<forall>x \<in> snd ` set hs. x < length (ssHeap sch) \<and> x < length (ssHeap sch') \<and> ssHeap sch' ! x = ssHeap sch ! x"
  shows "collectBackupLoop env sch' hs g = collectBackupLoop env sch hs g"
  using assms
proof (induction hs arbitrary: g)
  case (Cons x hs)
  obtain name i where x: "x = (name, i)" by (cases x)
  show ?case using Cons unfolding x by (simp add: handler_at_def)
qed simp

lemma built_backends_unlocked:
  assumes "BuildBackupBackends env c = Ok backends" and "lookup backends name = Some b"
  shows "\<not> fullBackupInProgress b"
  using buildBackends_idle [OF assms(1) [unfolded BuildBackupBackends_def] _ assms(2)] by simp

text \<open>What applying a configuration does to the handlers: it appends the new ones, whose locks are free.\<close>

lemma ApplyNewConfig_handlers:
  assumes "ApplyNewConfig env c s = (s', Ok handlers)" and "wf_map (routines_of c)"
  shows "prefix (ssHeap s) (ssHeap s')"
    and "name \<in> set (keys (routines_of c)) \<Longrightarrow> \<exists>i. lookup handlers name = Some i \<and> length (ssHeap s) \<le> i \<and>
      i < length (ssHeap s') \<and> bhRoutineName (ssHeap s' ! i) = name \<and> \<not> fullBackupInProgress (bhBackend (ssHeap s' ! i))"
proof -
  from ApplyNewConfig_Ok [OF assms(1)] obtain backends t where b: "BuildBackupBackends env c = Ok backends"
    and t: "MakeHandlers env c (SetData backends (s\<lparr>ssScheduled := []\<rparr>)) = (t, Ok handlers)"
    and r: "scheduleRoutines env c handlers t = (s', Ok ())" .
  have h: "ssHeap s' = ssHeap t" using schedule_heap(4) r by (metis fst_conv scheduleRoutines_def)
  note k = keys_permuted [OF assms(2)]
  note m = makeHandlersLoop_Ok [OF t [unfolded MakeHandlers_def] conjunct1 [OF k]]
  from m show "prefix (ssHeap s) (ssHeap s')" by (simp add: h SetData_def)
  assume "name \<in> set (keys (routines_of c))"
  then obtain i where i: "lookup handlers name = Some i" "length (ssHeap s) \<le> i" "i < length (ssHeap t)"
      "bhRoutineName (ssHeap t ! i) = name" "lookup backends name = Some (bhBackend (ssHeap t ! i))"
    using m by (auto simp: k SetData_def Get_def)
  from built_backends_unlocked [OF b i(5)] i h show "\<exists>i. lookup handlers name = Some i \<and> length (ssHeap s) \<le> i \<and>
      i < length (ssHeap s') \<and> bhRoutineName (ssHeap s' ! i) = name \<and> \<not> fullBackupInProgress (bhBackend (ssHeap s' ! i))" by auto
qed

text \<open>
  C12: Applying the configuration forgets the backups that are running. Each routine of the
  configuration gets a new handler, whose lock is free, also when the old handler of the same routine
  holds its own: the old handlers stay as they are, with the backups they have under way, and a full
  backup of the same routine can start beside them. The collector of metrics keeps the handlers of
  the start: what it collects is what it collected before, whatever the new handlers do from then on.
\<close>

theorem apply_forgets_running_backups:
  assumes "current s = Some c" and "ApplyNewConfig (hmSchedule env) c (svScheduler s) = (sch, Ok handlers)"
    and "wf_map (routines_of c)" and "name \<in> set (keys (routines_of c))"
    and "\<forall>i \<in> snd ` set (mcBackupHandler mc). i < length (ssHeap (svScheduler s))"
  shows "svScheduler (fst (ApplyConfig env s)) = sch \<and> svHandlers (fst (ApplyConfig env s)) = handlers \<and>
    (\<forall>i < length (ssHeap (svScheduler s)). ssHeap sch ! i = ssHeap (svScheduler s) ! i) \<and>
    (\<exists>i. lookup handlers name = Some i \<and> length (ssHeap (svScheduler s)) \<le> i \<and> i < length (ssHeap sch) \<and>
       bhRoutineName (ssHeap sch ! i) = name \<and> \<not> fullBackupInProgress (bhBackend (ssHeap sch ! i)) \<and>
       (\<forall>h. collectBackupMetrics env order mc (sch\<lparr>ssHeap := (ssHeap sch)[i := h]\<rparr>) =
          collectBackupMetrics env order mc (svScheduler s)))"
proof -
  note a = ApplyNewConfig_handlers [OF assms(2,3)]
  have old: "\<forall>i < length (ssHeap (svScheduler s)). i < length (ssHeap sch) \<and> ssHeap sch ! i = ssHeap (svScheduler s) ! i"
    using a(1) by (auto simp: prefix_def nth_append)
  obtain i where i: "lookup handlers name = Some i" "length (ssHeap (svScheduler s)) \<le> i" "i < length (ssHeap sch)"
      "bhRoutineName (ssHeap sch ! i) = name" "\<not> fullBackupInProgress (bhBackend (ssHeap sch ! i))"
    using a(2) [OF assms(4)] by blast
  have "collectBackupMetrics env order mc (sch\<lparr>ssHeap := (ssHeap sch)[i := h]\<rparr>) =
      collectBackupMetrics env order mc (svScheduler s)" for h
    unfolding collectBackupMetrics_def using assms(5) old i(2) by (intro collectBackupLoop_same) auto
  moreover have "svScheduler (fst (ApplyConfig env s)) = sch \<and> svHandlers (fst (ApplyConfig env s)) = handlers"
    using assms(1,2) by (simp add: ApplyConfig_def)
  ultimately show ?thesis using old i by blast
qed

section \<open>Concrete collections\<close>

text \<open>A routine with a full backup under way, of which half is done, and the lock it holds.\<close>

definition demo_busy :: BackupRoutineHandler where
  "demo_busy = demo_handler\<lparr>bhBackend := demo_backend\<lparr>fullBackupInProgress := True\<rparr>, bhFullHandlers := [(''a'', Some 1)]\<rparr>"

definition demo_busy_schedule :: schedule_state where
  "demo_busy_schedule = demo_schedule_state\<lparr>ssHeap := [demo_busy]\<rparr>"

definition demo_busy_service :: Service where
  "demo_busy_service = NewService demo_applied_conf (FileConfigurationManager ''abs.yml'') demo_busy_schedule [(''r'', 0)]"

lemma demo_progress:
  "shown_progress demo_handler_env demo_busy ''Full'' = Some 50" "shown_progress demo_handler_env demo_busy ''Incremental'' = None"
  by code_simp+

theorem metrics_show_progress_witness:
  "\<exists>g. collectBackupMetrics demo_handler_env rev (NewMetricsCollector [(''r'', 0)]) demo_busy_schedule = Ok g \<and>
     lookup g (''r'', ''Full'') = Some 50 \<and> lookup g (''r'', ''Incremental'') = None \<and> lookup g (''x'', ''Full'') = None"
proof -
  have "wf_map (mcBackupHandler (NewMetricsCollector [(''r'', 0)]))" by (simp add: NewMetricsCollector_def)
  moreover have "collectable demo_busy_schedule (mcBackupHandler (NewMetricsCollector [(''r'', 0)]))"
    by (simp add: NewMetricsCollector_def collectable_def demo_busy_schedule_def no_nil_def demo_busy_def demo_handler_def)
  moreover have "ssHeap demo_busy_schedule ! 0 = demo_busy" by (simp add: demo_busy_schedule_def)
  ultimately show ?thesis
    using metrics_show_progress [where mc = "NewMetricsCollector [(''r'', 0)]" and env = demo_handler_env and order = rev and
        sch = demo_busy_schedule] demo_progress
    by (auto simp: NewMetricsCollector_def split: outcome.splits)
qed

lemma demo_refused_start:
  "case takeClient demo_refusing demo_ready of
     (t, Ok c) \<Rightarrow> is_ok (snd (startIncrementalBackupForAllNamespaces demo_refusing c (timeUnixMilli 30) t)) \<and>
       runBackup demo_refusing (bhIncrPolicy (hsHandler t)) c (window False (hsHandler t) (timeUnixMilli 30)) ''b''
         (incr_folder t ''b'' (timeUnixMilli 30)) t = Err ''failed to start backup, refused'' \<and>
       bhNamespaces (hsHandler t) = [''a'', ''b'']
   | _ \<Rightarrow> False"
  by code_simp

theorem failed_start_stops_metrics_witness:
  "\<exists>h. ssHeap (svScheduler (demo_busy_service\<lparr>svScheduler := demo_schedule_state\<lparr>ssHeap := [h]\<rparr>\<rparr>)) = [h] \<and>
     Start demo_handler_env rev rev (NewMetricsCollector [(''r'', 0)])
       [Tick (demo_busy_service\<lparr>svScheduler := demo_schedule_state\<lparr>ssHeap := [h]\<rparr>\<rparr>), Cancelled] ([], []) = Panic NilDereference"
proof -
  obtain t c where t: "is_ok (snd (startIncrementalBackupForAllNamespaces demo_refusing c (timeUnixMilli 30) t))"
    and b: "runBackup demo_refusing (bhIncrPolicy (hsHandler t)) c (window False (hsHandler t) (timeUnixMilli 30)) ''b''
         (incr_folder t ''b'' (timeUnixMilli 30)) t = Err ''failed to start backup, refused''"
    and n: "bhNamespaces (hsHandler t) = [''a'', ''b'']"
    using demo_refused_start by (auto split: prod.splits outcome.splits)
  then obtain u where u: "startIncrementalBackupForAllNamespaces demo_refusing c (timeUnixMilli 30) t = (u, Ok ())"
    by (cases "startIncrementalBackupForAllNamespaces demo_refusing c (timeUnixMilli 30) t") (auto simp: is_ok_iff)
  have nss: "getNamespacesToBackup demo_refusing (bhNamespaces (hsHandler t)) = Ok [''a'', ''b'']"
    by (simp add: n getNamespacesToBackup_def)
  have m: "(''r'', 0) \<in> set (mcBackupHandler (NewMetricsCollector [(''r'', 0)]))" by (simp add: NewMetricsCollector_def)
  have "distinct [''a'', ''b'']" "''b'' \<in> set [''a'', ''b'']" by simp_all
  from failed_start_stops_metrics [OF u nss this b m,
      of "demo_busy_service\<lparr>svScheduler := demo_schedule_state\<lparr>ssHeap := [hsHandler u]\<rparr>\<rparr>" demo_handler_env rev rev]
  show ?thesis by (intro exI [of _ "hsHandler u"]) (simp del: Start.simps)
qed

lemma demo_applied_again:
  "is_ok (snd (ApplyNewConfig demo_schedule_env demo_applied_conf demo_busy_schedule))"
  by code_simp

theorem apply_forgets_running_backups_witness:
  "fullBackupInProgress (bhBackend (ssHeap (svScheduler demo_busy_service) ! 0)) \<and>
   (\<exists>i. lookup (svHandlers (fst (ApplyConfig demo_handler_env demo_busy_service))) ''r'' = Some i \<and> i \<noteq> 0 \<and>
     \<not> fullBackupInProgress (bhBackend (ssHeap (svScheduler (fst (ApplyConfig demo_handler_env demo_busy_service))) ! i)))"
proof -
  have s: "svScheduler demo_busy_service = demo_busy_schedule" "current demo_busy_service = Some demo_applied_conf"
    by (simp_all add: demo_busy_service_def NewService_def demo_current [unfolded NewService_def]
        current_def config_at_def NewClientManager_def)
  have e: "hmSchedule demo_handler_env = demo_schedule_env" by (simp add: demo_handler_env_def)
  obtain sch hs where a: "ApplyNewConfig (hmSchedule demo_handler_env) demo_applied_conf (svScheduler demo_busy_service) = (sch, Ok hs)"
    using demo_applied_again
    by (cases "ApplyNewConfig demo_schedule_env demo_applied_conf demo_busy_schedule") (auto simp: is_ok_iff e s(1))
  have w: "wf_map (routines_of demo_applied_conf)" "''r'' \<in> set (keys (routines_of demo_applied_conf))"
    by (simp_all add: demo_routines)
  have i: "\<forall>i \<in> snd ` set (mcBackupHandler (NewMetricsCollector [(''r'', 0)])). i < length (ssHeap (svScheduler demo_busy_service))"
    by (simp add: NewMetricsCollector_def s(1) demo_busy_schedule_def)
  have h: "ssHeap (svScheduler demo_busy_service) = [demo_busy]" by (simp add: s(1) demo_busy_schedule_def)
  from apply_forgets_running_backups [OF s(2) a w i, where order = rev] obtain i where
    "svScheduler (fst (ApplyConfig demo_handler_env demo_busy_service)) = sch"
    "svHandlers (fst (ApplyConfig demo_handler_env demo_busy_service)) = hs"
    "lookup hs ''r'' = Some i" "length (ssHeap (svScheduler demo_busy_service)) \<le> i" "\<not> fullBackupInProgress (bhBackend (ssHeap sch ! i))"
    by blast
  moreover have "fullBackupInProgress (bhBackend demo_busy)" by (simp add: demo_busy_def)
  ultimately show ?thesis by (auto simp: h)
qed

end
