(* ===== verification/Process.thy ===== *)
theory Process
  imports Metrics
begin

text \<open>
  \<open>cmd/backup/main.go\<close> from the command line to the exit status, with the listening and the shutdown
  of \<open>internal/server/server.go\<close>.
\<close>

section \<open>Listening\<close>

text \<open>\<open>strings.Contains\<close>.\<close>

definition ContainsText :: "string \<Rightarrow> string \<Rightarrow> bool" where
  "ContainsText s sub \<longleftrightarrow> list_ex (\<lambda>i. HasPrefix (drop i s) sub) [0..<Suc (length s)]"

text \<open>\<open>Start\<close> of the server, from when \<open>ListenAndServe\<close> has returned, which is always with an error.\<close>

definition HTTPServer_Start :: "string \<Rightarrow> (string, unit) outcome" where
  "HTTPServer_Start err = (if ContainsText err ''Server closed'' then Ok () else Panic (ExplicitPanic err))"

text \<open>
  What the goroutines and the main function see while the server runs: \<open>ListenAndServe\<close> returns, a signal arrives
  (\<open>SIGINT\<close>, \<open>SIGQUIT\<close> or \<open>SIGTERM\<close>), or \<open>Shutdown\<close>, called after the first signal, returns.
\<close>

datatype server_event = ListenReturned string | Signal | ShutdownReturned "string option"

text \<open>
  The answer is \<open>None\<close> as long as the process runs. Only the first signal cancels the context: the
  goroutine that waits for it ends, and the channel keeps on swallowing the others.
\<close>

fun awaitShutdown :: "server_event list \<Rightarrow> (string, unit) outcome option" where
  "awaitShutdown [] = None"
| "awaitShutdown (ListenReturned err # es) = (case HTTPServer_Start err of Panic p \<Rightarrow> Some (Panic p) | _ \<Rightarrow> awaitShutdown es)"
| "awaitShutdown (Signal # es) = awaitShutdown es"
| "awaitShutdown (ShutdownReturned err # es) = Some (case err of None \<Rightarrow> Ok () | Some e \<Rightarrow> Err e)"

fun runHTTPServer :: "server_event list \<Rightarrow> (string, unit) outcome option" where
  "runHTTPServer [] = None"
| "runHTTPServer (ListenReturned err # es) = (case HTTPServer_Start err of Panic p \<Rightarrow> Some (Panic p) | _ \<Rightarrow> runHTTPServer es)"
| "runHTTPServer (Signal # es) = awaitShutdown es"
| "runHTTPServer (ShutdownReturned err # es) = runHTTPServer es"

section \<open>The command\<close>

text \<open>
  What cobra makes of the arguments: the two flags, a help or version text that is printed instead of
  running the command, or an error.
\<close>

datatype command_line = Flags string bool | HelpOrVersion | BadFlags string

definition run_service ::
  "handler_env \<Rightarrow> ('a, 'p) netip \<Rightarrow> 'l itself \<Rightarrow> string \<Rightarrow> bool \<Rightarrow> server_event list \<Rightarrow> (string, unit) outcome option" where
  "run_service env ni l configFile remote es =
     (case (startService env ni configFile remote :: (string, ('a, 'p, 'l) HTTPServer) outcome) of
        Panic p \<Rightarrow> Some (Panic p)
      | Err e \<Rightarrow> Some (Err e)
      | Ok h \<Rightarrow> runHTTPServer es)"

definition run_command ::
  "handler_env \<Rightarrow> ('a, 'p) netip \<Rightarrow> 'l itself \<Rightarrow> command_line \<Rightarrow> server_event list \<Rightarrow> (string, unit) outcome option" where
  "run_command env ni l cmd es =
     (case cmd of
        BadFlags e \<Rightarrow> Some (Err e)
      | HelpOrVersion \<Rightarrow> Some (Ok ())
      | Flags configFile remote \<Rightarrow>
          (case validateFlags configFile of
             Some e \<Rightarrow> Some (Err e)
           | None \<Rightarrow> run_service env ni l configFile remote es))"

text \<open>The exit status; a panic is none of it: the runtime ends the process.\<close>

definition exit_status ::
  "handler_env \<Rightarrow> ('a, 'p) netip \<Rightarrow> 'l itself \<Rightarrow> command_line \<Rightarrow> server_event list \<Rightarrow> (string, goint) outcome option" where
  "exit_status env ni l cmd es =
     (case run_command env ni l cmd es of
        None \<Rightarrow> None
      | Some (Panic p) \<Rightarrow> Some (Panic p)
      | Some (Err e) \<Rightarrow> Some (Ok (ToExitVal (Some e)))
      | Some (Ok x) \<Rightarrow> Some (Ok (ToExitVal None)))"

section \<open>How the process ends\<close>

definition closed_only :: "server_event list \<Rightarrow> bool" where
  "closed_only es \<longleftrightarrow> list_all (\<lambda>e. case e of ListenReturned err \<Rightarrow> ContainsText err ''Server closed'' | _ \<Rightarrow> True) es"

lemma awaitShutdown_Ok:
  "awaitShutdown es = Some (Ok ()) \<Longrightarrow> \<exists>mid post. es = mid @ ShutdownReturned None # post \<and> closed_only mid"
proof (induction es rule: awaitShutdown.induct)
  case (2 err es)
  then obtain mid post where "es = mid @ ShutdownReturned None # post" "closed_only mid" "ContainsText err ''Server closed''"
    by (auto simp: HTTPServer_Start_def split: if_splits)
  then show ?case by (intro exI [of _ "ListenReturned err # mid"] exI [of _ post]) (simp add: closed_only_def)
next
  case (3 es)
  then obtain mid post where "es = mid @ ShutdownReturned None # post" "closed_only mid" by auto
  then show ?case by (intro exI [of _ "Signal # mid"] exI [of _ post]) (simp add: closed_only_def)
next
  case (4 err es)
  then show ?case by (intro exI [of _ "[]"] exI [of _ es]) (auto simp: closed_only_def split: option.splits)
qed simp

lemma runHTTPServer_Ok:
  "runHTTPServer es = Some (Ok ()) \<Longrightarrow>
     \<exists>pre mid post. es = pre @ Signal # mid @ ShutdownReturned None # post \<and> closed_only pre \<and> closed_only mid"
proof (induction es rule: runHTTPServer.induct)
  case (2 err es)
  then obtain pre mid post where "es = pre @ Signal # mid @ ShutdownReturned None # post" "closed_only pre" "closed_only mid"
      "ContainsText err ''Server closed''"
    by (auto simp: HTTPServer_Start_def split: if_splits)
  then show ?case by (intro exI [of _ "ListenReturned err # pre"] exI [of _ mid] exI [of _ post]) (simp add: closed_only_def)
next
  case (3 es)
  from awaitShutdown_Ok [of es] 3 obtain mid post where "es = mid @ ShutdownReturned None # post" "closed_only mid" by auto
  then show ?case by (intro exI [of _ "[]"] exI [of _ mid] exI [of _ post]) (simp add: closed_only_def)
next
  case (4 err es)
  then obtain pre mid post where "es = pre @ Signal # mid @ ShutdownReturned None # post" "closed_only pre" "closed_only mid"
    by auto
  then show ?case
    by (intro exI [of _ "ShutdownReturned err # pre"] exI [of _ mid] exI [of _ post]) (simp add: closed_only_def)
qed simp

text \<open>
  An exit status of 0 means a text of cobra was printed, or the service was started from the given
  configuration, ran until a signal and was shut down without an error, and listening ended with
  nothing but the closing of the server.
\<close>

lemma exit_0:
  assumes "exit_status env ni (l :: 'l itself) cmd es = Some (Ok 0)"
  shows "cmd = HelpOrVersion \<or>
    (\<exists>configFile remote h pre mid post. cmd = Flags configFile remote \<and> configFile \<noteq> [] \<and>
       startService env ni configFile remote = Ok (h :: (_, _, 'l) HTTPServer) \<and>
       es = pre @ Signal # mid @ ShutdownReturned None # post \<and> closed_only pre \<and> closed_only mid)"
proof (cases cmd)
  case (Flags configFile remote)
  have "run_command env ni l cmd es = Some (Ok ())"
    using assms by (auto simp: exit_status_def ToExitVal_def split: option.splits outcome.splits)
  then obtain h :: "(_, _, 'l) HTTPServer" where "configFile \<noteq> []" "startService env ni configFile remote = Ok h"
      "runHTTPServer es = Some (Ok ())"
    by (auto simp: run_command_def run_service_def validateFlags_def Flags split: if_splits outcome.splits)
  then show ?thesis using runHTTPServer_Ok [of es] Flags by blast
qed (use assms in \<open>simp_all add: exit_status_def run_command_def ToExitVal_def\<close>)

text \<open>
  After the first signal the process waits for \<open>Shutdown\<close>, which has no deadline: as long as a
  request is being served, further signals do not end it.
\<close>

lemma signals_ignored: "closed_only es \<Longrightarrow> runHTTPServer (replicate (Suc n) Signal @ es) = awaitShutdown es"
proof -
  have "awaitShutdown (replicate n Signal @ es) = awaitShutdown es" by (induction n) simp_all
  then show ?thesis by simp
qed

end
