(* ===== verification/Cache.thy ===== *)
theory Cache
  imports Prelude
begin

text \<open>
  \<open>pkg/util/loading_cache.go\<close>: a cache that loads the values it does not have. A call of \<open>Get\<close> holds the
  mutex until its value is loaded, so the calls and the clean-ups happen one after the other.
\<close>

section \<open>The cache\<close>

record ('k, 'v) LoadingCache =
  lcData :: "('k, 'v) gomap"
  lcCleaning :: bool

text \<open>\<open>lcCleaning\<close>: the goroutine of \<open>startCleanup\<close> still runs.\<close>

definition NewLoadingCache :: "('k, 'v) LoadingCache" where
  "NewLoadingCache = \<lparr>lcData = [], lcCleaning = True\<rparr>"

text \<open>The loader may answer otherwise at every call, so it is an argument of the call.\<close>

definition GetCached :: "'k \<Rightarrow> ('k \<Rightarrow> ('e, 'v) outcome) \<Rightarrow> ('k, 'v) LoadingCache \<Rightarrow> ('k, 'v) LoadingCache \<times> ('e, 'v) outcome" where
  "GetCached key loadFunc c =
     (case lookup (lcData c) key of
        Some val \<Rightarrow> (c, Ok val)
      | None \<Rightarrow>
          (case loadFunc key of
             Panic p \<Rightarrow> (c, Panic p)
           | Err e \<Rightarrow> (c, Err e)
           | Ok loadedValue \<Rightarrow> (c\<lparr>lcData := insert_key key loadedValue (lcData c)\<rparr>, Ok loadedValue)))"

definition clean :: "('k, 'v) LoadingCache \<Rightarrow> ('k, 'v) LoadingCache" where
  "clean c = c\<lparr>lcData := []\<rparr>"

text \<open>A call, a tick of the hourly ticker, or the end of the context.\<close>

datatype ('k, 'v, 'e) cache_event = GetCall 'k "'k \<Rightarrow> ('e, 'v) outcome" | HourTick | ContextDone

fun cache_step :: "('k, 'v, 'e) cache_event \<Rightarrow> ('k, 'v) LoadingCache \<Rightarrow> ('k, 'v) LoadingCache" where
  "cache_step (GetCall key loadFunc) c = fst (GetCached key loadFunc c)"
| "cache_step HourTick c = (if lcCleaning c then clean c else c)"
| "cache_step ContextDone c = c\<lparr>lcCleaning := False\<rparr>"

section \<open>What the cache answers\<close>

text \<open>A value in the cache was loaded for its key, and every tick since found the clean-up ended.\<close>

definition loaded_since :: "('k, 'v, 'e) cache_event list \<Rightarrow> 'k \<Rightarrow> 'v \<Rightarrow> bool" where
  "loaded_since es key val \<longleftrightarrow> (\<exists>pre loadFunc post. es = pre @ GetCall key loadFunc # post \<and> loadFunc key = Ok val \<and>
     (\<forall>mid rest. post = mid @ HourTick # rest \<longrightarrow> ContextDone \<in> set pre \<union> set mid))"

lemma loaded_since_snoc:
  assumes "loaded_since es key val" and "e = HourTick \<longrightarrow> ContextDone \<in> set es"
  shows "loaded_since (es @ [e]) key val"
proof -
  obtain pre loadFunc post where es: "es = pre @ GetCall key loadFunc # post" and l: "loadFunc key = Ok val"
    and t: "\<And>mid rest. post = mid @ HourTick # rest \<Longrightarrow> ContextDone \<in> set pre \<union> set mid"
    using assms(1) by (auto simp: loaded_since_def)
  have "ContextDone \<in> set pre \<union> set mid" if p: "post @ [e] = mid @ HourTick # rest" for mid rest
  proof (cases rest rule: rev_cases)
    case Nil
    then show ?thesis using p assms(2) es by auto
  next
    case (snoc rest' x)
    then show ?thesis using p t by simp
  qed
  then show ?thesis unfolding loaded_since_def using es l
    by (intro exI [of _ pre] exI [of _ loadFunc] exI [of _ "post @ [e]"]) simp
qed

lemma cleaning_ended: "lcCleaning (fold cache_step es c) \<longleftrightarrow> lcCleaning c \<and> ContextDone \<notin> set es"
proof (induction es arbitrary: c)
  case (Cons e es)
  then show ?case
    by (cases e) (auto simp: GetCached_def clean_def split: option.splits outcome.splits)
qed simp

lemma cached_value_loaded:
  "lookup (lcData (fold cache_step es NewLoadingCache)) key = Some val \<Longrightarrow> loaded_since es key val"
proof (induction es rule: rev_induct)
  case (snoc e es)
  let ?c = "fold cache_step es NewLoadingCache"
  show ?case
  proof (cases "lookup (lcData ?c) key = Some val \<and> (e = HourTick \<longrightarrow> \<not> lcCleaning ?c)")
    case True
    then show ?thesis using snoc.IH loaded_since_snoc [of es key val e] by (simp add: cleaning_ended NewLoadingCache_def)
  next
    case False
    then obtain loadFunc where "e = GetCall key loadFunc" "loadFunc key = Ok val"
      using snoc.prems by (cases e) (auto simp: GetCached_def clean_def split: option.splits outcome.splits if_splits)
    then show ?thesis unfolding loaded_since_def by (intro exI [of _ es] exI [of _ loadFunc] exI [of _ "[]"]) simp
  qed
qed (simp add: NewLoadingCache_def)

text \<open>
  A call answers the value that was loaded for its key, by itself or by an earlier call since the
  last clean-up, and a failed load leaves nothing in the cache. With a loader that always
  answers the same, the cache does not show.
\<close>

lemma get_answers_loaded:
  assumes "GetCached key loadFunc (fold cache_step es NewLoadingCache) = (c, Ok val)"
  shows "loadFunc key = Ok val \<or> loaded_since es key val"
  using assms cached_value_loaded [of es key val] by (auto simp: GetCached_def split: option.splits outcome.splits)

lemma failed_load_not_kept:
  assumes "GetCached key loadFunc c = (c', Err e)"
  shows "c' = c" and "snd (GetCached key loadFunc' c') = loadFunc' key"
  using assms by (auto simp: GetCached_def split: option.splits outcome.splits)

lemma cache_transparent:
  assumes "\<forall>e \<in> set es. case e of GetCall k g \<Rightarrow> g = loadFunc | _ \<Rightarrow> True"
  shows "snd (GetCached key loadFunc (fold cache_step es NewLoadingCache)) = loadFunc key"
proof (cases "lookup (lcData (fold cache_step es NewLoadingCache)) key")
  case (Some val)
  from cached_value_loaded [OF this] obtain pre g post where
    "es = pre @ GetCall key g # post" "g key = Ok val"
    by (auto simp: loaded_since_def)
  then have "GetCall key g \<in> set es" "g key = Ok val" by simp_all
  then show ?thesis using assms Some by (auto simp: GetCached_def split: cache_event.splits)
qed (simp add: GetCached_def split: outcome.split)

end
