(* ===== verification/Spec2Isabelle.thy ===== *)
theory Spec2Isabelle
  imports Process Cache
begin

text \<open>
  A verification development of the Aerospike backup service (Go, \<open>cmd\<close>, \<open>internal\<close> and \<open>pkg\<close>).

  \<^bold>\<open>The program.\<close> The service keeps a configuration (clusters, storages, backup policies, secret
  agents and the routines that refer to them), which is read from a file, a URL or a storage and
  changed over HTTP. A quartz scheduler fires, for each routine, full and incremental backups; a
  routine's handler runs them with a client of the cluster, the backup library and a storage, and
  writes a metadata file beside each backup. A backend reads these files back: they are the only
  record of what was backed up. A restore takes one backup by its path, or, for a point in time,
  the last full backup of every namespace and the incremental ones after it; it runs in
  goroutines, and its job is asked for by its id. Clients of clusters are shared and counted.

  \<^bold>\<open>How Go is modelled\<close> (Prelude, GoStd, Times). Integers are words of their width. A function that
  returns an error or panics is an \<open>outcome\<close> with the cases \<open>Ok\<close>, \<open>Err\<close> and \<open>Panic\<close>; one that also
  changes a state is a \<open>step\<close>, which has a state in every case, for deferred calls. A Go map is an
  association list with distinct keys; where the order in which Go ranges over a map matters it
  is permuted by a parameter, and the theorems hold for every permutation. A pointer to an object
  that is shared is an address into a typed \<open>store\<close>; nil is \<open>None\<close>, and its dereference a panic. A
  float64 is the rational it denotes, with the rounding to 53 bits written out (Estimates).
  Strings are lists of bytes. No function needs fuel: every loop of the model is structural or has
  a termination proof, and what may go on for ever (the scheduler, timers, goroutines, the
  sequence of requests) is a step relation or a list of events of any length.

  \<^bold>\<open>Data and configuration.\<close>
  Model: the structs of \<open>pkg/model\<close> and their accessors with defaults.
  Config: \<open>pkg/model/config.go\<close>, the operations on the configuration; an update rewires the routines
  in place. ConfigTables states the contracts of the tables as locales and interprets them on
  these operations; ConfigRefs: every accepted sequence of requests refines an abstract table
  and keeps every reference of a routine valid.
  DtoPolicy, DtoEntities, DtoConfig, DtoConfigFile, DtoRequests: the documents of \<open>pkg/dto\<close>, their
  validation and the conversions to and from the model. DtoConfigLoad and DtoConfigProps: a valid
  document loads without a panic into a well-formed configuration, converting it back gives the
  document up to compression policies, incomplete Azure credentials and an absent rate section,
  and validation panics only on a null routine.

  \<^bold>\<open>Backups.\<close>
  Paths, StorageOps: \<open>pkg/service/paths.go\<close> and \<open>pkg/service/storage\<close>.
  Backend: \<open>backup_backend.go\<close>, \<open>backup_list_reader.go\<close>; the interface \<open>BackupListReader\<close> is a locale
  that the restore uses. The theorems say which backups a point in time selects.
  LibConfig, ClientPolicy, Clients: what the backup library is called with, how a cluster is
  connected to (TLS, passwords), and the counted clients of \<open>client_manager.go\<close>, whose interface is a
  locale: a client in use is never closed, one no longer used is closed exactly once.
  RoutineHandler: \<open>backup_routine_handler.go\<close>, \<open>backup_job.go\<close>, \<open>aerospike_service.go\<close>. RoutineProps:
  a run releases what it took, however it ends; a full run is recorded only when every namespace
  is backed up with its metadata; no incremental backup comes before it. IncrementalProps: the
  windows of incremental runs are adjacent, and failures do not stop the state. RoutineThreads:
  any number of runs of a routine interleaved, at the calls they are made of; at most one is a full run.
  A simulation shows that every whole run of RoutineHandler is a sequence of these steps.
  Retry: \<open>retry_service.go\<close> as a machine of calls and timers, with a bound on the attempts.

  \<^bold>\<open>Restores.\<close>
  Estimates, Jobs: \<open>estimates.go\<close> and \<open>jobs_holder.go\<close>; what goroutines do to a job is an
  interleaving of lists of updates. Restore, RestoreProps: \<open>restore_data.go\<close>; the order of the
  backups of a namespace, how the job ends, for every schedule of the goroutines.

  \<^bold>\<open>The service.\<close>
  Scheduler, SchedulerProps: \<open>backup_scheduler.go\<close>; applying a configuration leaves exactly the
  planned jobs on the scheduler. ConfigManager: \<open>internal/server/configuration\<close>; a write makes the bytes
  (\<open>prepare\<close>) and stores them (\<open>store_bytes\<close>), and \<open>file_after\<close> is what the file holds then. ConfigHandlers,
  RestoreHandlers, BackupHandlers: \<open>internal/server/handlers\<close>, each handler from the decoded request
  to the status and body, with every change of the service. Server: the routes, the white list,
  the rate limiter and the start-up (\<open>internal/server\<close>, \<open>internal/util\<close>, \<open>cmd/backup/main.go\<close>).
  ServiceProps, ServiceRuns: the locale \<open>config_change\<close> is the contract between the handlers and the
  configuration; with it every request keeps the invariant of the service, whatever backups and restores
  are on. HandlerProps: what a client of the HTTP interface can rely on. ServiceThreads: the running
  service, whose goroutines take backups and restores in parts while requests are handled: the configuration,
  the clients in use, the locks and the handlers at every moment, with a simulation of the whole runs of ServiceRuns.
  RequestThreads: requests that change the configuration, interleaved in steps; what a file manager
  was told to keep stays, a storage manager can lose it. Metrics: \<open>pkg/service/metrics.go\<close>, what the
  gauges of progress show, when a collection panics, and the handlers it keeps when the
  configuration is applied again. Process: from the command line to the exit status, with signals
  and the shutdown. Cache: \<open>pkg/util/loading_cache.go\<close>, which the service does not use yet.

  \<^bold>\<open>Parameters.\<close> What is not in the repository is an argument: the backup library and its handlers
  (\<open>backup_lib\<close>), the Aerospike client, the storage back ends (\<open>storage_lib\<close>), TLS and files
  (\<open>tls_lib\<close>), the codecs of JSON and YAML, quartz (\<open>schedule_env\<close>), \<open>net/url\<close>, \<open>netip\<close>, \<open>rate\<close>,
  the clock, random numbers and the texts of library errors. Where a theorem relies on one of them it has a
  named hypothesis, such as \<open>never_panics\<close> or \<open>unwraps\<close>, and a witness with a concrete instance.

  \<^bold>\<open>Atomicity.\<close> In ServiceRuns a request, a restore and a backup each run to their end before the
  next. In ServiceThreads only a request is one step: a backup goes on in the parts of RoutineThreads (one for
  the start of all namespaces, the wait for them, the record, the clean-up), a restore takes its client, works and gives it
  back. Requests that overlap each other are RequestThreads. Finer interleavings are also treated where the code
  shares state between goroutines and guards it, or where the order of its steps matters: Restore, Jobs, Clients,
  Retry. The goroutines of the library that go on when a run fails are not modelled. Data races on memory the code does not guard are outside the model: the maps of
  handlers read by the statistics, the maps of the configuration read while it is marshalled, the
  collected errors of a restore, and the gap between \<open>GetLimiter\<close> and \<open>AddLimiter\<close>; each of these
  reads is taken to be atomic. A panic in a goroutine ends the process, so it ends a history.

  \<^bold>\<open>Not modelled.\<close> Log lines (\<open>quartz_logger.go\<close> only passes them on), the counters and durations of
  \<open>metrics.go\<close> and their registration: output only; that a counter is increased is an event of a
  run. \<open>restore_mock.go\<close>: a test double. \<open>docs\<close> and \<open>modules/schema\<close>: generated or embedded data.
  Flag parsing by cobra, matching of paths by gorilla/mux, HTTP headers, and the String methods.
\<close>

end
